(* ===== verification/Prelude.thy ===== *)
theory Prelude
  imports Main "HOL-Library.Word" "HOL-Library.AList"
begin

text \<open>
  Shared vocabulary of the development: Go's machine types, errors as values, the bind
  of fallible computations, big-endian byte groups, Go maps as association lists, and
  the generic lemmas the component theories rely on.

  Conventions. A Go \<open>string\<close> is a sequence of bytes and is modelled by HOL's
  \<^typ>\<open>string\<close> (a list of 8-bit characters); a \<open>[]byte\<close> is a list of 8-bit words. Go's
  \<open>int\<close> is used by the modelled code for lengths, counters and variable-length
  integers far below \<open>2^63\<close>; it is a \<^typ>\<open>nat\<close> where the code never makes it negative and
  an \<^typ>\<open>int\<close> otherwise. An index or slice expression that Go would check at run time is
  modelled with its check: outside the bounds the result is the error \<open>Panic\<close>.
\<close>

unbundle bit_operations_syntax

type_synonym byte = "8 word"
type_synonym bytes = "8 word list"
type_synonym uint16 = "16 word"
type_synonym uint32 = "32 word"
type_synonym uint64 = "64 word"
type_synonym time = int \<comment> \<open>nanoseconds on the process clock\<close>

text \<open>A second in nanoseconds; \<open>time.Duration(sec) * time.Second\<close> fits in 63 bits for a 32-bit \<open>sec\<close>.\<close>

definition time_Second :: time where
  "time_Second = 1000000000"

named_theorems wire \<open>reading and writing of byte sequences\<close>
named_theorems panic_free \<open>results that are never a run-time panic\<close>
named_theorems alist \<open>Go maps as association lists\<close>

section \<open>Errors as values\<close>

text \<open>
  The sentinel errors of \<open>internal/protocol\<close>, the two errors \<open>io.ReadFull\<close> can return on
  a byte source, a run-time panic, an error made by \<open>fmt.Errorf\<close> without a cause and one
  that wraps a cause with \<open>%w\<close>.
\<close>

datatype goerr =
    ErrMalformed
  | ErrProtocolViolation
  | ErrTooLarge
  | ErrInvalidVarInt
  | ErrInvalidQoS
  | ErrInvalidTopic
  | ErrUnsupportedVersion
  | ErrInvalidClientID
  | ErrZeroPacketID
  | EOF
  | ErrUnexpectedEOF
  | Panic
  | Errorf string
  | Wrap string goerr

text \<open>\<open>errors.Is\<close>: the error itself or one of the causes it wraps.\<close>

fun errors_Is :: "goerr \<Rightarrow> goerr \<Rightarrow> bool" where
  "errors_Is (Wrap s e) target = (Wrap s e = target \<or> errors_Is e target)"
| "errors_Is e target = (e = target)"

definition bindE :: "'e + 'a \<Rightarrow> ('a \<Rightarrow> 'e + 'b) \<Rightarrow> 'e + 'b" where
  "bindE m f = (case m of Inl e \<Rightarrow> Inl e | Inr x \<Rightarrow> f x)"

definition wrapE :: "string \<Rightarrow> goerr + 'a \<Rightarrow> goerr + 'a" where
  "wrapE s m = (case m of Inl e \<Rightarrow> Inl (Wrap s e) | Inr x \<Rightarrow> Inr x)"

lemma bindE_simps [simp]:
  "bindE (Inl e) f = Inl e"
  "bindE (Inr x) f = f x"
  by (simp_all add: bindE_def)

lemma wrapE_simps [simp]:
  "wrapE s (Inl e) = Inl (Wrap s e)"
  "wrapE s (Inr x) = Inr x"
  by (simp_all add: wrapE_def)

lemma bindE_cong [fundef_cong]:
  "m = m' \<Longrightarrow> (\<And>x. m' = Inr x \<Longrightarrow> f x = f' x) \<Longrightarrow> bindE m f = bindE m' f'"
  by (cases m') simp_all

lemma bindE_eq_Inr: "bindE m f = Inr y \<longleftrightarrow> (\<exists>x. m = Inr x \<and> f x = Inr y)"
  by (cases m) simp_all

lemma bindE_InrE2:
  "bindE m (\<lambda>(a, b). f a b) = Inr y \<Longrightarrow> (\<And>a b. m = Inr (a, b) \<Longrightarrow> f a b = Inr y \<Longrightarrow> P) \<Longrightarrow> P"
  by (cases m) auto

lemma bindE_eq_Inl: "bindE m f = Inl e \<longleftrightarrow> m = Inl e \<or> (\<exists>x. m = Inr x \<and> f x = Inl e)"
  by (cases m) simp_all

lemma wrapE_eq_Inr [simp]: "wrapE s m = Inr x \<longleftrightarrow> m = Inr x"
  by (cases m) simp_all

text \<open>
  A computation is free of run-time panics when its result is not a panic, also not a
  wrapped one.
\<close>

definition no_panic :: "goerr + 'a \<Rightarrow> bool" where
  "no_panic m = (case m of Inl e \<Rightarrow> \<not> errors_Is e Panic | Inr _ \<Rightarrow> True)"

lemma no_panic_simps [simp]:
  "no_panic (Inr x)"
  "no_panic (Inl e) \<longleftrightarrow> \<not> errors_Is e Panic"
  by (simp_all add: no_panic_def)

lemma no_panic_bindE [intro]:
  "no_panic m \<Longrightarrow> (\<And>x. m = Inr x \<Longrightarrow> no_panic (f x)) \<Longrightarrow> no_panic (bindE m f)"
  by (cases m) simp_all

lemma no_panic_wrapE [simp]: "no_panic (wrapE s m) = no_panic m"
  by (cases m) simp_all

text \<open>Partial correctness of a fallible computation: what holds of the value it returns.\<close>

definition postE :: "('a \<Rightarrow> bool) \<Rightarrow> goerr + 'a \<Rightarrow> bool" where
  "postE P m = (case m of Inl _ \<Rightarrow> True | Inr x \<Rightarrow> P x)"

lemma postE_simps [simp]: "postE P (Inl e)" "postE P (Inr x) = P x"
  by (simp_all add: postE_def)

lemma postE_True: "postE (\<lambda>_. True) m"
  by (simp add: postE_def split: sum.split)

lemma postE_bindE: "postE Q m \<Longrightarrow> (\<And>x. Q x \<Longrightarrow> postE P (f x)) \<Longrightarrow> postE P (bindE m f)"
  by (cases m) simp_all

lemma postE_wrapE: "postE P m \<Longrightarrow> postE P (wrapE s m)"
  by (cases m) (simp_all add: wrapE_def)

lemma postE_D: "postE P m \<Longrightarrow> m = Inr x \<Longrightarrow> P x"
  by (simp add: postE_def)

section \<open>Bytes, strings and big-endian integers\<close>

definition bytes_of_string :: "string \<Rightarrow> bytes" where
  "bytes_of_string s = map of_char s"

definition string_of_bytes :: "bytes \<Rightarrow> string" where
  "string_of_bytes bs = map (\<lambda>b. char_of (unat b)) bs"

lemma length_bytes_of_string [simp]: "length (bytes_of_string s) = length s"
  by (simp add: bytes_of_string_def)

lemma length_string_of_bytes [simp]: "length (string_of_bytes s) = length s"
  by (simp add: string_of_bytes_def)

lemma unat_of_char: "unat (of_char c :: byte) = of_char c"
proof -
  have "(of_char c :: byte) = of_nat (of_char c)"
    by (rule of_nat_of_char [symmetric])
  moreover have "of_char c < (2::nat) ^ 8"
    using nat_of_char_less_256 [of c] by simp
  ultimately show ?thesis
    by (simp add: unsigned_of_nat take_bit_nat_eq_self)
qed

lemma string_of_bytes_of_string [simp]: "string_of_bytes (bytes_of_string s) = s"
  by (simp add: string_of_bytes_def bytes_of_string_def unat_of_char o_def)

lemma of_char_char_of_byte: "of_char (char_of (unat b)) = (b :: byte)"
proof -
  have "unat b < 256"
    using unsigned_less [of b, where ?'a = nat] by simp
  then have "of_nat (of_char (char_of (unat b))) = b"
    by simp
  then show ?thesis
    by (simp only: of_nat_of_char)
qed

lemma bytes_of_string_of_bytes [simp]: "bytes_of_string (string_of_bytes bs) = bs"
  by (induction bs) (simp_all add: string_of_bytes_def bytes_of_string_def of_char_char_of_byte)

lemma bytes_of_string_eq_iff [simp]: "bytes_of_string s = bytes_of_string t \<longleftrightarrow> s = t"
  by (metis string_of_bytes_of_string)

lemma bytes_of_string_Nil_iff [simp]: "bytes_of_string s = [] \<longleftrightarrow> s = []"
  by (simp add: bytes_of_string_def)

lemma string_of_bytes_Nil_iff [simp]: "string_of_bytes s = [] \<longleftrightarrow> s = []"
  by (simp add: string_of_bytes_def)

text \<open>\<open>byte(v >> 8), byte(v)\<close> and \<open>binary.BigEndian.Uint16\<close>; the same for four bytes.\<close>

definition put_uint16 :: "uint16 \<Rightarrow> bytes" where
  "put_uint16 v = [ucast (drop_bit 8 v), ucast v]"

definition BigEndian_Uint16 :: "bytes \<Rightarrow> uint16" where
  "BigEndian_Uint16 b = push_bit 8 (ucast (b ! 0)) OR ucast (b ! 1)"

definition put_uint32 :: "uint32 \<Rightarrow> bytes" where
  "put_uint32 v = [ucast (drop_bit 24 v), ucast (drop_bit 16 v), ucast (drop_bit 8 v), ucast v]"

definition BigEndian_Uint32 :: "bytes \<Rightarrow> uint32" where
  "BigEndian_Uint32 b = push_bit 24 (ucast (b ! 0)) OR push_bit 16 (ucast (b ! 1))
     OR push_bit 8 (ucast (b ! 2)) OR ucast (b ! 3)"

lemma length_put_uint16 [simp]: "length (put_uint16 v) = 2"
  by (simp add: put_uint16_def)

lemma length_put_uint32 [simp]: "length (put_uint32 v) = 4"
  by (simp add: put_uint32_def)

lemma BigEndian_put_uint16 [simp]: "BigEndian_Uint16 (put_uint16 v) = v"
  unfolding BigEndian_Uint16_def put_uint16_def
  by (rule bit_word_eqI) (auto simp: bit_simps)

lemma BigEndian_put_uint32 [simp]: "BigEndian_Uint32 (put_uint32 v) = v"
proof (rule bit_word_eqI)
  fix n assume "n < LENGTH(32)"
  then consider "n < 8" | "8 \<le> n" "n < 16" | "16 \<le> n" "n < 24" | "24 \<le> n" "n < 32"
    by fastforce
  then show "bit (BigEndian_Uint32 (put_uint32 v)) n = bit v n"
    unfolding BigEndian_Uint32_def put_uint32_def
    by cases (auto simp: bit_simps)
qed

text \<open>The 32-bit FNV-1a hash of Go's \<open>hash/fnv\<close>.\<close>

definition fnv32a :: "bytes \<Rightarrow> uint32" where
  "fnv32a bs = fold (\<lambda>b h. (h XOR ucast b) * 16777619) bs 2166136261"

section \<open>Go maps\<close>

text \<open>
  A Go map is an association list with distinct keys; \<open>m[k] = v\<close> is \<^const>\<open>AList.update\<close>,
  \<open>delete(m, k)\<close> is \<^const>\<open>AList.delete\<close>, \<open>m[k]\<close> is \<^const>\<open>map_of\<close>. Go iterates over a map in
  an unspecified order; the model iterates in list order, and statements about results
  that depend on the order speak about sets or maps.
\<close>

type_synonym ('k, 'v) gomap = "('k \<times> 'v) list"

abbreviation keys :: "('k, 'v) gomap \<Rightarrow> 'k list" where
  "keys m \<equiv> map fst m"

definition wf_map :: "('k, 'v) gomap \<Rightarrow> bool" where
  "wf_map m = distinct (keys m)"

lemma wf_map_Nil [simp, alist]: "wf_map []"
  by (simp add: wf_map_def)

lemma wf_map_update [simp, alist]: "wf_map m \<Longrightarrow> wf_map (AList.update k v m)"
  by (simp add: wf_map_def distinct_update)

lemma wf_map_delete [simp, alist]: "wf_map m \<Longrightarrow> wf_map (AList.delete k m)"
  by (simp add: wf_map_def distinct_delete)

lemma gomap_update [simp, alist]: "map_of (AList.update k v m) = (map_of m)(k \<mapsto> v)"
  by (simp add: update_conv')

lemma gomap_delete [simp, alist]: "map_of (AList.delete k m) = (map_of m)(k := None)"
  by (simp add: delete_conv')

lemma update_not_Nil [simp]: "AList.update k v m \<noteq> []"
  by (cases m) (auto split: prod.splits)

lemma set_update_subset: "set (AList.update k v m) \<subseteq> insert (k, v) (set m)"
  by (induction m) (auto split: if_splits)

lemma set_delete_subset: "set (AList.delete k m) \<subseteq> set m"
  by (auto simp: AList.delete_eq)

lemma map_of_Nil_iff: "map_of m = Map.empty \<longleftrightarrow> m = []"
  by (cases m) auto

lemma wf_map_in_set: "wf_map m \<Longrightarrow> (k, v) \<in> set m \<longleftrightarrow> map_of m k = Some v"
  by (auto simp: wf_map_def map_of_eq_Some_iff)

lemma gomap_filter [alist]:
  "wf_map m \<Longrightarrow> map_of (filter (\<lambda>(_, v). P v) m) k =
     (case map_of m k of None \<Rightarrow> None | Some v \<Rightarrow> if P v then Some v else None)"
  by (induction m) (auto simp: wf_map_def map_of_eq_None_iff split: option.split)

lemma wf_map_filter [simp, alist]: "wf_map m \<Longrightarrow> wf_map (filter P m)"
  by (simp add: wf_map_def distinct_map_filter)

end
