(* ===== verification/Wire.thy ===== *)
theory Wire
  imports Prelude
begin

text \<open>
  The byte level of \<open>internal/protocol/packet.go\<close>: the \<open>sliceReader\<close>, \<open>io.ReadFull\<close> over it,
  length-prefixed strings, big-endian integers, variable-length integers and the fixed
  header. The locale \<open>stream_codec\<close> is the contract of a self-delimiting field (reading
  what was written consumes exactly that and returns it); it is interpreted on every
  field reader of the source, and the packet decoders use its facts.
\<close>

section \<open>sliceReader\<close>

record sliceReader =
  sr_data :: bytes
  sr_pos :: nat

definition newSliceReader :: "bytes \<Rightarrow> sliceReader" where
  "newSliceReader b = \<lparr>sr_data = b, sr_pos = 0\<rparr>"

text \<open>\<open>Read(p)\<close> with \<open>len(p) = n\<close>: the bytes copied and the reader after it.\<close>

definition sliceReader_Read :: "nat \<Rightarrow> sliceReader \<Rightarrow> goerr + bytes \<times> sliceReader" where
  "sliceReader_Read n r =
     (if sr_pos r \<ge> length (sr_data r) then Inl EOF
      else let p = take n (drop (sr_pos r) (sr_data r))
           in Inr (p, r\<lparr>sr_pos := sr_pos r + length p\<rparr>))"

definition Remaining :: "sliceReader \<Rightarrow> int" where
  "Remaining r = int (length (sr_data r)) - int (sr_pos r)"

text \<open>The method \<open>ReadFull(p)\<close>: the slice expression \<open>r.data[r.pos:]\<close> is checked.\<close>

definition sliceReader_ReadFull :: "nat \<Rightarrow> sliceReader \<Rightarrow> goerr + bytes \<times> sliceReader" where
  "sliceReader_ReadFull n r =
     (if sr_pos r \<le> length (sr_data r)
      then let p = take n (drop (sr_pos r) (sr_data r))
           in Inr (p @ replicate (n - length p) 0, r\<lparr>sr_pos := sr_pos r + n\<rparr>)
      else Inl Panic)"

text \<open>\<open>io.ReadFull(r, buf)\<close> with \<open>len(buf) = n\<close>, that is \<open>io.ReadAtLeast(r, buf, n)\<close>.\<close>

function io_ReadAtLeast :: "nat \<Rightarrow> bytes \<Rightarrow> sliceReader \<Rightarrow> goerr + bytes \<times> sliceReader" where
  "io_ReadAtLeast n acc r =
     (if n \<le> length acc then Inr (acc, r)
      else case sliceReader_Read (n - length acc) r of
             Inl e \<Rightarrow> Inl (if acc \<noteq> [] \<and> e = EOF then ErrUnexpectedEOF else e)
           | Inr (p, r') \<Rightarrow> io_ReadAtLeast n (acc @ p) r')"
  by pat_completeness auto
termination
  by (relation "measure (\<lambda>(n, acc, r). n - length acc)")
    (auto simp: sliceReader_Read_def Let_def split: if_splits)

declare io_ReadAtLeast.simps [simp del]

definition io_ReadFull :: "nat \<Rightarrow> sliceReader \<Rightarrow> goerr + bytes \<times> sliceReader" where
  "io_ReadFull n r = io_ReadAtLeast n [] r"

text \<open>The index and slice expressions of the property readers, with their bounds checks.\<close>

definition index_byte :: "sliceReader \<Rightarrow> goerr + byte \<times> sliceReader" where
  "index_byte r =
     (if sr_pos r < length (sr_data r)
      then Inr (sr_data r ! sr_pos r, r\<lparr>sr_pos := sr_pos r + 1\<rparr>)
      else Inl Panic)"

definition slice_bytes :: "nat \<Rightarrow> sliceReader \<Rightarrow> goerr + bytes \<times> sliceReader" where
  "slice_bytes n r =
     (if sr_pos r + n \<le> length (sr_data r)
      then Inr (take n (drop (sr_pos r) (sr_data r)), r\<lparr>sr_pos := sr_pos r + n\<rparr>)
      else Inl Panic)"

section \<open>Fixed header\<close>

type_synonym PacketType = byte

record FixedHeader =
  fh_Type :: PacketType
  fh_Flags :: byte
  fh_RemainingLength :: nat

definition MaxRemainingLength :: nat where
  "MaxRemainingLength = 268435455"

function ReadFixed_loop :: "nat \<Rightarrow> nat \<Rightarrow> nat \<Rightarrow> sliceReader \<Rightarrow> goerr + nat \<times> sliceReader" where
  "ReadFixed_loop i mult val r =
     (if i < 4 then
        bindE (wrapE ''remaining length'' (io_ReadFull 1 r)) (\<lambda>(b1, r).
          let digit = unat (b1 ! 0);
              val = val + (digit AND 0x7F) * mult;
              mult = mult * 128
          in if digit AND 0x80 = 0 then Inr (val, r)
             else if i = 3 then Inl ErrInvalidVarInt
             else ReadFixed_loop (i + 1) mult val r)
      else Inr (val, r))"
  by pat_completeness auto
termination
  by (relation "measure (\<lambda>(i, mult, val, r). 4 - i)") auto

declare ReadFixed_loop.simps [simp del]

definition ReadFixed :: "sliceReader \<Rightarrow> goerr + FixedHeader \<times> sliceReader" where
  "ReadFixed r =
     bindE (io_ReadFull 1 r) (\<lambda>(b1, r).
       bindE (ReadFixed_loop 0 1 0 r) (\<lambda>(val, r).
         Inr (\<lparr>fh_Type = drop_bit 4 (b1 ! 0), fh_Flags = (b1 ! 0) AND 0x0F,
               fh_RemainingLength = val\<rparr>, r)))"

text \<open>
  \<open>encodeVarInt(dst, n)\<close>: the buffer after the call and the number of bytes written.
  Writing past the end of \<open>dst\<close> panics.
\<close>

function encodeVarInt_loop :: "bytes \<Rightarrow> nat \<Rightarrow> nat \<Rightarrow> goerr + bytes \<times> nat" where
  "encodeVarInt_loop dst i n =
     (let digit = n mod 128;
          n' = n div 128;
          digit' = (if n' > 0 then digit OR 0x80 else digit)
      in if i < length dst then
           (let dst' = dst[i := of_nat digit']
            in if n' = 0 then Inr (dst', i + 1) else encodeVarInt_loop dst' (i + 1) n')
         else Inl Panic)"
  by pat_completeness auto
termination
  by (relation "measure (\<lambda>(dst, i, n). n)") (auto simp: Let_def div_greater_zero_iff)

declare encodeVarInt_loop.simps [simp del]

definition encodeVarInt :: "bytes \<Rightarrow> nat \<Rightarrow> goerr + bytes \<times> nat" where
  "encodeVarInt dst n = encodeVarInt_loop dst 0 n"

text \<open>
  Every caller writes \<open>var buf [4]byte; k := encodeVarInt(buf[:], n)\<close> and then appends
  \<open>buf[:k]\<close>; this is the appended slice.
\<close>

definition varint4 :: "nat \<Rightarrow> goerr + bytes" where
  "varint4 n = bindE (encodeVarInt (replicate 4 0) n) (\<lambda>(buf, k). Inr (take k buf))"

section \<open>Strings and 16-bit integers\<close>

definition readString :: "sliceReader \<Rightarrow> goerr + string \<times> sliceReader" where
  "readString r =
     bindE (io_ReadFull 2 r) (\<lambda>(lenBuf, r).
       let len = unat (BigEndian_Uint16 lenBuf) in
       if len = 0 then Inr ([], r)
       else bindE (io_ReadFull len r) (\<lambda>(d, r). Inr (string_of_bytes d, r)))"

definition readUint16 :: "sliceReader \<Rightarrow> goerr + uint16 \<times> sliceReader" where
  "readUint16 r = bindE (io_ReadFull 2 r) (\<lambda>(buf, r). Inr (BigEndian_Uint16 buf, r))"

definition appendString :: "bytes \<Rightarrow> string \<Rightarrow> bytes" where
  "appendString b s =
     (let s = (if length s > 65535 then take 65535 s else s)
      in b @ [of_nat (length s div 256), of_nat (length s)] @ bytes_of_string s)"

definition appendUint16 :: "bytes \<Rightarrow> uint16 \<Rightarrow> bytes" where
  "appendUint16 b v = b @ [ucast (drop_bit 8 v), ucast v]"

section \<open>Property blocks\<close>

function readVarInt_loop :: "nat \<Rightarrow> nat \<Rightarrow> nat \<Rightarrow> sliceReader \<Rightarrow> goerr + nat \<times> sliceReader" where
  "readVarInt_loop i mult val r =
     (if i < 4 then
        if Remaining r < 1 then Inl ErrMalformed
        else bindE (index_byte r) (\<lambda>(b, r).
          let digit = unat b;
              val = val + (digit AND 0x7F) * mult;
              mult = mult * 128
          in if digit AND 0x80 = 0 then Inr (val, r)
             else readVarInt_loop (i + 1) mult val r)
      else Inl ErrInvalidVarInt)"
  by pat_completeness auto
termination
  by (relation "measure (\<lambda>(i, mult, val, r). 4 - i)") auto

declare readVarInt_loop.simps [simp del]

definition readVarInt :: "sliceReader \<Rightarrow> goerr + nat \<times> sliceReader" where
  "readVarInt r = readVarInt_loop 0 1 0 r"

function skipProps_loop :: "nat \<Rightarrow> nat \<Rightarrow> nat \<Rightarrow> sliceReader \<Rightarrow> goerr + nat \<times> sliceReader" where
  "skipProps_loop i mult propLen r =
     (if i < 4 then
        bindE (sliceReader_Read 1 r) (\<lambda>(buf, r).
          let propLen = propLen + unat ((buf ! 0) AND 0x7F) * mult;
              mult = mult * 128
          in if (buf ! 0) AND 0x80 = 0 then Inr (propLen, r)
             else skipProps_loop (i + 1) mult propLen r)
      else Inr (propLen, r))"
  by pat_completeness auto
termination
  by (relation "measure (\<lambda>(i, mult, propLen, r). 4 - i)") auto

declare skipProps_loop.simps [simp del]

definition skipProps :: "sliceReader \<Rightarrow> goerr + sliceReader" where
  "skipProps r =
     bindE (skipProps_loop 0 1 0 r) (\<lambda>(propLen, r).
       if propLen = 0 then Inr r
       else let r = r\<lparr>sr_pos := sr_pos r + propLen\<rparr>
            in if sr_pos r > length (sr_data r) then Inl ErrMalformed else Inr r)"

type_synonym props = "(byte, bytes) gomap"

text \<open>One \<open>case\<close> of the property switches: \<open>n\<close> value bytes, checked and copied.\<close>

definition readProp :: "nat \<Rightarrow> byte \<Rightarrow> props \<Rightarrow> sliceReader \<Rightarrow> goerr + props \<times> sliceReader" where
  "readProp n ident props r =
     (if Remaining r < int n then Inl ErrMalformed
      else bindE (slice_bytes n r) (\<lambda>(v, r). Inr (AList.update ident v props, r)))"

lemma index_byte_pos: "index_byte r = Inr (b, r') \<Longrightarrow> sr_pos r' = sr_pos r + 1"
  by (auto simp: index_byte_def split: if_splits)

lemma readProp_pos: "readProp n ident props r = Inr (props', r') \<Longrightarrow> sr_pos r' = sr_pos r + n"
  by (auto simp: readProp_def slice_bytes_def split: if_splits)

function readProps_loop :: "nat \<Rightarrow> nat \<Rightarrow> props \<Rightarrow> sliceReader \<Rightarrow> goerr + props \<times> sliceReader" where
  "readProps_loop start propLen props r =
     (if sr_pos r - start < propLen then
        if Remaining r < 1 then Inl ErrMalformed
        else bindE (index_byte r) (\<lambda>(ident, r).
          if ident = 0x02 then
            bindE (readProp 4 ident props r) (\<lambda>(props, r). readProps_loop start propLen props r)
          else if ident = 0x23 then
            bindE (readProp 2 ident props r) (\<lambda>(props, r). readProps_loop start propLen props r)
          else if ident = 0x11 then
            bindE (readProp 4 ident props r) (\<lambda>(props, r). readProps_loop start propLen props r)
          else Inr (props, r\<lparr>sr_pos := start + propLen\<rparr>))
      else Inr (props, r))"
  by pat_completeness auto
termination
  by (relation "measure (\<lambda>(start, propLen, props, r). start + propLen - sr_pos r)")
    (auto dest!: index_byte_pos readProp_pos)

declare readProps_loop.simps [simp del]

definition readProps :: "sliceReader \<Rightarrow> goerr + props \<times> sliceReader" where
  "readProps r = bindE (readVarInt r) (\<lambda>(propLen, r). readProps_loop (sr_pos r) propLen [] r)"

function readConnectProps_loop ::
    "nat \<Rightarrow> nat \<Rightarrow> props \<Rightarrow> sliceReader \<Rightarrow> goerr + props \<times> sliceReader" where
  "readConnectProps_loop start propLen props r =
     (if sr_pos r - start < propLen then
        if Remaining r < 1 then Inl ErrMalformed
        else bindE (index_byte r) (\<lambda>(ident, r).
          if ident = 0x11 then
            bindE (readProp 4 ident props r) (\<lambda>(props, r). readConnectProps_loop start propLen props r)
          else if ident = 0x21 then
            bindE (readProp 2 ident props r) (\<lambda>(props, r). readConnectProps_loop start propLen props r)
          else if ident = 0x22 then
            bindE (readProp 2 ident props r) (\<lambda>(props, r). readConnectProps_loop start propLen props r)
          else if ident = 0x27 then
            bindE (readProp 4 ident props r) (\<lambda>(props, r). readConnectProps_loop start propLen props r)
          else Inr (props, r\<lparr>sr_pos := start + propLen\<rparr>))
      else Inr (props, r))"
  by pat_completeness auto
termination
  by (relation "measure (\<lambda>(start, propLen, props, r). start + propLen - sr_pos r)")
    (auto dest!: index_byte_pos readProp_pos)

declare readConnectProps_loop.simps [simp del]

definition readConnectProps :: "sliceReader \<Rightarrow> goerr + props \<times> sliceReader" where
  "readConnectProps r =
     bindE (readVarInt r) (\<lambda>(propLen, r). readConnectProps_loop (sr_pos r) propLen [] r)"

section \<open>Readers as positions in a byte sequence\<close>

definition rest :: "sliceReader \<Rightarrow> bytes" where
  "rest r = drop (sr_pos r) (sr_data r)"

definition advance :: "nat \<Rightarrow> sliceReader \<Rightarrow> sliceReader" where
  "advance n r = r\<lparr>sr_pos := sr_pos r + n\<rparr>"

lemma rest_newSliceReader [simp, wire]: "rest (newSliceReader b) = b"
  by (simp add: rest_def newSliceReader_def)

lemma rest_advance [simp, wire]: "rest (advance n r) = drop n (rest r)"
  by (simp add: rest_def advance_def add.commute)

lemma advance_0 [simp]: "advance 0 r = r"
  by (simp add: advance_def)

lemma advance_advance [simp, wire]: "advance m (advance n r) = advance (n + m) r"
  by (simp add: advance_def add.assoc)

lemma sr_pos_advance [simp]: "sr_pos (advance n r) = sr_pos r + n"
  and sr_data_advance [simp]: "sr_data (advance n r) = sr_data r"
  by (simp_all add: advance_def)

lemma rest_Nil_iff: "rest r = [] \<longleftrightarrow> length (sr_data r) \<le> sr_pos r"
  by (simp add: rest_def)

lemma Remaining_less_iff: "0 < n \<Longrightarrow> Remaining r < int n \<longleftrightarrow> length (rest r) < n"
  by (auto simp: Remaining_def rest_def)

lemma Remaining_less_1 [simp, wire]: "Remaining r < 1 \<longleftrightarrow> rest r = []"
  using Remaining_less_iff [of 1 r] by (cases "rest r") auto

lemma Remaining_pos [simp, wire]: "0 < Remaining r \<longleftrightarrow> rest r \<noteq> []"
  using Remaining_less_1 [of r] by linarith

lemma sliceReader_Read_eq:
  "sliceReader_Read n r =
     (if rest r = [] then Inl EOF
      else Inr (take n (rest r), advance (min n (length (rest r))) r))"
  by (auto simp: sliceReader_Read_def rest_def advance_def Let_def min.commute)

lemma io_ReadAtLeast_empty:
  "rest r = [] \<Longrightarrow> length acc < n \<Longrightarrow>
     io_ReadAtLeast n acc r = Inl (if acc = [] then EOF else ErrUnexpectedEOF)"
  by (subst io_ReadAtLeast.simps) (auto simp: sliceReader_Read_eq)

lemma io_ReadFull_eq [wire]:
  "io_ReadFull n r =
     (if n \<le> length (rest r) then Inr (take n (rest r), advance n r)
      else Inl (if rest r = [] then EOF else ErrUnexpectedEOF))"
proof (cases "n = 0 \<or> rest r = []")
  case True
  then show ?thesis
    by (auto simp: io_ReadFull_def io_ReadAtLeast_empty io_ReadAtLeast.simps [of 0])
next
  case False
  then have "io_ReadFull n r =
      io_ReadAtLeast n (take n (rest r)) (advance (min n (length (rest r))) r)"
    unfolding io_ReadFull_def by (subst io_ReadAtLeast.simps) (auto simp: sliceReader_Read_eq)
  also have "\<dots> = (if n \<le> length (rest r) then Inr (take n (rest r), advance n r)
      else Inl ErrUnexpectedEOF)"
  proof (cases "n \<le> length (rest r)")
    case True
    then show ?thesis
      by (subst io_ReadAtLeast.simps) (simp add: min_def)
  next
    case short: False
    then show ?thesis
      using False by (subst io_ReadAtLeast_empty) auto
  qed
  finally show ?thesis
    using False by simp
qed

lemma index_byte_eq [wire]:
  "index_byte r = (if rest r = [] then Inl Panic else Inr (hd (rest r), advance 1 r))"
  by (auto simp: index_byte_def rest_def advance_def hd_drop_conv_nth)

lemma slice_bytes_eq [wire]:
  "0 < n \<Longrightarrow> slice_bytes n r =
     (if n \<le> length (rest r) then Inr (take n (rest r), advance n r) else Inl Panic)"
  by (auto simp: slice_bytes_def rest_def advance_def)

lemma readProp_eq [wire]:
  "0 < n \<Longrightarrow> readProp n ident props r =
     (if n \<le> length (rest r)
      then Inr (AList.update ident (take n (rest r)) props, advance n r)
      else Inl ErrMalformed)"
  by (simp add: readProp_def Remaining_less_iff slice_bytes_eq)

section \<open>Self-delimiting fields\<close>

text \<open>
  The contract of a field reader \<open>dec\<close> and the bytes \<open>enc x\<close> a writer emits for the
  values \<open>x\<close> it can encode: in front of any further bytes the reader returns \<open>x\<close> and stops
  behind the field. The consequences hold for every such field: two encodings in front of
  arbitrary tails can be told apart, so a sequence of fields is unambiguous.
\<close>

locale stream_codec =
  fixes enc :: "'a \<Rightarrow> bytes"
    and dec :: "sliceReader \<Rightarrow> goerr + 'a \<times> sliceReader"
    and ok :: "'a \<Rightarrow> bool"
  assumes dec_enc: "ok x \<Longrightarrow> rest r = enc x @ bs \<Longrightarrow> dec r = Inr (x, advance (length (enc x)) r)"
begin

lemma enc_prefix_free:
  assumes "ok x" "ok y" "enc x @ u = enc y @ v"
  shows "x = y \<and> u = v"
proof -
  let ?r = "newSliceReader (enc x @ u)"
  have "dec ?r = Inr (x, advance (length (enc x)) ?r)"
    using assms(1) by (rule dec_enc) simp
  moreover have "dec ?r = Inr (y, advance (length (enc y)) ?r)"
    using assms(2) by (rule dec_enc) (simp add: assms(3))
  ultimately show ?thesis
    using assms(3) by simp
qed

lemma concat_enc_inject:
  assumes "\<And>x. ok x \<Longrightarrow> enc x \<noteq> []"
  shows "list_all ok xs \<Longrightarrow> list_all ok ys \<Longrightarrow>
    concat (map enc xs) = concat (map enc ys) \<Longrightarrow> xs = ys"
proof (induction xs arbitrary: ys)
  case Nil
  then show ?case
    using assms by (cases ys) auto
next
  case (Cons x xs)
  from Cons.prems assms obtain y ys' where ys: "ys = y # ys'"
    by (cases ys) auto
  with Cons.prems have "x = y \<and> concat (map enc xs) = concat (map enc ys')"
    by (intro enc_prefix_free) auto
  with Cons ys show ?case
    by simp
qed

end

section \<open>Variable-length integers\<close>

text \<open>The encoding as a recursive function on the number, and its length.\<close>

fun varint_bytes :: "nat \<Rightarrow> bytes" where
  "varint_bytes n =
     (if n < 128 then [of_nat n] else of_nat (n mod 128 + 128) # varint_bytes (n div 128))"

declare varint_bytes.simps [simp del]

lemma varint_bytes_not_Nil [simp]: "varint_bytes n \<noteq> []"
  by (subst varint_bytes.simps) simp

lemma length_varint_bytes_le: "length (varint_bytes n) \<le> Suc k \<longleftrightarrow> n < 128 ^ Suc k"
proof (induction k arbitrary: n)
  case 0
  show ?case
    by (subst varint_bytes.simps) simp
next
  case (Suc k)
  show ?case
  proof (cases "n < 128")
    case True
    moreover have "(128::nat) \<le> 128 ^ Suc (Suc k)"
      by (rule self_le_power) auto
    ultimately have "n < 128 ^ Suc (Suc k)"
      by (rule less_le_trans)
    with True show ?thesis
      by (subst varint_bytes.simps) (simp del: power_Suc)
  next
    case False
    then have "length (varint_bytes n) \<le> Suc (Suc k) \<longleftrightarrow> n div 128 < 128 ^ Suc k"
      by (subst varint_bytes.simps) (simp add: Suc.IH del: power_Suc)
    also have "\<dots> \<longleftrightarrow> n < 128 ^ Suc (Suc k)"
      by (simp add: div_less_iff_less_mult mult.commute)
    finally show ?thesis .
  qed
qed

lemma length_varint_bytes_le_4 [simp]: "length (varint_bytes n) \<le> 4 \<longleftrightarrow> n \<le> MaxRemainingLength"
proof -
  have "length (varint_bytes n) \<le> 4 \<longleftrightarrow> n < 128 ^ 4"
    using length_varint_bytes_le [of n 3] by simp
  also have "\<dots> \<longleftrightarrow> n \<le> MaxRemainingLength"
    unfolding MaxRemainingLength_def by simp linarith
  finally show ?thesis .
qed

lemma bit_0x80 [simp]: "bit (0x80::nat) n \<longleftrightarrow> n = 7"
proof -
  have "(0x80::nat) = 2 ^ 7"
    by simp
  then show ?thesis
    by (simp only: bit_exp_iff) auto
qed

lemma or_0x80: "(d::nat) < 128 \<Longrightarrow> d OR 0x80 = d + 128"
proof -
  assume "d < 128"
  then have "take_bit 7 d = d"
    by (simp add: take_bit_nat_eq_self)
  then have "\<not> bit d 7"
    by (metis bit_take_bit_iff less_irrefl)
  then have "d AND 0x80 = 0"
    by (intro bit_eqI) (auto simp: bit_and_iff)
  then show ?thesis
    by (simp add: disjunctive_add_eq_or)
qed

lemma and_0x7F: "(d::nat) AND 0x7F = d mod 128"
proof -
  have "(0x7F::nat) = mask 7"
    by (simp add: mask_eq_exp_minus_1)
  then show ?thesis
    by (simp only: flip: take_bit_eq_mask) (simp add: take_bit_eq_mod)
qed

lemma and_0x80_eq_0: "(d::nat) < 256 \<Longrightarrow> d AND 0x80 = 0 \<longleftrightarrow> d < 128"
proof -
  assume d: "d < 256"
  have "d AND 0x80 = 0 \<longleftrightarrow> \<not> bit d 7"
    using and_exp_eq_0_iff_not_bit [of d 7] by simp
  also have "bit d 7 \<longleftrightarrow> odd (d div 128)"
    by (simp add: bit_iff_odd)
  also have "odd (d div 128) \<longleftrightarrow> 128 \<le> d"
  proof (cases "d < 128")
    case False
    with d have "d div 128 = 1"
      by (simp add: div_nat_eqI)
    with False show ?thesis
      by simp
  qed simp
  finally show ?thesis
    by auto
qed

lemma unat_byte_less [simp]: "unat (b :: byte) < 256"
  using unsigned_less [of b, where ?'a = nat] by simp

lemma unat_of_nat_byte [simp]: "n < 256 \<Longrightarrow> unat (of_nat n :: byte) = n"
  by (simp add: unsigned_of_nat take_bit_nat_eq_self)

lemmas digit_simps = and_0x7F and_0x80_eq_0 or_0x80

lemma encodeVarInt_loop_eq:
  "i \<le> length dst \<Longrightarrow>
     encodeVarInt_loop dst i n =
       (if i + length (varint_bytes n) \<le> length dst
        then Inr (take i dst @ varint_bytes n @ drop (i + length (varint_bytes n)) dst,
                  i + length (varint_bytes n))
        else Inl Panic)"
proof (induction n arbitrary: dst i rule: varint_bytes.induct)
  case (1 n)
  show ?case
  proof (cases "i < length dst")
    case False
    moreover have "length (varint_bytes n) > 0"
      by simp
    ultimately show ?thesis
      using "1.prems" by (subst encodeVarInt_loop.simps) (simp add: Let_def)
  next
    case i: True
    show ?thesis
    proof (cases "n < 128")
      case True
      then have v: "varint_bytes n = [of_nat n]"
        by (simp add: varint_bytes.simps)
      show ?thesis
        using True i unfolding v
        by (subst encodeVarInt_loop.simps) (simp add: Let_def upd_conv_take_nth_drop)
    next
      case False
      then have v: "varint_bytes n = of_nat (n mod 128 + 128) # varint_bytes (n div 128)"
        by (simp add: varint_bytes.simps)
      let ?dst = "dst[i := of_nat (n mod 128 + 128)]"
      have "encodeVarInt_loop dst i n = encodeVarInt_loop ?dst (i + 1) (n div 128)"
        using False i by (subst encodeVarInt_loop.simps) (auto simp: Let_def or_0x80 div_eq_0_iff)
      also have "\<dots> = (if i + 1 + length (varint_bytes (n div 128)) \<le> length ?dst
          then Inr (take (i + 1) ?dst @ varint_bytes (n div 128)
                      @ drop (i + 1 + length (varint_bytes (n div 128))) ?dst,
                    i + 1 + length (varint_bytes (n div 128)))
          else Inl Panic)"
        using False i by (intro "1.IH") auto
      finally show ?thesis
        using i unfolding v by (auto simp: upd_conv_take_nth_drop add.commute)
    qed
  qed
qed

lemma varint4_eq [wire]:
  "varint4 n = (if n \<le> MaxRemainingLength then Inr (varint_bytes n) else Inl Panic)"
proof -
  have "length (varint_bytes n) \<le> length (replicate 4 (0::byte)) \<longleftrightarrow> n \<le> MaxRemainingLength"
    by simp
  then show ?thesis
    by (simp add: varint4_def encodeVarInt_def encodeVarInt_loop_eq del: replicate.simps)
qed

lemma join_digits: "(val::nat) + n mod 128 * m + n div 128 * (m * 128) = val + n * m"
proof -
  have "n * m = (n mod 128 + n div 128 * 128) * m"
    by simp
  then show ?thesis
    by (simp only: distrib_left distrib_right ac_simps)
qed

lemma varint_first_digit:
  assumes "rest r = varint_bytes n @ bs"
  shows "rest r \<noteq> []"
    and "unat (hd (rest r)) AND 0x80 = 0 \<longleftrightarrow> n < 128"
    and "unat (hd (rest r)) AND 0x7F = n mod 128"
    and "128 \<le> n \<Longrightarrow> drop 1 (rest r) = varint_bytes (n div 128) @ bs"
    and "n < 128 \<Longrightarrow> length (varint_bytes n) = 1"
    and "128 \<le> n \<Longrightarrow> length (varint_bytes n) = Suc (length (varint_bytes (n div 128)))"
proof -
  show "rest r \<noteq> []"
    using assms by simp
  have hd: "hd (rest r) = of_nat (if n < 128 then n else n mod 128 + 128)"
    using assms by (auto simp: varint_bytes.simps [of n])
  have less: "(if n < 128 then n else n mod 128 + 128) < 256"
    by auto
  have un: "unat (hd (rest r)) = (if n < 128 then n else n mod 128 + 128)"
    unfolding hd by (rule unat_of_nat_byte [OF less])
  show "unat (hd (rest r)) AND 0x80 = 0 \<longleftrightarrow> n < 128"
    unfolding un using less by (subst and_0x80_eq_0) auto
  show "unat (hd (rest r)) AND 0x7F = n mod 128"
    unfolding un by (simp add: and_0x7F)
  show "128 \<le> n \<Longrightarrow> drop 1 (rest r) = varint_bytes (n div 128) @ bs"
    using assms by (simp add: varint_bytes.simps [of n])
  show "n < 128 \<Longrightarrow> length (varint_bytes n) = 1"
    "128 \<le> n \<Longrightarrow> length (varint_bytes n) = Suc (length (varint_bytes (n div 128)))"
    by (simp_all add: varint_bytes.simps [of n])
qed

lemma readVarInt_loop_varint:
  "rest r = varint_bytes n @ bs \<Longrightarrow> i + length (varint_bytes n) \<le> 4 \<Longrightarrow>
     readVarInt_loop i mult val r = Inr (val + n * mult, advance (length (varint_bytes n)) r)"
proof (induction n arbitrary: i mult val r rule: varint_bytes.induct)
  case (1 n)
  note d = varint_first_digit [OF "1.prems"(1)]
  have i: "i < 4"
    using "1.prems"(2) by (cases "varint_bytes n") auto
  show ?case
  proof (cases "n < 128")
    case True
    then show ?thesis
      using d i by (subst readVarInt_loop.simps) (simp add: index_byte_eq)
  next
    case False
    then have "readVarInt_loop i mult val r =
        readVarInt_loop (i + 1) (mult * 128) (val + n mod 128 * mult) (advance 1 r)"
      using d i by (subst readVarInt_loop.simps) (simp add: index_byte_eq Let_def)
    also have "\<dots> = Inr (val + n mod 128 * mult + n div 128 * (mult * 128),
        advance (length (varint_bytes (n div 128))) (advance 1 r))"
      using False d "1.prems"(2) by (intro "1.IH") auto
    finally show ?thesis
      using False d by (simp add: join_digits)
  qed
qed

lemma ReadFixed_loop_varint:
  "rest r = varint_bytes n @ bs \<Longrightarrow> i + length (varint_bytes n) \<le> 4 \<Longrightarrow>
     ReadFixed_loop i mult val r = Inr (val + n * mult, advance (length (varint_bytes n)) r)"
proof (induction n arbitrary: i mult val r rule: varint_bytes.induct)
  case (1 n)
  note d = varint_first_digit [OF "1.prems"(1)]
  have i: "i < 4"
    using "1.prems"(2) by (cases "varint_bytes n") auto
  have rd: "io_ReadFull 1 r = Inr (take 1 (rest r), advance 1 r)" "take 1 (rest r) ! 0 = hd (rest r)"
    using d(1) by (auto simp: io_ReadFull_eq hd_conv_nth Suc_le_eq)
  show ?case
  proof (cases "n < 128")
    case True
    then show ?thesis
      using d i rd by (subst ReadFixed_loop.simps) simp
  next
    case False
    then have "ReadFixed_loop i mult val r =
        ReadFixed_loop (i + 1) (mult * 128) (val + n mod 128 * mult) (advance 1 r)"
      using d i rd "1.prems"(2) varint_bytes_not_Nil [of "n div 128"]
      by (subst ReadFixed_loop.simps) (auto simp: Let_def)
    also have "\<dots> = Inr (val + n mod 128 * mult + n div 128 * (mult * 128),
        advance (length (varint_bytes (n div 128))) (advance 1 r))"
      using False d "1.prems"(2) by (intro "1.IH") auto
    finally show ?thesis
      using False d by (simp add: join_digits)
  qed
qed

section \<open>The field readers implement the contract\<close>

definition enc_string :: "string \<Rightarrow> bytes" where
  "enc_string s = appendString [] s"

definition fits16 :: "string \<Rightarrow> bool" where
  "fits16 s = (length s \<le> 65535)"

lemma appendString_eq [wire]: "appendString b s = b @ enc_string s"
  by (simp add: enc_string_def appendString_def Let_def)

lemma appendUint16_eq [wire]: "appendUint16 b v = b @ put_uint16 v"
  by (simp add: appendUint16_def put_uint16_def)

lemma BigEndian_length_prefix:
  assumes "n \<le> 65535"
  shows "unat (BigEndian_Uint16 [of_nat (n div 256), of_nat n]) = n"
proof -
  have "[of_nat (n div 256), of_nat n] = put_uint16 (of_nat n)"
  proof -
    have "n div 256 = drop_bit 8 n"
      by (simp add: drop_bit_eq_div)
    then have "(ucast (drop_bit 8 (of_nat n :: uint16)) :: byte) = of_nat (n div 256)"
      by (auto intro!: bit_word_eqI simp: bit_simps)
    moreover have "(ucast (of_nat n :: uint16) :: byte) = of_nat n"
      by (auto intro!: bit_word_eqI simp: bit_simps)
    ultimately show ?thesis
      by (simp add: put_uint16_def)
  qed
  then show ?thesis
    using assms by (simp add: unsigned_of_nat take_bit_nat_eq_self)
qed

lemma enc_string_eq:
  "fits16 s \<Longrightarrow> enc_string s = [of_nat (length s div 256), of_nat (length s)] @ bytes_of_string s"
  by (simp add: enc_string_def appendString_def fits16_def Let_def)

lemma length_enc_string [simp]: "fits16 s \<Longrightarrow> length (enc_string s) = 2 + length s"
  by (simp add: enc_string_eq)

interpretation u16: stream_codec put_uint16 readUint16 "\<lambda>_. True"
  by unfold_locales (simp add: readUint16_def io_ReadFull_eq)

interpretation str: stream_codec enc_string readString fits16
proof unfold_locales
  fix s r bs
  assume s: "fits16 s" and r: "rest r = enc_string s @ bs"
  then have r': "rest r = [of_nat (length s div 256), of_nat (length s)] @ bytes_of_string s @ bs"
    by (simp add: enc_string_eq)
  have len: "unat (BigEndian_Uint16 [of_nat (length s div 256), of_nat (length s)]) = length s"
    using s by (intro BigEndian_length_prefix) (simp add: fits16_def)
  show "readString r = Inr (s, advance (length (enc_string s)) r)"
    using s r' len by (auto simp: readString_def io_ReadFull_eq Let_def)
qed

interpretation varint: stream_codec varint_bytes readVarInt "\<lambda>n. n \<le> MaxRemainingLength"
  by unfold_locales (simp add: readVarInt_def readVarInt_loop_varint)

definition enc_fixed :: "FixedHeader \<Rightarrow> bytes" where
  "enc_fixed fh = (push_bit 4 (fh_Type fh) OR fh_Flags fh) # varint_bytes (fh_RemainingLength fh)"

definition fixed_ok :: "FixedHeader \<Rightarrow> bool" where
  "fixed_ok fh = (fh_Type fh < 16 \<and> fh_Flags fh < 16 \<and> fh_RemainingLength fh \<le> MaxRemainingLength)"

lemma bit_nat_ge: "bit (m::nat) n \<Longrightarrow> 2 ^ n \<le> m"
  by (metis bit_iff_odd div_less even_zero not_le)

lemma nibble_bit: "(b::byte) < 16 \<Longrightarrow> bit b n \<Longrightarrow> n < 4"
proof -
  assume "b < 16" "bit b n"
  then have "unat b < 2 ^ 4" "bit (unat b) n"
    by (auto simp: word_less_nat_alt bit_unsigned_iff dest: bit_imp_le_length)
  with bit_nat_ge [of "unat b" n] have "(2::nat) ^ n < 2 ^ 4"
    by linarith
  then show "n < 4"
    by (rule power_less_imp_less_exp [rotated]) simp
qed

lemma bit_0x0F [simp]: "bit (0x0F::byte) n \<longleftrightarrow> n < 4"
proof -
  have "(0x0F::byte) = mask 4"
    by (simp add: mask_eq_exp_minus_1)
  then show ?thesis
    by (simp only: bit_mask_iff) auto
qed

lemma nibble_bounds: "drop_bit 4 b < (16::byte)" "b AND 0x0F < (16::byte)"
proof -
  have "unat (drop_bit 4 b) = unat b div 16"
    by (simp only: unat_drop_bit_eq) (simp add: drop_bit_eq_div)
  also have "\<dots> < 16"
    using unat_byte_less [of b] by linarith
  finally show "drop_bit 4 b < (16::byte)"
    by (simp add: word_less_nat_alt)
  have "b AND 0x0F \<le> 0x0F"
    by (rule word_and_le1)
  then show "b AND 0x0F < (16::byte)"
    by (rule le_less_trans) simp
qed

lemma nibbles [wire]:
  assumes "(t::byte) < 16" "f < 16"
  shows "drop_bit 4 (push_bit 4 t OR f) = t" and "(push_bit 4 t OR f) AND 0x0F = f"
proof -
  note t = nibble_bit [OF assms(1)] and f = nibble_bit [OF assms(2)]
  have "\<not> bit f (4 + n)" for n
    using f [of "4 + n"] by auto
  then show "drop_bit 4 (push_bit 4 t OR f) = t"
    by (auto intro!: bit_word_eqI simp: bit_simps dest: t)
  show "(push_bit 4 t OR f) AND 0x0F = f"
    by (auto intro!: bit_word_eqI simp: bit_simps simp del: bit_numeral_word_iff dest: f)
qed

interpretation fixed: stream_codec enc_fixed ReadFixed fixed_ok
proof unfold_locales
  fix fh r bs
  assume ok: "fixed_ok fh" and r: "rest r = enc_fixed fh @ bs"
  let ?n = "fh_RemainingLength fh" and ?b = "push_bit 4 (fh_Type fh) OR fh_Flags fh"
  have b: "drop_bit 4 ?b = fh_Type fh" "?b AND 0x0F = fh_Flags fh"
    using ok by (simp_all only: fixed_ok_def nibbles)
  have rd: "io_ReadFull 1 r = Inr ([?b], advance 1 r)"
    using r by (simp add: io_ReadFull_eq enc_fixed_def)
  have "rest (advance 1 r) = varint_bytes ?n @ bs"
    using r by (simp add: enc_fixed_def)
  then have "ReadFixed_loop 0 1 0 (advance 1 r)
      = Inr (?n, advance (length (varint_bytes ?n)) (advance 1 r))"
    using ok by (subst ReadFixed_loop_varint [where n = ?n]) (auto simp: fixed_ok_def)
  then show "ReadFixed r = Inr (fh, advance (length (enc_fixed fh)) r)"
    by (simp only: ReadFixed_def rd bindE_simps prod.case nth_Cons_0 b) (simp add: enc_fixed_def)
qed

section \<open>What the readers consume, and bounds\<close>

lemma io_ReadFull_Inr [wire]:
  "io_ReadFull n r = Inr (d, r') \<longleftrightarrow> n \<le> length (rest r) \<and> d = take n (rest r) \<and> r' = advance n r"
  by (auto simp: io_ReadFull_eq)

lemma readString_Inr:
  "readString r = Inr (s, r') \<Longrightarrow>
     fits16 s \<and> 2 + length s \<le> length (rest r) \<and> r' = advance (2 + length s) r
     \<and> bytes_of_string s = take (length s) (drop 2 (rest r))"
  using unsigned_less [of "BigEndian_Uint16 (take 2 (rest r))", where ?'a = nat]
  by (auto simp: readString_def bindE_eq_Inr io_ReadFull_Inr Let_def fits16_def min_def
      split: if_splits)

lemma readString_shrinks: "readString r = Inr (s, r') \<Longrightarrow> length (rest r') < length (rest r)"
  by (auto dest!: readString_Inr)

lemma readUint16_Inr:
  "readUint16 r = Inr (v, r') \<longleftrightarrow>
     2 \<le> length (rest r) \<and> v = BigEndian_Uint16 (take 2 (rest r)) \<and> r' = advance 2 r"
  by (auto simp: readUint16_def bindE_eq_Inr io_ReadFull_Inr)

lemma ReadFixed_loop_bound:
  "ReadFixed_loop i mult val r = Inr (v, r') \<Longrightarrow> i \<le> 4 \<Longrightarrow> mult = 128 ^ i \<Longrightarrow> val < mult \<Longrightarrow> v < 128 ^ 4"
proof (induction i mult val r rule: ReadFixed_loop.induct)
  case (1 i mult val r)
  show ?case
  proof (cases "i < 4")
    case False
    then show ?thesis
      using "1.prems" by (subst (asm) ReadFixed_loop.simps) simp
  next
    case i: True
    from "1.prems"(1) i obtain d r1 where rd: "io_ReadFull 1 r = Inr (d, r1)"
      by (subst (asm) ReadFixed_loop.simps) (auto simp: bindE_eq_Inr)
    let ?digit = "unat (d ! 0)" and ?val = "val + (unat (d ! 0) AND 0x7F) * mult"
    have "?digit AND 0x7F \<le> 127"
      by (simp add: and_0x7F)
    then have "?val < mult + 127 * mult"
      using "1.prems"(4) by (intro add_less_le_mono mult_le_mono1)
    then have val: "?val < 128 ^ (i + 1)"
      using "1.prems"(3) by simp
    have le: "(128::nat) ^ (i + 1) \<le> 128 ^ 4"
      using i by (intro power_increasing) auto
    consider "?digit AND 0x80 = 0" "v = ?val"
      | "?digit AND 0x80 \<noteq> 0" "i \<noteq> 3" "ReadFixed_loop (i + 1) (mult * 128) ?val r1 = Inr (v, r')"
      using "1.prems"(1) i rd
      by (subst (asm) ReadFixed_loop.simps) (auto simp: Let_def split: if_splits)
    then show ?thesis
    proof cases
      case 1
      then show ?thesis
        using val le by linarith
    next
      case 2
      then show ?thesis
        using "1.IH" [OF i _ refl refl refl refl 2(1,2,3)] rd i "1.prems"(3) val by simp
    qed
  qed
qed

lemma ReadFixed_ok: "ReadFixed r = Inr (fh, r') \<Longrightarrow> fixed_ok fh"
proof -
  assume "ReadFixed r = Inr (fh, r')"
  then obtain b v r1 where v: "ReadFixed_loop 0 1 0 r1 = Inr (v, r')"
      and fh: "fh = \<lparr>fh_Type = drop_bit 4 b, fh_Flags = b AND 0x0F, fh_RemainingLength = v\<rparr>"
    by (auto simp: ReadFixed_def bindE_eq_Inr)
  have "v < 128 ^ 4"
    using v by (rule ReadFixed_loop_bound) auto
  then show "fixed_ok fh"
    using fh nibble_bounds [of b] by (simp add: fixed_ok_def MaxRemainingLength_def)
qed

section \<open>The readers never panic\<close>

lemma io_ReadFull_no_panic [simp, panic_free]: "no_panic (io_ReadFull n r)"
  by (simp add: io_ReadFull_eq)

lemma sliceReader_Read_no_panic [simp, panic_free]: "no_panic (sliceReader_Read n r)"
  by (simp add: sliceReader_Read_eq)

lemma readString_no_panic [simp, panic_free]: "no_panic (readString r)"
  unfolding readString_def by (auto intro!: no_panic_bindE simp: Let_def)

lemma readUint16_no_panic [simp, panic_free]: "no_panic (readUint16 r)"
  unfolding readUint16_def by (intro no_panic_bindE) auto

lemma readVarInt_no_panic [simp, panic_free]: "no_panic (readVarInt r)"
proof -
  have "no_panic (readVarInt_loop i mult val r)" for i mult val r
  proof (induction i mult val r rule: readVarInt_loop.induct)
    case (1 i mult val r)
    then show ?case
      by (subst readVarInt_loop.simps) (auto simp: index_byte_eq Let_def)
  qed
  then show ?thesis
    by (simp add: readVarInt_def)
qed

lemma skipProps_no_panic [simp, panic_free]: "no_panic (skipProps r)"
proof -
  have "no_panic (skipProps_loop i mult val r)" for i mult val r
  proof (induction i mult val r rule: skipProps_loop.induct)
    case (1 i mult val r)
    then show ?case
      by (subst skipProps_loop.simps) (auto intro!: no_panic_bindE simp: Let_def)
  qed
  then show ?thesis
    unfolding skipProps_def by (intro no_panic_bindE) (auto simp: Let_def)
qed

lemma readProps_no_panic [simp, panic_free]: "no_panic (readProps r)"
proof -
  have "no_panic (readProps_loop start propLen props r)" for start propLen props r
  proof (induction start propLen props r rule: readProps_loop.induct)
    case (1 start propLen props r)
    then show ?case
      by (subst readProps_loop.simps) (auto simp: index_byte_eq readProp_eq)
  qed
  then show ?thesis
    unfolding readProps_def by (intro no_panic_bindE) auto
qed

lemma readConnectProps_no_panic [simp, panic_free]: "no_panic (readConnectProps r)"
proof -
  have "no_panic (readConnectProps_loop start propLen props r)" for start propLen props r
  proof (induction start propLen props r rule: readConnectProps_loop.induct)
    case (1 start propLen props r)
    then show ?case
      by (subst readConnectProps_loop.simps) (auto simp: index_byte_eq readProp_eq)
  qed
  then show ?thesis
    unfolding readConnectProps_def by (intro no_panic_bindE) auto
qed

lemma ReadFixed_no_panic [simp, panic_free]: "no_panic (ReadFixed r)"
proof -
  have "no_panic (ReadFixed_loop i mult val r)" for i mult val r
  proof (induction i mult val r rule: ReadFixed_loop.induct)
    case (1 i mult val r)
    then show ?case
      by (subst ReadFixed_loop.simps) (auto intro!: no_panic_bindE simp: Let_def)
  qed
  then show ?thesis
    unfolding ReadFixed_def by (intro no_panic_bindE) auto
qed

section \<open>Empty property blocks\<close>

lemma varint_bytes_0 [simp]: "varint_bytes 0 = [0]"
  by (simp add: varint_bytes.simps)

lemma skipProps_empty: "rest r = 0 # bs \<Longrightarrow> skipProps r = Inr (advance 1 r)"
  by (simp add: skipProps_def skipProps_loop.simps [of 0] sliceReader_Read_eq)

lemma readProps_empty: "rest r = 0 # bs \<Longrightarrow> readProps r = Inr ([], advance 1 r)"
  using varint.dec_enc [of 0 r bs]
  by (simp add: readProps_def readProps_loop.simps)

section \<open>Properties\<close>

text \<open>
  a length up to 268435455 is encoded in at most four bytes, from which the reader gets it back and stops
  right after them; for a larger one the encoder runs past its four-byte buffer and panics.
\<close>

theorem varint_roundtrip:
  "case varint4 n of
     Inl e \<Rightarrow> e = Panic \<and> n > 268435455
   | Inr bs \<Rightarrow> n \<le> 268435455 \<and> length bs \<le> 4
       \<and> readVarInt (newSliceReader (bs @ suff)) = Inr (n, advance (length bs) (newSliceReader (bs @ suff)))"
proof (cases "n \<le> MaxRemainingLength")
  case True
  then have "readVarInt (newSliceReader (varint_bytes n @ suff))
      = Inr (n, advance (length (varint_bytes n)) (newSliceReader (varint_bytes n @ suff)))"
    by (intro varint.dec_enc [where bs = suff]) simp_all
  with True show ?thesis
    by (simp add: varint4_eq) (simp add: MaxRemainingLength_def)
next
  case False
  then show ?thesis
    by (simp add: varint4_eq) (simp add: MaxRemainingLength_def)
qed

text \<open>
  the fixed header of a packet, with type and flags of four bits and a length within the limit, is read
  back from its encoding, whatever follows it; and whatever bytes arrive, a header that is read
  has such a type, flags and length.
\<close>

theorem fixed_header_roundtrip:
  assumes "fh_Type fh < 16" "fh_Flags fh < 16" "fh_RemainingLength fh \<le> MaxRemainingLength"
  shows "ReadFixed (newSliceReader (enc_fixed fh @ suff))
      = Inr (fh, advance (length (enc_fixed fh)) (newSliceReader (enc_fixed fh @ suff)))
    \<and> (ReadFixed r = Inr (fh', r') \<longrightarrow>
         fh_Type fh' < 16 \<and> fh_Flags fh' < 16 \<and> fh_RemainingLength fh' \<le> MaxRemainingLength)"
  using fixed.dec_enc [of fh "newSliceReader (enc_fixed fh @ suff)" suff] ReadFixed_ok [of r fh' r'] assms
  by (auto simp: fixed_ok_def)

theorem fixed_header_roundtrip_witness:
  "\<exists>r. ReadFixed (newSliceReader (enc_fixed \<lparr>fh_Type = 3, fh_Flags = 2, fh_RemainingLength = 300\<rparr>))
     = Inr (\<lparr>fh_Type = 3, fh_Flags = 2, fh_RemainingLength = 300\<rparr>, r)"
  using fixed_header_roundtrip [of "\<lparr>fh_Type = 3, fh_Flags = 2, fh_RemainingLength = 300\<rparr>" "[]"]
  by (auto simp: MaxRemainingLength_def)

end
