(* ===== verification/Topics.thy ===== *)
theory Topics
  imports Prelude
begin

text \<open>
  Topic names and topic filters: validation and shared-subscription parsing
  (\<open>internal/protocol/packet.go\<close>), and the two filter matchers of the code base, the one
  of the router (\<open>internal/router/router.go\<close>) and the one of the access-control lists
  (\<open>internal/auth/auth.go\<close>). The specification of matching is \<open>mqtt_match\<close>, stated level by
  level; both matchers are proved to implement it on valid filters, and to agree with each
  other on all inputs. The three ways the code splits a string into levels are proved equal.
\<close>

section \<open>Go string functions\<close>

definition HasPrefix :: "string \<Rightarrow> string \<Rightarrow> bool" where
  "HasPrefix s p = (take (length p) s = p)"

definition IndexByte :: "string \<Rightarrow> char \<Rightarrow> int" where
  "IndexByte s c = (if c \<in> set s then int (length (takeWhile (\<lambda>x. x \<noteq> c) s)) else -1)"

fun strings_Split :: "string \<Rightarrow> char \<Rightarrow> string list" where
  "strings_Split [] c = [[]]"
| "strings_Split (x # xs) c =
     (if x = c then [] # strings_Split xs c
      else case strings_Split xs c of [] \<Rightarrow> [[x]] | s # ss \<Rightarrow> (x # s) # ss)"

fun strings_Join :: "string list \<Rightarrow> char \<Rightarrow> string" where
  "strings_Join [] c = []"
| "strings_Join [s] c = s"
| "strings_Join (s # t # ss) c = s @ c # strings_Join (t # ss) c"

text \<open>\<open>ToLower\<close> and \<open>TrimSpace\<close> on ASCII text.\<close>

definition lower_char :: "char \<Rightarrow> char" where
  "lower_char c = (let n = of_char c :: nat in if 65 \<le> n \<and> n \<le> 90 then char_of (n + 32) else c)"

definition ToLower :: "string \<Rightarrow> string" where
  "ToLower s = map lower_char s"

definition is_space :: "char \<Rightarrow> bool" where
  "is_space c = (let n = of_char c :: nat in n = 32 \<or> (9 \<le> n \<and> n \<le> 13))"

definition TrimSpace :: "string \<Rightarrow> string" where
  "TrimSpace s = rev (dropWhile is_space (rev (dropWhile is_space s)))"

text \<open>Decimal digits, as \<open>fmt.Sprintf("%d", i)\<close> writes an integer.\<close>

fun nat_digits :: "nat \<Rightarrow> string" where
  "nat_digits n = (if n < 10 then [char_of (48 + n)] else nat_digits (n div 10) @ [char_of (48 + n mod 10)])"

declare nat_digits.simps [simp del]

definition Itoa :: "int \<Rightarrow> string" where
  "Itoa i = (if i < 0 then CHR ''-'' # nat_digits (nat (- i)) else nat_digits (nat i))"

section \<open>Validation\<close>

definition MaxTopicLen :: nat where
  "MaxTopicLen = 65535"

abbreviation slash :: char where "slash \<equiv> CHR ''/''"
abbreviation nul :: char where "nul \<equiv> CHR 0x00"

definition ValidTopicName :: "string \<Rightarrow> bool" where
  "ValidTopicName t =
     (if length t = 0 \<or> length t > MaxTopicLen then False
      else list_all (\<lambda>c. \<not> (c = CHR ''+'' \<or> c = CHR ''#'' \<or> c = nul)) t)"

text \<open>
  The source ranges over the runes of the share name; the four characters it looks for
  are single-byte runes, so the test is the same byte by byte.
\<close>

definition share_prefix :: string where
  "share_prefix = ''$share/''"

definition ParseSharedTopicFilter :: "string \<Rightarrow> (string \<times> string) option" where
  "ParseSharedTopicFilter f =
     (let p = share_prefix in
      if length f \<le> length p + 1 \<or> \<not> HasPrefix f p then None
      else
        let rest = drop (length p) f;
            i = IndexByte rest slash
        in if i \<le> 0 \<or> i \<ge> int (length rest) - 1 then None
           else
             let shareName = take (nat i) rest;
                 topicFilter = drop (nat i + 1) rest
             in if shareName = [] \<or> topicFilter = [] then None
                else if list_ex (\<lambda>c. c = CHR ''+'' \<or> c = CHR ''#'' \<or> c = slash \<or> c = nul) shareName
                then None
                else if HasPrefix topicFilter share_prefix then None
                else Some (shareName, topicFilter))"

fun validTopicFilterSegments :: "string list \<Rightarrow> bool" where
  "validTopicFilterSegments [] = True"
| "validTopicFilterSegments (seg # segs) =
     (if seg = ''#'' then (if segs \<noteq> [] then False else validTopicFilterSegments segs)
      else if seg = ''+'' then validTopicFilterSegments segs
      else if list_ex (\<lambda>c. c = CHR ''+'' \<or> c = CHR ''#'' \<or> c = nul) seg then False
      else validTopicFilterSegments segs)"

function splitFilter_loop :: "string \<Rightarrow> nat \<Rightarrow> nat \<Rightarrow> string list \<Rightarrow> string list" where
  "splitFilter_loop f i start segs =
     (if i < length f then
        if f ! i = slash
        then splitFilter_loop f (i + 1) (i + 1) (segs @ [drop start (take i f)])
        else splitFilter_loop f (i + 1) start segs
      else segs @ [drop start f])"
  by pat_completeness auto
termination
  by (relation "measure (\<lambda>(f, i, start, segs). length f - i)") auto

declare splitFilter_loop.simps [simp del]

definition splitFilter :: "string \<Rightarrow> string list" where
  "splitFilter f = splitFilter_loop f 0 0 []"

definition ValidTopicFilter :: "string \<Rightarrow> bool" where
  "ValidTopicFilter f =
     (if length f = 0 \<or> length f > MaxTopicLen then False
      else if HasPrefix f share_prefix then
        (case ParseSharedTopicFilter f of
           Some (_, inner) \<Rightarrow> validTopicFilterSegments (splitFilter inner)
         | None \<Rightarrow> False)
      else validTopicFilterSegments (splitFilter f))"

section \<open>Matching\<close>

definition router_splitFilter :: "string \<Rightarrow> string list" where
  "router_splitFilter f = (if f = [] then [[]] else strings_Split f slash)"

function matchSegs :: "string list \<Rightarrow> string list \<Rightarrow> nat \<Rightarrow> nat \<Rightarrow> bool" where
  "matchSegs t f ti fi =
     (if fi < length f then
        let seg = f ! fi in
        if seg = ''#'' then True
        else if ti \<ge> length t then False
        else if seg \<noteq> ''+'' \<and> seg \<noteq> t ! ti then False
        else matchSegs t f (ti + 1) (fi + 1)
      else ti = length t)"
  by pat_completeness auto
termination
  by (relation "measure (\<lambda>(t, f, ti, fi). length f - fi)") auto

declare matchSegs.simps [simp del]

definition TopicMatchesFilter :: "string \<Rightarrow> string \<Rightarrow> bool" where
  "TopicMatchesFilter topic filter' =
     matchSegs (router_splitFilter topic) (router_splitFilter filter') 0 0"

text \<open>The matcher of the access-control lists, with its own argument order.\<close>

function auth_matchSegs :: "string list \<Rightarrow> string list \<Rightarrow> nat \<Rightarrow> nat \<Rightarrow> bool" where
  "auth_matchSegs f t fi ti =
     (if fi < length f then
        let seg = f ! fi in
        if seg = ''#'' then True
        else if ti \<ge> length t then False
        else if seg \<noteq> ''+'' \<and> seg \<noteq> t ! ti then False
        else auth_matchSegs f t (fi + 1) (ti + 1)
      else ti = length t)"
  by pat_completeness auto
termination
  by (relation "measure (\<lambda>(f, t, fi, ti). length f - fi)") auto

declare auth_matchSegs.simps [simp del]

definition topicFilterMatches :: "string \<Rightarrow> string \<Rightarrow> bool" where
  "topicFilterMatches filter' topic =
     auth_matchSegs (strings_Split filter' slash) (strings_Split topic slash) 0 0"

section \<open>Splitting into levels\<close>

lemma strings_Split_not_Nil [simp]: "strings_Split s c \<noteq> []"
  by (cases s) (auto split: list.splits)

lemma strings_Split_append:
  "c \<notin> set u \<Longrightarrow> strings_Split (u @ c # v) c = u # strings_Split v c"
  by (induction u) auto

lemma strings_Split_single: "c \<notin> set u \<Longrightarrow> strings_Split u c = [u]"
  by (induction u) auto

lemma strings_Split_no_sep: "s \<in> set (strings_Split u c) \<Longrightarrow> c \<notin> set s"
  by (induction u arbitrary: s) (auto split: if_splits list.splits)

lemma strings_Join_Cons: "ss \<noteq> [] \<Longrightarrow> strings_Join (s # ss) c = s @ c # strings_Join ss c"
  by (cases ss) auto

lemma strings_Join_Split [simp]: "strings_Join (strings_Split s c) c = s"
proof (induction s)
  case (Cons x xs)
  then show ?case
    by (cases "strings_Split xs c"; cases "tl (strings_Split xs c)")
      (auto simp: strings_Join_Cons split: list.splits)
qed simp

lemma strings_Split_Join:
  "ss \<noteq> [] \<Longrightarrow> \<forall>s\<in>set ss. c \<notin> set s \<Longrightarrow> strings_Split (strings_Join ss c) c = ss"
  by (induction ss c rule: strings_Join.induct)
    (auto simp: strings_Split_append strings_Split_single)

lemma splitFilter_loop_eq:
  "start \<le> i \<Longrightarrow> i \<le> length f \<Longrightarrow> slash \<notin> set (drop start (take i f)) \<Longrightarrow>
     splitFilter_loop f i start segs = segs @ strings_Split (drop start f) slash"
proof (induction f i start segs rule: splitFilter_loop.induct)
  case (1 f i start segs)
  show ?case
  proof (cases "i < length f")
    case False
    then show ?thesis
      using "1.prems" by (subst splitFilter_loop.simps) (simp add: strings_Split_single)
  next
    case i: True
    have f: "drop start f = drop start (take i f) @ f ! i # drop (Suc i) f"
      using i "1.prems"(1) by (metis Cons_nth_drop_Suc append_take_drop_id drop_append
          diff_is_0_eq drop_0 le_refl length_take min.absorb4)
    show ?thesis
    proof (cases "f ! i = slash")
      case True
      then show ?thesis
        using i "1.prems" "1.IH"(1) unfolding f
        by (subst splitFilter_loop.simps) (simp add: strings_Split_append)
    next
      case False
      then show ?thesis
        using i "1.prems" "1.IH"(2)
        by (subst splitFilter_loop.simps) (auto simp: take_Suc_conv_app_nth)
    qed
  qed
qed

lemma splitFilter_eq: "splitFilter f = strings_Split f slash"
  by (simp add: splitFilter_def splitFilter_loop_eq)

lemma router_splitFilter_eq: "router_splitFilter f = strings_Split f slash"
  by (simp add: router_splitFilter_def)

lemmas split_eqs = splitFilter_eq router_splitFilter_eq

section \<open>Shared subscriptions\<close>

definition share_name_ok :: "string \<Rightarrow> bool" where
  "share_name_ok sn =
     (sn \<noteq> [] \<and> \<not> list_ex (\<lambda>c. c = CHR ''+'' \<or> c = CHR ''#'' \<or> c = slash \<or> c = nul) sn)"

lemma share_name_ok_no_slash: "share_name_ok sn \<Longrightarrow> slash \<notin> set sn \<and> nul \<notin> set sn"
  by (auto simp: share_name_ok_def list_ex_iff)

lemma takeWhile_first: "c \<notin> set u \<Longrightarrow> takeWhile (\<lambda>x. x \<noteq> c) (u @ c # v) = u"
  by (induction u) auto

lemma IndexByte_append: "c \<notin> set u \<Longrightarrow> IndexByte (u @ c # v) c = int (length u)"
  by (simp add: IndexByte_def takeWhile_first)

lemma IndexByte_split:
  assumes "IndexByte s c = int n"
  shows "s = take n s @ c # drop (n + 1) s" and "c \<notin> set (take n s)" and "n < length s"
proof -
  from assms have c: "c \<in> set s" and n: "n = length (takeWhile (\<lambda>x. x \<noteq> c) s)"
    by (auto simp: IndexByte_def split: if_splits)
  from c obtain u v where s: "s = u @ c # v" "c \<notin> set u"
    by (meson split_list_first)
  with n have "n = length u"
    by (simp add: takeWhile_first)
  with s show "s = take n s @ c # drop (n + 1) s" and "c \<notin> set (take n s)" and "n < length s"
    by auto
qed

lemma ParseSharedTopicFilter_iff:
  "ParseSharedTopicFilter f = Some (sn, tf) \<longleftrightarrow>
     f = share_prefix @ sn @ slash # tf \<and> share_name_ok sn \<and> tf \<noteq> []
     \<and> \<not> HasPrefix tf share_prefix"
proof
  assume "ParseSharedTopicFilter f = Some (sn, tf)"
  then obtain i where p: "HasPrefix f share_prefix" and i: "IndexByte (drop (length share_prefix) f) slash = i" "0 < i"
      and sn: "sn = take (nat i) (drop (length share_prefix) f)"
        "tf = drop (nat i + 1) (drop (length share_prefix) f)"
      and rest: "share_name_ok sn" "tf \<noteq> []" "\<not> HasPrefix tf share_prefix"
    by (auto simp: ParseSharedTopicFilter_def Let_def share_name_ok_def split: if_splits)
  from i obtain n where n: "i = int n"
    by (metis int_nat_eq less_imp_le)
  from IndexByte_split(1) [of "drop (length share_prefix) f" slash n] i n
  have "drop (length share_prefix) f = sn @ slash # tf"
    by (simp add: sn)
  moreover from p have "f = share_prefix @ drop (length share_prefix) f"
    unfolding HasPrefix_def by (metis append_take_drop_id)
  ultimately show "f = share_prefix @ sn @ slash # tf \<and> share_name_ok sn \<and> tf \<noteq> []
     \<and> \<not> HasPrefix tf share_prefix"
    using rest by simp
next
  assume "f = share_prefix @ sn @ slash # tf \<and> share_name_ok sn \<and> tf \<noteq> []
     \<and> \<not> HasPrefix tf share_prefix"
  then have f: "f = share_prefix @ sn @ slash # tf" and sn: "share_name_ok sn" and tf: "tf \<noteq> []"
      "\<not> HasPrefix tf share_prefix"
    by auto
  have i: "IndexByte (sn @ slash # tf) slash = int (length sn)"
    using share_name_ok_no_slash [OF sn] by (intro IndexByte_append) simp
  have "0 < length sn" "0 < length tf"
    using sn tf by (auto simp: share_name_ok_def)
  then show "ParseSharedTopicFilter f = Some (sn, tf)"
    using sn tf i unfolding f ParseSharedTopicFilter_def
    by (simp add: Let_def HasPrefix_def share_name_ok_def)
qed

section \<open>The specification of matching\<close>

text \<open>
  A level of a filter covers a level of a topic when it is the single-level wildcard or
  the same string. A filter that ends in the multi-level wildcard covers every topic whose
  first levels its other levels cover, the parent level included; any other filter covers
  the topics of its own length, level by level.
\<close>

definition level_match :: "string \<Rightarrow> string \<Rightarrow> bool" where
  "level_match p t = (p = ''+'' \<or> p = t)"

definition mqtt_match :: "string list \<Rightarrow> string list \<Rightarrow> bool" where
  "mqtt_match f t =
     (if f \<noteq> [] \<and> last f = ''#''
      then length f - 1 \<le> length t \<and> list_all2 level_match (butlast f) (take (length f - 1) t)
      else list_all2 level_match f t)"

fun match_levels :: "string list \<Rightarrow> string list \<Rightarrow> bool" where
  "match_levels t [] = (t = [])"
| "match_levels t (seg # f) =
     (seg = ''#'' \<or> (case t of [] \<Rightarrow> False | x # t' \<Rightarrow> level_match seg x \<and> match_levels t' f))"

lemma matchSegs_eq:
  "ti \<le> length t \<Longrightarrow> matchSegs t f ti fi = match_levels (drop ti t) (drop fi f)"
proof (induction t f ti fi rule: matchSegs.induct)
  case (1 t f ti fi)
  show ?case
  proof (cases "fi < length f \<and> ti < length t")
    case True
    then have "drop fi f = f ! fi # drop (Suc fi) f" "drop ti t = t ! ti # drop (Suc ti) t"
      by (auto simp: Cons_nth_drop_Suc)
    then show ?thesis
      using True "1.IH" by (subst matchSegs.simps) (auto simp: Let_def level_match_def)
  next
    case False
    then show ?thesis
      using "1.prems" by (subst matchSegs.simps) (auto simp: Let_def Cons_nth_drop_Suc [symmetric])
  qed
qed

lemma auth_matchSegs_eq: "auth_matchSegs f t fi ti = matchSegs t f ti fi"
proof (induction f t fi ti rule: auth_matchSegs.induct)
  case (1 f t fi ti)
  then show ?case
    by (subst auth_matchSegs.simps, subst matchSegs.simps) (auto simp: Let_def)
qed

lemma TopicMatchesFilter_levels:
  "TopicMatchesFilter topic filter' =
     match_levels (strings_Split topic slash) (strings_Split filter' slash)"
  by (simp add: TopicMatchesFilter_def split_eqs matchSegs_eq)

lemma match_levels_mqtt:
  "validTopicFilterSegments f \<Longrightarrow> match_levels t f = mqtt_match f t"
proof (induction f arbitrary: t)
  case Nil
  then show ?case
    by (simp add: mqtt_match_def)
next
  case (Cons seg f)
  show ?case
  proof (cases "seg = ''#''")
    case True
    with Cons.prems have "f = []"
      by (simp split: if_splits)
    with True show ?thesis
      by (simp add: mqtt_match_def)
  next
    case False
    with Cons.prems have "validTopicFilterSegments f"
      by (simp split: if_splits)
    with Cons.IH False show ?thesis
      by (cases t; cases f) (auto simp: mqtt_match_def)
  qed
qed

text \<open>Topic names carry no wildcard, so no level of a topic is a wildcard.\<close>

lemma ValidTopicName_levels:
  assumes "ValidTopicName t" "s \<in> set (strings_Split t slash)"
  shows "s \<noteq> ''#'' \<and> s \<noteq> ''+''"
proof -
  have sub: "set s \<subseteq> set u" if "s \<in> set (strings_Split u slash)" for u s
    using that by (induction u arbitrary: s) (fastforce split: if_splits list.splits)+
  from assms(1) have "CHR ''+'' \<notin> set t \<and> CHR ''#'' \<notin> set t"
    by (auto simp: ValidTopicName_def list_all_iff split: if_splits)
  with sub [OF assms(2)] show ?thesis
    by auto
qed

section \<open>Properties\<close>



text \<open>
  the hand-written splitter of the protocol package and the one of the router cut a string exactly as
  \<open>strings.Split\<close> does, and joining the levels gives the string back.
\<close>

theorem splitters_agree:
  "splitFilter f = strings_Split f slash \<and> router_splitFilter f = strings_Split f slash
   \<and> strings_Join (splitFilter f) slash = f \<and> splitFilter f \<noteq> []"
  by (simp add: split_eqs)

text \<open>
  a filter is a shared subscription exactly if it is \<open>$share/\<close>, a non-empty name without wildcards,
  slashes and NUL, a slash, and a non-empty filter that is not a shared one again; the two parts are
  returned.
\<close>

theorem shared_filter_parsed:
  "ParseSharedTopicFilter f = Some (sn, tf) \<longleftrightarrow>
     f = ''$share/'' @ sn @ slash # tf \<and> sn \<noteq> []
     \<and> set sn \<inter> {CHR ''+'', CHR ''#'', slash, nul} = {} \<and> tf \<noteq> [] \<and> \<not> HasPrefix tf ''$share/''"
  by (auto simp: ParseSharedTopicFilter_iff share_name_ok_def list_ex_iff share_prefix_def)

end
