(* ===== verification/Packets.thy ===== *)
theory Packets
  imports Wire Topics
begin

text \<open>
  The MQTT control packets of \<open>internal/protocol/packet.go\<close>: reason codes, decoders and
  encoders, each with the checks and early returns of the source. An encoder returns
  \<open>Inl Panic\<close> when the variable-length integer of a length does not fit its four-byte
  buffer. The lemmas show that decoders never panic, that what the broker encodes decodes
  to what was encoded, and which well-formedness the decoders guarantee.
\<close>

section \<open>Packet types and reason codes\<close>

abbreviation (input) "RESERVED \<equiv> (0 :: PacketType)"
abbreviation (input) "CONNECT \<equiv> (1 :: PacketType)"
abbreviation (input) "CONNACK \<equiv> (2 :: PacketType)"
abbreviation (input) "PUBLISH \<equiv> (3 :: PacketType)"
abbreviation (input) "PUBACK \<equiv> (4 :: PacketType)"
abbreviation (input) "PUBREC \<equiv> (5 :: PacketType)"
abbreviation (input) "PUBREL \<equiv> (6 :: PacketType)"
abbreviation (input) "PUBCOMP \<equiv> (7 :: PacketType)"
abbreviation (input) "SUBSCRIBE \<equiv> (8 :: PacketType)"
abbreviation (input) "SUBACK \<equiv> (9 :: PacketType)"
abbreviation (input) "UNSUBSCRIBE \<equiv> (10 :: PacketType)"
abbreviation (input) "UNSUBACK \<equiv> (11 :: PacketType)"
abbreviation (input) "PINGREQ \<equiv> (12 :: PacketType)"
abbreviation (input) "PINGRESP \<equiv> (13 :: PacketType)"
abbreviation (input) "DISCONNECT \<equiv> (14 :: PacketType)"
abbreviation (input) "AUTH \<equiv> (15 :: PacketType)"

abbreviation (input) "QoS0 \<equiv> (0 :: byte)"
abbreviation (input) "QoS1 \<equiv> (1 :: byte)"
abbreviation (input) "QoS2 \<equiv> (2 :: byte)"

abbreviation (input) "V311 \<equiv> (4 :: byte)"
abbreviation (input) "V50 \<equiv> (5 :: byte)"

abbreviation (input) "ConnAccepted \<equiv> (0x00 :: byte)"
abbreviation (input) "ConnRefusedProtocol \<equiv> (0x01 :: byte)"
abbreviation (input) "ConnRefusedIDRejected \<equiv> (0x02 :: byte)"
abbreviation (input) "ConnRefusedServerUnavail \<equiv> (0x03 :: byte)"
abbreviation (input) "ConnRefusedBadCredentials \<equiv> (0x04 :: byte)"
abbreviation (input) "ConnRefusedNotAuthorized \<equiv> (0x05 :: byte)"
abbreviation (input) "ReasonSuccess \<equiv> (0x00 :: byte)"
abbreviation (input) "ReasonUnspecifiedError \<equiv> (0x80 :: byte)"
abbreviation (input) "ReasonNotAuthorized \<equiv> (0x87 :: byte)"
abbreviation (input) "ReasonQuotaExceeded \<equiv> (0x97 :: byte)"
abbreviation (input) "SubackGrantedQoS0 \<equiv> (0x00 :: byte)"
abbreviation (input) "SubackGrantedQoS1 \<equiv> (0x01 :: byte)"
abbreviation (input) "SubackGrantedQoS2 \<equiv> (0x02 :: byte)"
abbreviation (input) "SubackImplementationSpecific \<equiv> (0x83 :: byte)"
abbreviation (input) "SubackTopicFilterInvalid \<equiv> (0x8F :: byte)"
abbreviation (input) "ConnackReasonV5MalformedPacket \<equiv> (0x81 :: byte)"
abbreviation (input) "ConnackReasonV5ProtocolError \<equiv> (0x82 :: byte)"
abbreviation (input) "ConnackReasonV5UnsupportedProtocolVersion \<equiv> (0x84 :: byte)"
abbreviation (input) "ConnackReasonV5ClientIDNotValid \<equiv> (0x85 :: byte)"
abbreviation (input) "ConnackReasonV5BadUsernameOrPassword \<equiv> (0x86 :: byte)"
abbreviation (input) "ConnackReasonV5ServerUnavailable \<equiv> (0x88 :: byte)"

datatype SubackDenyReason =
  SubackOK | SubackDeniedInvalidTopicFilter | SubackDeniedNotAuthorized | SubackDeniedPlugin

abbreviation (input) "Subv311SubackFailure \<equiv> (0x80 :: byte)"

definition SubackReasonByte :: "byte \<Rightarrow> byte \<Rightarrow> SubackDenyReason \<Rightarrow> byte" where
  "SubackReasonByte version grantedQoS deny =
     (if deny \<noteq> SubackOK then
        if version \<noteq> V50 then Subv311SubackFailure
        else (case deny of
            SubackDeniedInvalidTopicFilter \<Rightarrow> SubackTopicFilterInvalid
          | SubackDeniedNotAuthorized \<Rightarrow> ReasonNotAuthorized
          | SubackDeniedPlugin \<Rightarrow> SubackImplementationSpecific
          | _ \<Rightarrow> ReasonUnspecifiedError)
      else if grantedQoS AND 0x03 = 0 then SubackGrantedQoS0
      else if grantedQoS AND 0x03 = 1 then SubackGrantedQoS1
      else SubackGrantedQoS2)"

datatype UnsubackDenyReason =
  UnsubOK | UnsubDeniedInvalidTopicFilter | UnsubDeniedNotAuthorized

abbreviation (input) "UnsubackSuccessReason \<equiv> (0x00 :: byte)"

definition UnsubackReasonByte :: "UnsubackDenyReason \<Rightarrow> byte" where
  "UnsubackReasonByte deny =
     (case deny of
        UnsubDeniedInvalidTopicFilter \<Rightarrow> SubackTopicFilterInvalid
      | UnsubDeniedNotAuthorized \<Rightarrow> ReasonNotAuthorized
      | _ \<Rightarrow> UnsubackSuccessReason)"

section \<open>CONNECT\<close>

record ConnectPacket =
  cp_Version :: byte
  cp_CleanSession :: bool
  cp_KeepAlive :: uint16
  cp_SessionExpiryInterval :: uint32
  cp_ReceiveMaximum :: uint16
  cp_MaximumPacketSize :: uint32
  cp_TopicAliasMaximum :: uint16
  cp_WillFlag :: bool
  cp_WillQoS :: byte
  cp_WillRetain :: bool
  cp_HasUsername :: bool
  cp_HasPassword :: bool
  cp_ClientID :: string
  cp_WillTopic :: string
  cp_WillPayload :: bytes
  cp_Username :: string
  cp_Password :: bytes

definition empty_ConnectPacket :: ConnectPacket where
  "empty_ConnectPacket =
     \<lparr>cp_Version = 0, cp_CleanSession = False, cp_KeepAlive = 0, cp_SessionExpiryInterval = 0,
      cp_ReceiveMaximum = 0, cp_MaximumPacketSize = 0, cp_TopicAliasMaximum = 0,
      cp_WillFlag = False, cp_WillQoS = 0, cp_WillRetain = False, cp_HasUsername = False,
      cp_HasPassword = False, cp_ClientID = [], cp_WillTopic = [], cp_WillPayload = [],
      cp_Username = [], cp_Password = []\<rparr>"

text \<open>\<open>if v, ok := props[id]; ok && len(v) == 4\<close>, and the same for two bytes.\<close>

definition prop32 :: "props \<Rightarrow> byte \<Rightarrow> uint32 option" where
  "prop32 props ident =
     (case map_of props ident of
        Some v \<Rightarrow> if length v = 4 then Some (BigEndian_Uint32 v) else None
      | None \<Rightarrow> None)"

definition prop16 :: "props \<Rightarrow> byte \<Rightarrow> uint16 option" where
  "prop16 props ident =
     (case map_of props ident of
        Some v \<Rightarrow> if length v = 2 then Some (BigEndian_Uint16 v) else None
      | None \<Rightarrow> None)"

text \<open>The protocol name, level and flags; then the keep-alive.\<close>

definition decodeConnectHeader :: "sliceReader \<Rightarrow> goerr + ConnectPacket \<times> sliceReader" where
  "decodeConnectHeader r =
     bindE (wrapE ''proto name'' (readString r)) (\<lambda>(protoName, r).
       if protoName \<noteq> ''MQTT'' \<and> protoName \<noteq> ''MQIsdp'' then Inl ErrUnsupportedVersion
       else bindE (io_ReadFull 1 r) (\<lambda>(ver, r).
         if ver ! 0 \<noteq> V311 \<and> ver ! 0 \<noteq> V50 then Inl ErrUnsupportedVersion
         else bindE (io_ReadFull 1 r) (\<lambda>(flags, r).
           let f = flags ! 0 in
           if f AND 0x01 \<noteq> 0 then Inl ErrProtocolViolation
           else
             let pkt = empty_ConnectPacket
                   \<lparr>cp_Version := ver ! 0,
                    cp_CleanSession := f AND 0x02 \<noteq> 0,
                    cp_WillFlag := f AND 0x04 \<noteq> 0,
                    cp_WillQoS := drop_bit 3 f AND 0x03,
                    cp_WillRetain := f AND 0x20 \<noteq> 0,
                    cp_HasPassword := f AND 0x40 \<noteq> 0,
                    cp_HasUsername := f AND 0x80 \<noteq> 0\<rparr>
             in if \<not> cp_WillFlag pkt \<and> (cp_WillQoS pkt \<noteq> 0 \<or> cp_WillRetain pkt)
                then Inl ErrProtocolViolation
                else if cp_WillQoS pkt > QoS2 then Inl ErrInvalidQoS
                else bindE (readUint16 r) (\<lambda>(ka, r). Inr (pkt\<lparr>cp_KeepAlive := ka\<rparr>, r)))))"

definition decodeConnectProps ::
    "ConnectPacket \<Rightarrow> sliceReader \<Rightarrow> goerr + ConnectPacket \<times> sliceReader" where
  "decodeConnectProps pkt r =
     (if cp_Version pkt = V50 then
        bindE (readConnectProps r) (\<lambda>(props, r).
          let pkt = (case prop32 props 0x11 of
                       Some v \<Rightarrow> pkt\<lparr>cp_SessionExpiryInterval := v\<rparr> | None \<Rightarrow> pkt)
          in bindE (case prop16 props 0x21 of
                      Some v \<Rightarrow> if v = 0 then Inl ErrProtocolViolation
                                else Inr (pkt\<lparr>cp_ReceiveMaximum := v\<rparr>)
                    | None \<Rightarrow> Inr pkt) (\<lambda>pkt.
             bindE (case prop32 props 0x27 of
                      Some v \<Rightarrow> if v = 0 then Inl ErrProtocolViolation
                                else Inr (pkt\<lparr>cp_MaximumPacketSize := v\<rparr>)
                    | None \<Rightarrow> Inr pkt) (\<lambda>pkt.
             let pkt = (case prop16 props 0x22 of
                          Some v \<Rightarrow> pkt\<lparr>cp_TopicAliasMaximum := v\<rparr> | None \<Rightarrow> pkt)
             in Inr (pkt, r))))
      else Inr (pkt, r))"

definition decodeConnectWill ::
    "ConnectPacket \<Rightarrow> sliceReader \<Rightarrow> goerr + ConnectPacket \<times> sliceReader" where
  "decodeConnectWill pkt r =
     (if cp_WillFlag pkt then
        bindE (if cp_Version pkt = V50 then skipProps r else Inr r) (\<lambda>r.
          bindE (wrapE ''will topic'' (readString r)) (\<lambda>(wt, r).
            bindE (readUint16 r) (\<lambda>(wLen, r).
              if wLen > 0 then
                bindE (io_ReadFull (unat wLen) r) (\<lambda>(wp, r).
                  Inr (pkt\<lparr>cp_WillTopic := wt, cp_WillPayload := wp\<rparr>, r))
              else Inr (pkt\<lparr>cp_WillTopic := wt\<rparr>, r))))
      else Inr (pkt, r))"

definition decodeConnectCredentials ::
    "ConnectPacket \<Rightarrow> sliceReader \<Rightarrow> goerr + ConnectPacket \<times> sliceReader" where
  "decodeConnectCredentials pkt r =
     bindE (if cp_HasUsername pkt then
              bindE (wrapE ''username'' (readString r)) (\<lambda>(u, r). Inr (pkt\<lparr>cp_Username := u\<rparr>, r))
            else Inr (pkt, r)) (\<lambda>(pkt, r).
       if cp_HasPassword pkt then
         bindE (readUint16 r) (\<lambda>(pLen, r).
           if pLen > 0 then
             bindE (io_ReadFull (unat pLen) r) (\<lambda>(pw, r). Inr (pkt\<lparr>cp_Password := pw\<rparr>, r))
           else Inr (pkt, r))
       else Inr (pkt, r))"

definition DecodeConnect :: "bytes \<Rightarrow> goerr + ConnectPacket" where
  "DecodeConnect body =
     bindE (decodeConnectHeader (newSliceReader body)) (\<lambda>(pkt, r).
       bindE (decodeConnectProps pkt r) (\<lambda>(pkt, r).
         bindE (wrapE ''client id'' (readString r)) (\<lambda>(cid, r).
           let pkt = pkt\<lparr>cp_ClientID := cid\<rparr> in
           bindE (decodeConnectWill pkt r) (\<lambda>(pkt, r).
             bindE (decodeConnectCredentials pkt r) (\<lambda>(pkt, r). Inr pkt)))))"

definition PeekConnectProtocolLevel :: "bytes \<Rightarrow> byte option" where
  "PeekConnectProtocolLevel body =
     (case readString (newSliceReader body) of
        Inl _ \<Rightarrow> None
      | Inr (protoName, r) \<Rightarrow>
          if protoName \<noteq> ''MQTT'' \<and> protoName \<noteq> ''MQIsdp'' then None
          else (case io_ReadFull 1 r of Inl _ \<Rightarrow> None | Inr (ver, r) \<Rightarrow> Some (ver ! 0)))"

definition ConnackReasonV5FromV311 :: "byte \<Rightarrow> byte" where
  "ConnackReasonV5FromV311 code =
     (if code = ConnAccepted then ReasonSuccess
      else if code = ConnRefusedProtocol then ConnackReasonV5UnsupportedProtocolVersion
      else if code = ConnRefusedIDRejected then ConnackReasonV5ClientIDNotValid
      else if code = ConnRefusedServerUnavail then ConnackReasonV5ServerUnavailable
      else if code = ConnRefusedBadCredentials then ConnackReasonV5BadUsernameOrPassword
      else if code = ConnRefusedNotAuthorized then ReasonNotAuthorized
      else ConnackReasonV5ProtocolError)"

definition ConnackReasonV5ForDecodeError :: "goerr \<Rightarrow> byte" where
  "ConnackReasonV5ForDecodeError err =
     (if errors_Is err ErrUnsupportedVersion then ConnackReasonV5UnsupportedProtocolVersion
      else if errors_Is err ErrProtocolViolation then ConnackReasonV5ProtocolError
      else ConnackReasonV5MalformedPacket)"

section \<open>CONNACK\<close>

definition EncodeConnack :: "bool \<Rightarrow> byte \<Rightarrow> bytes" where
  "EncodeConnack sessionPresent code =
     [push_bit 4 CONNACK, 2, (if sessionPresent then 0x01 else 0), code]"

record ConnackMQTT5Options =
  co_TopicAliasMax :: uint16
  co_ReceiveMaximum :: uint16
  co_MaximumQoS :: byte
  co_MaxPacketSize :: uint32
  co_RetainAvailable :: bool
  co_WildcardSubscriptionAvailable :: bool
  co_SubscriptionIDAvailable :: bool
  co_SharedSubscriptionAvailable :: bool

definition flag_byte :: "bool \<Rightarrow> byte" where
  "flag_byte b = (if b then 1 else 0)"

definition connackProps :: "ConnackMQTT5Options \<Rightarrow> bytes" where
  "connackProps opts =
     (if co_ReceiveMaximum opts > 0 then 0x21 # put_uint16 (co_ReceiveMaximum opts) else [])
     @ (if co_MaximumQoS opts < 2 then [0x24, co_MaximumQoS opts AND 0x03] else [])
     @ (if co_MaxPacketSize opts > 0 then 0x27 # put_uint32 (co_MaxPacketSize opts) else [])
     @ (if co_TopicAliasMax opts > 0 then 0x22 # put_uint16 (co_TopicAliasMax opts) else [])
     @ [0x25, flag_byte (co_RetainAvailable opts)]
     @ [0x28, flag_byte (co_WildcardSubscriptionAvailable opts)]
     @ [0x29, flag_byte (co_SubscriptionIDAvailable opts)]
     @ [0x2A, flag_byte (co_SharedSubscriptionAvailable opts)]"

definition EncodeConnackV5 :: "bool \<Rightarrow> byte \<Rightarrow> ConnackMQTT5Options \<Rightarrow> goerr + bytes" where
  "EncodeConnackV5 sessionPresent reasonCode opts =
     (let flags = (if reasonCode = ConnAccepted \<and> sessionPresent then 0x01 else 0 :: byte);
          props = (if reasonCode = ConnAccepted then connackProps opts else [])
      in bindE (varint4 (length props)) (\<lambda>propLenEnc.
           let rem = 2 + length propLenEnc + length props in
           bindE (varint4 rem) (\<lambda>remEnc.
             Inr ([push_bit 4 CONNACK] @ remEnc @ [flags, reasonCode] @ propLenEnc @ props))))"

section \<open>PUBLISH\<close>

record PublishPacket =
  pp_Dup :: bool
  pp_QoS :: byte
  pp_Retain :: bool
  pp_Topic :: string
  pp_PacketID :: uint16
  pp_Payload :: bytes
  pp_MessageExpiryInterval :: uint32
  pp_TopicAlias :: uint16
  pp_ReceivedAt :: time

definition DecodePublish :: "time \<Rightarrow> byte \<Rightarrow> FixedHeader \<Rightarrow> bytes \<Rightarrow> goerr + PublishPacket" where
  "DecodePublish now version fh body =
     (let r = newSliceReader body;
          dup = (fh_Flags fh AND 0x08 \<noteq> 0);
          qos = drop_bit 1 (fh_Flags fh) AND 0x03;
          retain = (fh_Flags fh AND 0x01 \<noteq> 0)
      in if qos > QoS2 then Inl ErrInvalidQoS
         else if qos = QoS0 \<and> dup then Inl ErrProtocolViolation
         else bindE (wrapE ''topic'' (readString r)) (\<lambda>(topic, r).
           if (version \<noteq> V50 \<or> topic \<noteq> []) \<and> \<not> ValidTopicName topic then Inl ErrInvalidTopic
           else bindE (if qos > QoS0 then
                         bindE (readUint16 r) (\<lambda>(pid, r).
                           if pid = 0 then Inl ErrZeroPacketID else Inr (pid, r))
                       else Inr (0, r)) (\<lambda>(pid, r).
             bindE (if version = V50 then
                      bindE (readProps r) (\<lambda>(props, r).
                        let mei = (case prop32 props 0x02 of Some v \<Rightarrow> v | None \<Rightarrow> 0);
                            alias = (case prop16 props 0x23 of Some v \<Rightarrow> v | None \<Rightarrow> 0)
                        in if topic = [] \<and> alias = 0 then Inl ErrProtocolViolation
                           else Inr (mei, alias, r))
                    else Inr (0, 0, r)) (\<lambda>(mei, alias, r).
               bindE (if Remaining r > 0 then sliceReader_ReadFull (nat (Remaining r)) r
                      else Inr ([], r)) (\<lambda>(payload, r).
                 Inr \<lparr>pp_Dup = dup, pp_QoS = qos, pp_Retain = retain, pp_Topic = topic,
                      pp_PacketID = pid, pp_Payload = payload,
                      pp_MessageExpiryInterval = mei, pp_TopicAlias = alias,
                      pp_ReceivedAt = now\<rparr>)))))"

definition publishFlags :: "byte \<Rightarrow> bool \<Rightarrow> bool \<Rightarrow> byte" where
  "publishFlags qos retain dup =
     (let flags = push_bit 4 PUBLISH;
          flags = (if dup then flags OR 0x08 else flags);
          flags = flags OR push_bit 1 (qos AND 0x03)
      in if retain then flags OR 0x01 else flags)"

definition EncodePublish ::
    "string \<Rightarrow> bytes \<Rightarrow> byte \<Rightarrow> bool \<Rightarrow> uint16 \<Rightarrow> bool \<Rightarrow> goerr + bytes" where
  "EncodePublish topic payload qos retain packetID dup =
     (let topicLen = 2 + length topic;
          pidLen = (if qos > 0 then 2 else 0);
          payloadLen = length payload;
          remaining = topicLen + pidLen + payloadLen
      in bindE (varint4 remaining) (\<lambda>varBuf.
           let out = [publishFlags qos retain dup];
               out = out @ varBuf;
               out = appendString out topic;
               out = (if qos > 0 then appendUint16 out packetID else out)
           in Inr (out @ payload)))"

definition EncodePublishV5 ::
    "string \<Rightarrow> bytes \<Rightarrow> byte \<Rightarrow> bool \<Rightarrow> uint16 \<Rightarrow> bool \<Rightarrow> bytes \<Rightarrow> goerr + bytes" where
  "EncodePublishV5 topic payload qos retain packetID dup props =
     (let topicLen = 2 + length topic;
          pidLen = (if qos > 0 then 2 else 0)
      in bindE (varint4 (length props)) (\<lambda>propLenEnc.
           let propSection = length propLenEnc + length props;
               payloadLen = length payload;
               remaining = topicLen + pidLen + propSection + payloadLen
           in bindE (varint4 remaining) (\<lambda>varBuf.
                let out = [publishFlags qos retain dup];
                    out = out @ varBuf;
                    out = appendString out topic;
                    out = (if qos > 0 then appendUint16 out packetID else out);
                    out = out @ propLenEnc;
                    out = out @ props
                in Inr (out @ payload))))"

section \<open>PUBACK, PUBREC, PUBREL, PUBCOMP\<close>

definition EncodeAck :: "PacketType \<Rightarrow> uint16 \<Rightarrow> bytes" where
  "EncodeAck t packetID =
     (let flags = (if t = PUBREL then 0x02 else 0)
      in [push_bit 4 t OR flags, 2, ucast (drop_bit 8 packetID), ucast packetID])"

definition EncodeAckV5 :: "PacketType \<Rightarrow> uint16 \<Rightarrow> byte \<Rightarrow> bytes \<Rightarrow> goerr + bytes" where
  "EncodeAckV5 t packetID reasonCode props =
     (let flags = (if t = PUBREL then 0x02 else 0)
      in bindE (varint4 (length props)) (\<lambda>propLenEnc.
           let remaining = 2 + 1 + length propLenEnc + length props in
           bindE (varint4 remaining) (\<lambda>remEnc.
             let out = [push_bit 4 t OR flags];
                 out = out @ remEnc;
                 out = appendUint16 out packetID;
                 out = out @ [reasonCode]
             in Inr (out @ propLenEnc @ props))))"

definition DecodePacketID :: "bytes \<Rightarrow> goerr + uint16" where
  "DecodePacketID body =
     (if length body < 2 then Inl ErrMalformed else Inr (BigEndian_Uint16 (take 2 body)))"

section \<open>SUBSCRIBE and UNSUBSCRIBE\<close>

record Subscription =
  sb_Filter :: string
  sb_QoS :: byte

function DecodeSubscribe_loop :: "Subscription list \<Rightarrow> sliceReader \<Rightarrow> goerr + Subscription list" where
  "DecodeSubscribe_loop subs r =
     (if Remaining r > 0 then
        bindE (readString r) (\<lambda>(filter', r).
          bindE (io_ReadFull 1 r) (\<lambda>(qosBuf, r).
            DecodeSubscribe_loop
              (subs @ [\<lparr>sb_Filter = filter', sb_QoS = (qosBuf ! 0) AND 0x03\<rparr>]) r))
      else Inr subs)"
  by pat_completeness auto
termination
  by (relation "measure (\<lambda>(subs, r). length (rest r))")
    (auto simp: io_ReadFull_Inr dest!: readString_Inr)

declare DecodeSubscribe_loop.simps [simp del]

definition DecodeSubscribe :: "byte \<Rightarrow> bytes \<Rightarrow> goerr + uint16 \<times> Subscription list" where
  "DecodeSubscribe version body =
     bindE (readUint16 (newSliceReader body)) (\<lambda>(packetID, r).
       bindE (if version = V50 then skipProps r else Inr r) (\<lambda>r.
         bindE (DecodeSubscribe_loop [] r) (\<lambda>subs.
           if length subs = 0 then Inl ErrProtocolViolation else Inr (packetID, subs))))"

definition EncodeSuback :: "uint16 \<Rightarrow> bytes \<Rightarrow> goerr + bytes" where
  "EncodeSuback packetID codes =
     (let remaining = 2 + length codes in
      bindE (varint4 remaining) (\<lambda>varBuf.
        let out = [push_bit 4 SUBACK];
            out = out @ varBuf;
            out = appendUint16 out packetID
        in Inr (out @ codes)))"

definition EncodeSubackV5 :: "uint16 \<Rightarrow> bytes \<Rightarrow> bytes \<Rightarrow> goerr + bytes" where
  "EncodeSubackV5 packetID props reasonCodes =
     bindE (varint4 (length props)) (\<lambda>propLenEnc.
       let remaining = 2 + length propLenEnc + length props + length reasonCodes in
       bindE (varint4 remaining) (\<lambda>varBuf.
         let out = [push_bit 4 SUBACK];
             out = out @ varBuf;
             out = appendUint16 out packetID;
             out = out @ propLenEnc;
             out = out @ props
         in Inr (out @ reasonCodes)))"

function DecodeUnsubscribe_loop :: "string list \<Rightarrow> sliceReader \<Rightarrow> goerr + string list" where
  "DecodeUnsubscribe_loop filters r =
     (if Remaining r > 0 then
        bindE (readString r) (\<lambda>(f, r). DecodeUnsubscribe_loop (filters @ [f]) r)
      else Inr filters)"
  by pat_completeness auto
termination
  by (relation "measure (\<lambda>(filters, r). length (rest r))") (auto dest!: readString_Inr)

declare DecodeUnsubscribe_loop.simps [simp del]

definition DecodeUnsubscribe :: "byte \<Rightarrow> bytes \<Rightarrow> goerr + uint16 \<times> string list" where
  "DecodeUnsubscribe version body =
     bindE (readUint16 (newSliceReader body)) (\<lambda>(packetID, r).
       bindE (if version = V50 then skipProps r else Inr r) (\<lambda>r.
         bindE (DecodeUnsubscribe_loop [] r) (\<lambda>filters. Inr (packetID, filters))))"

definition EncodeUnsuback :: "uint16 \<Rightarrow> bytes" where
  "EncodeUnsuback packetID = [push_bit 4 UNSUBACK, 2, ucast (drop_bit 8 packetID), ucast packetID]"

definition EncodeUnsubackV5 :: "uint16 \<Rightarrow> bytes \<Rightarrow> bytes \<Rightarrow> goerr + bytes" where
  "EncodeUnsubackV5 packetID props reasonCodes =
     bindE (varint4 (length props)) (\<lambda>propLenEnc.
       let remaining = 2 + length propLenEnc + length props + length reasonCodes in
       bindE (varint4 remaining) (\<lambda>remEnc.
         let out = [push_bit 4 UNSUBACK];
             out = out @ remEnc;
             out = appendUint16 out packetID;
             out = out @ propLenEnc;
             out = out @ props
         in Inr (out @ reasonCodes)))"

section \<open>PINGRESP and DISCONNECT\<close>

definition Pingresp :: bytes where
  "Pingresp = [push_bit 4 PINGRESP, 0]"

definition EncodeDisconnectV311 :: bytes where
  "EncodeDisconnectV311 = [push_bit 4 DISCONNECT, 0]"

definition EncodeDisconnectV5 :: "byte \<Rightarrow> bytes \<Rightarrow> goerr + bytes" where
  "EncodeDisconnectV5 reasonCode props =
     bindE (varint4 (length props)) (\<lambda>propLenEnc.
       let rem = 1 + length propLenEnc + length props in
       bindE (varint4 rem) (\<lambda>remEnc.
         let out = [push_bit 4 DISCONNECT];
             out = out @ remEnc;
             out = out @ [reasonCode]
         in Inr (out @ propLenEnc @ props)))"

record DisconnectPacket =
  dp_ReasonCode :: byte
  dp_SessionExpiryInterval :: uint32
  dp_HasSessionExpiryProp :: bool

definition DecodeDisconnect :: "byte \<Rightarrow> bytes \<Rightarrow> goerr + DisconnectPacket" where
  "DecodeDisconnect version body =
     (let plain = \<lparr>dp_ReasonCode = ReasonSuccess, dp_SessionExpiryInterval = 0,
                   dp_HasSessionExpiryProp = False\<rparr> in
      if version \<noteq> V50 then
        (if length body \<noteq> 0 then Inl ErrProtocolViolation else Inr plain)
      else if length body = 0 then Inr plain
      else bindE (sliceReader_Read 1 (newSliceReader body)) (\<lambda>(rc, r).
        bindE (readProps r) (\<lambda>(props, r).
          if Remaining r \<noteq> 0 then Inl ErrMalformed
          else (case prop32 props 0x11 of
                  Some v \<Rightarrow> Inr (plain\<lparr>dp_ReasonCode := rc ! 0, dp_SessionExpiryInterval := v,
                                     dp_HasSessionExpiryProp := True\<rparr>)
                | None \<Rightarrow> Inr (plain\<lparr>dp_ReasonCode := rc ! 0\<rparr>)))))"

definition ApproxClientOutboundPublishBytes :: "byte \<Rightarrow> string \<Rightarrow> nat \<Rightarrow> byte \<Rightarrow> nat" where
  "ApproxClientOutboundPublishBytes version topic payloadLen qos =
     (let topicLen = 2 + length topic;
          pidLen = (if qos > 0 then 2 else 0);
          propSection = (if version = V50 then 1 else 0);
          rem = topicLen + pidLen + propSection + payloadLen
      in 1 + 4 + rem)"

section \<open>Decoders never panic\<close>

lemma decodeConnectHeader_no_panic [simp, panic_free]: "no_panic (decodeConnectHeader r)"
  unfolding decodeConnectHeader_def by (auto intro!: no_panic_bindE simp: Let_def)

lemma decodeConnectProps_no_panic [simp, panic_free]: "no_panic (decodeConnectProps pkt r)"
  unfolding decodeConnectProps_def
  by (auto intro!: no_panic_bindE simp: Let_def split: option.splits)

lemma decodeConnectWill_no_panic [simp, panic_free]: "no_panic (decodeConnectWill pkt r)"
  unfolding decodeConnectWill_def by (auto intro!: no_panic_bindE)

lemma decodeConnectCredentials_no_panic [simp, panic_free]:
  "no_panic (decodeConnectCredentials pkt r)"
  unfolding decodeConnectCredentials_def by (auto intro!: no_panic_bindE)

lemma DecodeConnect_no_panic [simp, panic_free]: "no_panic (DecodeConnect body)"
  unfolding DecodeConnect_def by (auto intro!: no_panic_bindE simp: Let_def)

lemma sliceReader_ReadFull_Remaining:
  "Remaining r > 0 \<Longrightarrow>
     sliceReader_ReadFull (nat (Remaining r)) r = Inr (rest r, advance (length (rest r)) r)"
  by (auto simp: sliceReader_ReadFull_def rest_def advance_def Remaining_def Let_def)

lemma DecodePublish_no_panic [simp, panic_free]: "no_panic (DecodePublish now version fh body)"
  unfolding DecodePublish_def
  by (auto intro!: no_panic_bindE simp: Let_def sliceReader_ReadFull_Remaining)

lemma DecodeSubscribe_loop_no_panic [simp, panic_free]: "no_panic (DecodeSubscribe_loop subs r)"
proof (induction subs r rule: DecodeSubscribe_loop.induct)
  case (1 subs r)
  then show ?case
    by (subst DecodeSubscribe_loop.simps) (auto intro!: no_panic_bindE)
qed

lemma DecodeUnsubscribe_loop_no_panic [simp, panic_free]: "no_panic (DecodeUnsubscribe_loop fs r)"
proof (induction fs r rule: DecodeUnsubscribe_loop.induct)
  case (1 fs r)
  then show ?case
    by (subst DecodeUnsubscribe_loop.simps) (auto intro!: no_panic_bindE)
qed

lemma DecodeSubscribe_no_panic [simp, panic_free]: "no_panic (DecodeSubscribe version body)"
  unfolding DecodeSubscribe_def by (auto intro!: no_panic_bindE)

lemma DecodeUnsubscribe_no_panic [simp, panic_free]: "no_panic (DecodeUnsubscribe version body)"
  unfolding DecodeUnsubscribe_def by (auto intro!: no_panic_bindE)

lemma DecodeDisconnect_no_panic [simp, panic_free]: "no_panic (DecodeDisconnect version body)"
  unfolding DecodeDisconnect_def
  by (auto intro!: no_panic_bindE simp: Let_def split: option.splits)

lemma DecodePacketID_no_panic [simp, panic_free]: "no_panic (DecodePacketID body)"
  by (simp add: DecodePacketID_def)

section \<open>Frames\<close>

text \<open>
  The part of the connection's read loop (\<open>internal/broker/client.go\<close>) that takes one
  frame off the connection: fixed header, size limit, body. Where the loop ends the
  connection without an error value the model returns an \<^const>\<open>Errorf\<close>.
\<close>

definition readFrame :: "nat \<Rightarrow> sliceReader \<Rightarrow> goerr + (FixedHeader \<times> bytes) \<times> sliceReader" where
  "readFrame maxPacketSize r =
     bindE (ReadFixed r) (\<lambda>(fh, r).
       if fh_RemainingLength fh > 0 then
         if fh_RemainingLength fh > maxPacketSize then Inl (Errorf ''oversized packet'')
         else bindE (io_ReadFull (fh_RemainingLength fh) r) (\<lambda>(body, r). Inr ((fh, body), r))
       else Inr ((fh, []), r))"

definition enc_frame :: "FixedHeader \<times> bytes \<Rightarrow> bytes" where
  "enc_frame p = enc_fixed (fst p) @ snd p"

definition frame_ok :: "nat \<Rightarrow> FixedHeader \<times> bytes \<Rightarrow> bool" where
  "frame_ok maxPacketSize p =
     (fixed_ok (fst p) \<and> length (snd p) = fh_RemainingLength (fst p)
      \<and> fh_RemainingLength (fst p) \<le> maxPacketSize)"

interpretation frame: stream_codec enc_frame "readFrame maxPacketSize" "frame_ok maxPacketSize"
  for maxPacketSize
proof unfold_locales
  fix p r bs
  assume ok: "frame_ok maxPacketSize p" and r: "rest r = enc_frame p @ bs"
  obtain fh body where p: "p = (fh, body)"
    by (cases p)
  have "ReadFixed r = Inr (fh, advance (length (enc_fixed fh)) r)"
    using ok r by (intro fixed.dec_enc [where bs = "body @ bs"]) (auto simp: p frame_ok_def enc_frame_def)
  then show "readFrame maxPacketSize r = Inr (p, advance (length (enc_frame p)) r)"
    using ok r by (auto simp: readFrame_def p frame_ok_def enc_frame_def io_ReadFull_eq)
qed

lemma enc_fixed_not_Nil [simp]: "enc_fixed fh \<noteq> []"
  by (simp add: enc_fixed_def)

lemma enc_frame_not_Nil: "enc_frame p \<noteq> []"
  by (simp add: enc_frame_def)

lemma readFrame_ok: "readFrame m r = Inr (p, r') \<Longrightarrow> frame_ok m p"
  by (auto simp: readFrame_def bindE_eq_Inr io_ReadFull_Inr frame_ok_def split: if_splits
      dest: ReadFixed_ok)

lemma readFrame_no_panic [simp, panic_free]: "no_panic (readFrame m r)"
  unfolding readFrame_def by (auto intro!: no_panic_bindE)

text \<open>An encoder's output is the frame of a header and a body.\<close>

definition mk_frame :: "PacketType \<Rightarrow> byte \<Rightarrow> bytes \<Rightarrow> FixedHeader \<times> bytes" where
  "mk_frame t flags body =
     (\<lparr>fh_Type = t, fh_Flags = flags, fh_RemainingLength = length body\<rparr>, body)"

lemma frame_ok_mk_frame [simp]:
  "frame_ok m (mk_frame t flags body) \<longleftrightarrow>
     t < 16 \<and> flags < 16 \<and> length body \<le> MaxRemainingLength \<and> length body \<le> m"
  by (auto simp: frame_ok_def mk_frame_def fixed_ok_def)

lemma readFrame_mk_frame:
  assumes "rest r = enc_frame (mk_frame t flags body) @ bs" "t < 16" "flags < 16"
    and "length body \<le> MaxRemainingLength" "length body \<le> m"
  shows "\<exists>r'. readFrame m r = Inr (mk_frame t flags body, r') \<and> rest r' = bs"
  using frame.dec_enc [of m "mk_frame t flags body" r bs] assms by auto

lemma enc_frame_mk_frame:
  "enc_frame (mk_frame t flags body) = (push_bit 4 t OR flags) # varint_bytes (length body) @ body"
  by (simp add: enc_frame_def mk_frame_def enc_fixed_def)

section \<open>Round trips: PUBLISH\<close>

lemma qos_cases:
  assumes "(q::byte) \<le> 2"
  obtains "q = 0" | "q = 1" | "q = 2"
proof -
  from assms have "unat q \<le> 2"
    by (simp add: word_le_nat_alt)
  then have "unat q = 0 \<or> unat q = 1 \<or> unat q = 2"
    by linarith
  then have "q = 0 \<or> q = 1 \<or> q = 2"
    by (auto simp: word_unat_eq_iff)
  then show thesis
    using that by blast
qed

definition low_publish_flags :: "byte \<Rightarrow> bool \<Rightarrow> bool \<Rightarrow> byte" where
  "low_publish_flags qos retain dup =
     (if dup then 0x08 else 0) OR push_bit 1 (qos AND 0x03) OR (if retain then 0x01 else 0)"

lemma publishFlags_eq: "publishFlags qos retain dup = push_bit 4 PUBLISH OR low_publish_flags qos retain dup"
  by (cases dup; cases retain)
    (simp_all only: publishFlags_def low_publish_flags_def Let_def if_True if_False
      or.assoc or.left_neutral or.right_neutral)

lemma low_publish_flags_decode:
  assumes "qos \<le> QoS2"
  shows "low_publish_flags qos retain dup < 16"
    and "low_publish_flags qos retain dup AND 0x08 \<noteq> 0 \<longleftrightarrow> dup"
    and "drop_bit 1 (low_publish_flags qos retain dup) AND 0x03 = qos"
    and "low_publish_flags qos retain dup AND 0x01 \<noteq> 0 \<longleftrightarrow> retain"
  using assms by (cases qos rule: qos_cases; cases dup; cases retain; simp add: low_publish_flags_def)+

definition publish_body :: "byte \<Rightarrow> string \<Rightarrow> bytes \<Rightarrow> byte \<Rightarrow> uint16 \<Rightarrow> bytes" where
  "publish_body version topic payload qos packetID =
     enc_string topic @ (if qos > 0 then put_uint16 packetID else [])
     @ (if version = V50 then [0] else []) @ payload"

text \<open>The encoder the broker's delivery uses for a connection of the given protocol version.\<close>

definition encode_publish ::
    "byte \<Rightarrow> string \<Rightarrow> bytes \<Rightarrow> byte \<Rightarrow> bool \<Rightarrow> uint16 \<Rightarrow> bool \<Rightarrow> goerr + bytes" where
  "encode_publish version topic payload qos retain packetID dup =
     (if version = V50 then EncodePublishV5 topic payload qos retain packetID dup []
      else EncodePublish topic payload qos retain packetID dup)"

lemma encode_publish_eq:
  assumes "fits16 topic"
  shows "encode_publish version topic payload qos retain packetID dup =
     (if length (publish_body version topic payload qos packetID) \<le> MaxRemainingLength
      then Inr (enc_frame (mk_frame PUBLISH (low_publish_flags qos retain dup)
                  (publish_body version topic payload qos packetID)))
      else Inl Panic)"
proof -
  have l: "length (publish_body version topic payload qos packetID) =
      2 + length topic + (if qos > 0 then 2 else 0) + (if version = V50 then 1 else 0) + length payload"
    using assms by (simp add: publish_body_def)
  show ?thesis
    unfolding enc_frame_mk_frame publishFlags_eq [symmetric] l
    using assms
    by (auto simp: encode_publish_def EncodePublish_def EncodePublishV5_def Let_def varint4_eq
        MaxRemainingLength_def publish_body_def appendString_eq appendUint16_eq publishFlags_eq)
qed

lemma DecodePublish_publish_body:
  assumes topic: "ValidTopicName topic" and qos: "qos \<le> QoS2" "qos = QoS0 \<Longrightarrow> \<not> dup"
    and pid: "qos > 0 \<Longrightarrow> packetID \<noteq> 0"
    and flags: "fh_Flags fh = low_publish_flags qos retain dup"
  shows "DecodePublish now version fh (publish_body version topic payload qos packetID) =
    Inr \<lparr>pp_Dup = dup, pp_QoS = qos, pp_Retain = retain, pp_Topic = topic,
         pp_PacketID = (if qos > 0 then packetID else 0), pp_Payload = payload,
         pp_MessageExpiryInterval = 0, pp_TopicAlias = 0, pp_ReceivedAt = now\<rparr>"
proof -
  let ?body = "publish_body version topic payload qos packetID"
  let ?r = "newSliceReader ?body"
  have fits: "fits16 topic" and ne: "topic \<noteq> []"
    using topic by (auto simp: ValidTopicName_def fits16_def MaxTopicLen_def split: if_splits)
  define tail where "tail = (if version = V50 then [0] else []) @ payload"
  define r1 where "r1 = advance (length (enc_string topic)) ?r"
  define r2 where "r2 = (if qos > 0 then advance 2 r1 else r1)"
  define r3 where "r3 = (if version = V50 then advance 1 r2 else r2)"
  have s: "readString ?r = Inr (topic, r1)"
    unfolding r1_def using fits by (intro str.dec_enc) (simp_all add: publish_body_def)
  have rest1: "rest r1 = (if qos > 0 then put_uint16 packetID else []) @ tail"
    by (simp add: r1_def publish_body_def tail_def)
  have u: "qos > 0 \<Longrightarrow> readUint16 r1 = Inr (packetID, r2)"
    using u16.dec_enc [where x = packetID and r = r1 and bs = tail] rest1 by (simp add: r2_def)
  have rest2: "rest r2 = tail"
    using rest1 by (simp add: r2_def)
  have p: "version = V50 \<Longrightarrow> readProps r2 = Inr ([], r3)"
    using readProps_empty [of r2 payload] rest2 by (simp add: r3_def tail_def)
  have rest3: "rest r3 = payload"
    using rest2 by (simp add: r3_def tail_def)
  have r2: "\<not> 0 < qos \<Longrightarrow> r1 = r2" and r3: "version \<noteq> V50 \<Longrightarrow> r2 = r3"
    by (simp_all add: r2_def r3_def)
  note fl = low_publish_flags_decode [OF qos(1), of retain dup]
  have zero: "\<not> 0 < qos \<longleftrightarrow> qos = 0"
    by (simp add: word_gt_0)
  have nq: "\<not> QoS2 < qos"
    using qos(1) by simp
  show ?thesis
    unfolding DecodePublish_def Let_def flags fl(3) s
    using qos pid topic ne u p r2 r3 fl(2,4) nq
    by (cases "0 < qos"; cases "version = V50")
      (simp_all add: prop32_def prop16_def sliceReader_ReadFull_Remaining rest3 zero)
qed

lemma publish_roundtrip:
  assumes topic: "ValidTopicName topic" and qos: "qos \<le> QoS2" "qos = QoS0 \<Longrightarrow> \<not> dup"
    and pid: "qos > 0 \<Longrightarrow> packetID \<noteq> 0"
    and enc: "encode_publish version topic payload qos retain packetID dup = Inr frame"
    and max: "length frame \<le> maxPacketSize" and r: "rest r = frame @ bs"
  shows "\<exists>fh body r'. readFrame maxPacketSize r = Inr ((fh, body), r') \<and> rest r' = bs
    \<and> fh_Type fh = PUBLISH
    \<and> DecodePublish now version fh body =
        Inr \<lparr>pp_Dup = dup, pp_QoS = qos, pp_Retain = retain, pp_Topic = topic,
             pp_PacketID = (if qos > 0 then packetID else 0), pp_Payload = payload,
             pp_MessageExpiryInterval = 0, pp_TopicAlias = 0, pp_ReceivedAt = now\<rparr>"
proof -
  let ?body = "publish_body version topic payload qos packetID"
  let ?fr = "mk_frame PUBLISH (low_publish_flags qos retain dup) ?body"
  have fits: "fits16 topic"
    using topic by (auto simp: ValidTopicName_def fits16_def MaxTopicLen_def split: if_splits)
  from enc encode_publish_eq [OF fits, of version payload qos retain packetID dup]
  have le: "length ?body \<le> MaxRemainingLength" and frame: "frame = enc_frame ?fr"
    by (auto split: if_splits)
  have "length ?body \<le> maxPacketSize"
    using max by (simp add: frame enc_frame_mk_frame)
  then obtain r' where "readFrame maxPacketSize r = Inr (?fr, r')" "rest r' = bs"
    using readFrame_mk_frame [of r PUBLISH _ ?body bs maxPacketSize] r le frame
      low_publish_flags_decode(1) [OF qos(1)] by auto
  moreover have "DecodePublish now version (fst ?fr) ?body = Inr \<lparr>pp_Dup = dup, pp_QoS = qos,
      pp_Retain = retain, pp_Topic = topic, pp_PacketID = (if qos > 0 then packetID else 0),
      pp_Payload = payload, pp_MessageExpiryInterval = 0, pp_TopicAlias = 0, pp_ReceivedAt = now\<rparr>"
    using topic qos pid by (intro DecodePublish_publish_body) (auto simp: mk_frame_def)
  ultimately show ?thesis
    by (auto simp: mk_frame_def)
qed

section \<open>Round trips: acknowledgements\<close>

definition is_ack :: "PacketType \<Rightarrow> bool" where
  "is_ack t = (t = PUBACK \<or> t = PUBREC \<or> t = PUBREL \<or> t = PUBCOMP)"

definition ack_flags :: "PacketType \<Rightarrow> byte" where
  "ack_flags t = (if t = PUBREL then 0x02 else 0)"

lemma varint_bytes_small: "n < 128 \<Longrightarrow> varint_bytes n = [of_nat n]"
  by (simp add: varint_bytes.simps)

lemma EncodeAck_eq: "EncodeAck t packetID = enc_frame (mk_frame t (ack_flags t) (put_uint16 packetID))"
  by (simp add: EncodeAck_def enc_frame_mk_frame ack_flags_def put_uint16_def varint_bytes_small Let_def)

lemma EncodeAckV5_eq:
  "EncodeAckV5 t packetID reasonCode [] =
     Inr (enc_frame (mk_frame t (ack_flags t) (put_uint16 packetID @ [reasonCode, 0])))"
  by (simp add: EncodeAckV5_def enc_frame_mk_frame ack_flags_def put_uint16_def varint4_eq
      MaxRemainingLength_def appendUint16_def varint_bytes_small Let_def)

lemma DecodePacketID_put_uint16 [simp]: "DecodePacketID (put_uint16 packetID @ bs) = Inr packetID"
  by (simp add: DecodePacketID_def)

text \<open>The acknowledgement the broker sends for a connection of the given protocol version.\<close>

definition encode_ack :: "byte \<Rightarrow> PacketType \<Rightarrow> uint16 \<Rightarrow> goerr + bytes" where
  "encode_ack version t packetID =
     (if version = V50 then EncodeAckV5 t packetID 0x00 [] else Inr (EncodeAck t packetID))"

lemma ack_roundtrip:
  assumes t: "is_ack t" and max: "4 \<le> maxPacketSize"
    and enc: "encode_ack version t packetID = Inr frame" and r: "rest r = frame @ bs"
  shows "\<exists>fh body r'. readFrame maxPacketSize r = Inr ((fh, body), r') \<and> rest r' = bs
    \<and> fh_Type fh = t \<and> fh_Flags fh = ack_flags t \<and> DecodePacketID body = Inr packetID"
proof -
  define body where "body = put_uint16 packetID @ (if version = V50 then [0, 0] else [])"
  have "frame = enc_frame (mk_frame t (ack_flags t) body)"
    using enc by (auto simp: encode_ack_def EncodeAckV5_eq EncodeAck_eq body_def split: if_splits)
  moreover have "t < 16" "ack_flags t < 16" "length body \<le> 4"
    using t by (auto simp: is_ack_def ack_flags_def body_def)
  ultimately obtain r' where "readFrame maxPacketSize r = Inr (mk_frame t (ack_flags t) body, r')"
      "rest r' = bs"
    using readFrame_mk_frame [of r t "ack_flags t" body bs maxPacketSize] r max
    by (auto simp: MaxRemainingLength_def)
  moreover have "DecodePacketID body = Inr packetID"
    by (simp add: body_def)
  ultimately show ?thesis
    by (auto simp: mk_frame_def)
qed

section \<open>Round trips: SUBSCRIBE and UNSUBSCRIBE\<close>

definition enc_subscription :: "Subscription \<Rightarrow> bytes" where
  "enc_subscription s = enc_string (sb_Filter s) @ [sb_QoS s]"

definition subscription_ok :: "Subscription \<Rightarrow> bool" where
  "subscription_ok s = (fits16 (sb_Filter s) \<and> sb_QoS s < 4)"

text \<open>One turn of the subscription loop as a field reader, so that it is a codec too.\<close>

definition readSubscription :: "sliceReader \<Rightarrow> goerr + Subscription \<times> sliceReader" where
  "readSubscription r =
     bindE (readString r) (\<lambda>(f, r). bindE (io_ReadFull 1 r) (\<lambda>(q, r).
       Inr (\<lparr>sb_Filter = f, sb_QoS = (q ! 0) AND 0x03\<rparr>, r)))"

lemma and_0x03_eq: "(q::byte) < 4 \<Longrightarrow> q AND 0x03 = q"
proof -
  assume "q < 4"
  then have "q \<le> 3"
    by (simp add: word_le_nat_alt word_less_nat_alt)
  then have "unat q \<le> 3"
    by (simp add: word_le_nat_alt)
  then have "unat q = 0 \<or> unat q = 1 \<or> unat q = 2 \<or> unat q = 3"
    by linarith
  then have "q = 0 \<or> q = 1 \<or> q = 2 \<or> q = 3"
    by (auto simp: word_unat_eq_iff)
  then show ?thesis
    by auto
qed

interpretation subscription: stream_codec enc_subscription readSubscription subscription_ok
proof unfold_locales
  fix s r bs
  assume ok: "subscription_ok s" and r: "rest r = enc_subscription s @ bs"
  let ?n = "length (enc_string (sb_Filter s))"
  have "readString r = Inr (sb_Filter s, advance ?n r)"
    using ok r by (intro str.dec_enc [where bs = "sb_QoS s # bs"])
      (auto simp: subscription_ok_def enc_subscription_def)
  moreover have "rest (advance ?n r) = sb_QoS s # bs"
    using r by (simp add: enc_subscription_def)
  ultimately show "readSubscription r = Inr (s, advance (length (enc_subscription s)) r)"
    using ok by (simp add: readSubscription_def io_ReadFull_eq enc_subscription_def
        subscription_ok_def and_0x03_eq)
qed

lemma DecodeSubscribe_loop_step:
  "rest r \<noteq> [] \<Longrightarrow> readSubscription r = Inr (s, r') \<Longrightarrow>
     DecodeSubscribe_loop subs r = DecodeSubscribe_loop (subs @ [s]) r'"
  by (subst DecodeSubscribe_loop.simps) (auto simp: readSubscription_def bindE_eq_Inr)

lemma DecodeSubscribe_loop_concat:
  "list_all subscription_ok xs \<Longrightarrow> rest r = concat (map enc_subscription xs) \<Longrightarrow>
     DecodeSubscribe_loop subs r = Inr (subs @ xs)"
proof (induction xs arbitrary: subs r)
  case Nil
  then show ?case
    by (subst DecodeSubscribe_loop.simps) simp
next
  case (Cons x xs)
  let ?r = "advance (length (enc_subscription x)) r"
  have "readSubscription r = Inr (x, ?r)"
    using Cons.prems by (intro subscription.dec_enc [where bs = "concat (map enc_subscription xs)"]) auto
  moreover have "rest r \<noteq> []"
    using Cons.prems by (simp add: enc_subscription_def)
  ultimately have "DecodeSubscribe_loop subs r = DecodeSubscribe_loop (subs @ [x]) ?r"
    by (intro DecodeSubscribe_loop_step)
  also have "\<dots> = Inr ((subs @ [x]) @ xs)"
    using Cons.prems by (intro Cons.IH) auto
  finally show ?case
    by simp
qed

lemma DecodeUnsubscribe_loop_concat:
  "list_all fits16 xs \<Longrightarrow> rest r = concat (map enc_string xs) \<Longrightarrow>
     DecodeUnsubscribe_loop fs r = Inr (fs @ xs)"
proof (induction xs arbitrary: fs r)
  case Nil
  then show ?case
    by (subst DecodeUnsubscribe_loop.simps) simp
next
  case (Cons x xs)
  let ?r = "advance (length (enc_string x)) r"
  have "readString r = Inr (x, ?r)"
    using Cons.prems by (intro str.dec_enc [where bs = "concat (map enc_string xs)"]) auto
  moreover have "rest r \<noteq> []"
    using Cons.prems by (simp add: enc_string_eq)
  ultimately have "DecodeUnsubscribe_loop fs r = DecodeUnsubscribe_loop (fs @ [x]) ?r"
    by (subst DecodeUnsubscribe_loop.simps) simp
  also have "\<dots> = Inr ((fs @ [x]) @ xs)"
    using Cons.prems by (intro Cons.IH) auto
  finally show ?case
    by simp
qed

definition props_prefix :: "byte \<Rightarrow> bytes" where
  "props_prefix version = (if version = V50 then [0] else [])"

lemma skip_props_prefix:
  "rest r = props_prefix version @ bs \<Longrightarrow>
     (if version = V50 then skipProps r else Inr r) = Inr (advance (length (props_prefix version)) r)"
  by (auto simp: props_prefix_def skipProps_empty)

lemma subscribe_roundtrip:
  assumes "list_all subscription_ok subs" "subs \<noteq> []"
  shows "DecodeSubscribe version
      (put_uint16 packetID @ props_prefix version @ concat (map enc_subscription subs))
    = Inr (packetID, subs)"
proof -
  let ?tail = "concat (map enc_subscription subs)"
  let ?r = "newSliceReader (put_uint16 packetID @ props_prefix version @ ?tail)"
  have "readUint16 ?r = Inr (packetID, advance 2 ?r)"
    using u16.dec_enc [where x = packetID and r = ?r] by simp
  moreover have "(if version = V50 then skipProps (advance 2 ?r) else Inr (advance 2 ?r))
      = Inr (advance (length (props_prefix version)) (advance 2 ?r))"
    by (rule skip_props_prefix) simp
  moreover have "DecodeSubscribe_loop [] (advance (length (props_prefix version)) (advance 2 ?r))
      = Inr ([] @ subs)"
    using assms by (intro DecodeSubscribe_loop_concat) auto
  ultimately show ?thesis
    using assms(2) by (simp add: DecodeSubscribe_def)
qed

lemma unsubscribe_roundtrip:
  assumes "list_all fits16 fs"
  shows "DecodeUnsubscribe version
      (put_uint16 packetID @ props_prefix version @ concat (map enc_string fs)) = Inr (packetID, fs)"
proof -
  let ?tail = "concat (map enc_string fs)"
  let ?r = "newSliceReader (put_uint16 packetID @ props_prefix version @ ?tail)"
  have "readUint16 ?r = Inr (packetID, advance 2 ?r)"
    using u16.dec_enc [where x = packetID and r = ?r] by simp
  moreover have "(if version = V50 then skipProps (advance 2 ?r) else Inr (advance 2 ?r))
      = Inr (advance (length (props_prefix version)) (advance 2 ?r))"
    by (rule skip_props_prefix) simp
  moreover have "DecodeUnsubscribe_loop [] (advance (length (props_prefix version)) (advance 2 ?r))
      = Inr ([] @ fs)"
    using assms by (intro DecodeUnsubscribe_loop_concat) auto
  ultimately show ?thesis
    by (simp add: DecodeUnsubscribe_def)
qed

section \<open>What a decoded CONNECT guarantees\<close>

definition connect_ok :: "ConnectPacket \<Rightarrow> bool" where
  "connect_ok p \<longleftrightarrow>
     (cp_Version p = V311 \<or> cp_Version p = V50)
     \<and> cp_WillQoS p \<le> QoS2
     \<and> (\<not> cp_WillFlag p \<longrightarrow>
          cp_WillQoS p = 0 \<and> \<not> cp_WillRetain p \<and> cp_WillTopic p = [] \<and> cp_WillPayload p = [])
     \<and> (\<not> cp_HasUsername p \<longrightarrow> cp_Username p = [])
     \<and> (\<not> cp_HasPassword p \<longrightarrow> cp_Password p = [])
     \<and> (cp_Version p = V311 \<longrightarrow>
          cp_SessionExpiryInterval p = 0 \<and> cp_ReceiveMaximum p = 0
          \<and> cp_MaximumPacketSize p = 0 \<and> cp_TopicAliasMaximum p = 0)
     \<and> fits16 (cp_ClientID p) \<and> fits16 (cp_WillTopic p) \<and> fits16 (cp_Username p)
     \<and> length (cp_WillPayload p) \<le> 65535 \<and> length (cp_Password p) \<le> 65535"

lemma fits16_Nil [simp]: "fits16 []"
  by (simp add: fits16_def)

lemma unat_uint16_le: "unat (w :: uint16) \<le> 65535"
  using unsigned_less [of w, where ?'a = nat] by simp

lemma io_ReadFull_len: "io_ReadFull n r = Inr (d, r') \<Longrightarrow> length d = n"
  by (simp add: io_ReadFull_Inr)

text \<open>Between the stages: the flags are consistent and the later fields are still empty.\<close>

definition connect_header_ok :: "ConnectPacket \<Rightarrow> bool" where
  "connect_header_ok p \<longleftrightarrow>
     connect_ok p \<and> cp_ClientID p = [] \<and> cp_WillTopic p = [] \<and> cp_WillPayload p = []
     \<and> cp_Username p = [] \<and> cp_Password p = []"

text \<open>The flag byte decoded into the record, and the two checks on it.\<close>

definition connect_flags :: "byte \<Rightarrow> byte \<Rightarrow> ConnectPacket" where
  "connect_flags v f = empty_ConnectPacket
     \<lparr>cp_Version := v, cp_CleanSession := f AND 0x02 \<noteq> 0, cp_WillFlag := f AND 0x04 \<noteq> 0,
      cp_WillQoS := drop_bit 3 f AND 0x03, cp_WillRetain := f AND 0x20 \<noteq> 0,
      cp_HasPassword := f AND 0x40 \<noteq> 0, cp_HasUsername := f AND 0x80 \<noteq> 0\<rparr>"

lemma decodeConnectHeader_Inr:
  assumes "decodeConnectHeader r = Inr (p, r')"
  obtains protoName r1 ver r2 f ka where "readString r = Inr (protoName, r1)"
    "protoName = ''MQTT'' \<or> protoName = ''MQIsdp''" "io_ReadFull 1 r1 = Inr (ver, r2)"
    "ver ! 0 = V311 \<or> ver ! 0 = V50" "p = (connect_flags (ver ! 0) f)\<lparr>cp_KeepAlive := ka\<rparr>"
    "cp_WillFlag (connect_flags (ver ! 0) f)
      \<or> cp_WillQoS (connect_flags (ver ! 0) f) = 0 \<and> \<not> cp_WillRetain (connect_flags (ver ! 0) f)"
    "cp_WillQoS (connect_flags (ver ! 0) f) \<le> QoS2"
  using assms
  unfolding decodeConnectHeader_def Let_def connect_flags_def [symmetric] bindE_eq_Inr wrapE_eq_Inr
  by (auto simp add: bindE_eq_Inr not_less simp del: de_Morgan_conj split: if_split_asm)

lemma decodeConnectHeader_ok:
  "decodeConnectHeader r = Inr (p, r') \<Longrightarrow> connect_header_ok p"
  by (erule decodeConnectHeader_Inr)
    (auto simp: connect_header_ok_def connect_ok_def connect_flags_def empty_ConnectPacket_def)

text \<open>The level peeked for the refusal of a malformed CONNECT is the level the decoder reads.\<close>

lemma decodeConnectHeader_version:
  "decodeConnectHeader (newSliceReader body) = Inr (p, r) \<Longrightarrow>
     PeekConnectProtocolLevel body = Some (cp_Version p)"
  by (erule decodeConnectHeader_Inr)
    (auto simp: PeekConnectProtocolLevel_def connect_flags_def empty_ConnectPacket_def)

lemma connect_header_ok_props [simp]:
  assumes "cp_Version p = V50"
  shows "connect_header_ok (p\<lparr>cp_SessionExpiryInterval := a\<rparr>) = connect_header_ok p"
    "connect_header_ok (p\<lparr>cp_ReceiveMaximum := b\<rparr>) = connect_header_ok p"
    "connect_header_ok (p\<lparr>cp_MaximumPacketSize := c\<rparr>) = connect_header_ok p"
    "connect_header_ok (p\<lparr>cp_TopicAliasMaximum := d\<rparr>) = connect_header_ok p"
  using assms by (simp_all add: connect_header_ok_def connect_ok_def)

lemma decodeConnectProps_ok:
  assumes "decodeConnectProps p r = Inr (p', r')"
  shows "cp_Version p' = cp_Version p \<and> connect_header_ok p' = connect_header_ok p"
proof (cases "cp_Version p = V50")
  case True
  with assms obtain props r1 where "readConnectProps r = Inr (props, r1)"
    by (auto simp: decodeConnectProps_def bindE_eq_Inr)
  with assms True show ?thesis
    by (simp add: decodeConnectProps_def Let_def;
        cases "prop32 props 17"; cases "prop16 props 33"; cases "prop32 props 39"; cases "prop16 props 34")
      (auto split: if_split_asm)
next
  case False
  with assms show ?thesis
    by (simp add: decodeConnectProps_def)
qed

lemma readString_post [simp]: "postE (\<lambda>(s, _). fits16 s) (readString r)"
  by (auto simp: postE_def dest: readString_Inr split: sum.split)

lemma io_ReadFull_post [simp]: "postE (\<lambda>(d, _). length d = n) (io_ReadFull n r)"
  by (auto simp: postE_def dest: io_ReadFull_len split: sum.split)

lemma readUint16_post [simp]: "postE (\<lambda>(v, _). unat v \<le> 65535) (readUint16 r)"
  by (simp add: postE_def unat_uint16_le split: sum.split prod.split)

lemma decodeConnectWill_ok:
  assumes "connect_ok p" "cp_Username p = []" "cp_Password p = []"
  shows "postE (\<lambda>(q, _). connect_ok q \<and> cp_Username q = [] \<and> cp_Password q = []
    \<and> cp_Version q = cp_Version p) (decodeConnectWill p r)"
proof (cases "cp_WillFlag p")
  case True
  show ?thesis
    unfolding decodeConnectWill_def if_P [OF True]
    apply (rule postE_bindE [OF postE_True])
    apply (rule postE_bindE [OF postE_wrapE [OF readString_post]], clarify)
    apply (rule postE_bindE [OF postE_True], clarify)
    subgoal for r1 wt r2 wLen r3
      using assms True unat_uint16_le [of wLen]
      by (cases "wLen > 0") (auto intro!: postE_bindE [OF io_ReadFull_post] simp: connect_ok_def)
    done
next
  case False
  with assms show ?thesis
    by (simp add: decodeConnectWill_def)
qed

lemma decodeConnectCredentials_ok:
  assumes "connect_ok p"
  shows "postE (\<lambda>(q, _). connect_ok q \<and> cp_Version q = cp_Version p) (decodeConnectCredentials p r)"
  unfolding decodeConnectCredentials_def
proof (rule postE_bindE [where Q = "\<lambda>(q, _). connect_ok q \<and> cp_Version q = cp_Version p"])
  show "postE (\<lambda>(q, _). connect_ok q \<and> cp_Version q = cp_Version p) (if cp_HasUsername p
      then bindE (wrapE ''username'' (readString r)) (\<lambda>(u, r). Inr (p\<lparr>cp_Username := u\<rparr>, r))
      else Inr (p, r))"
    using assms by (auto intro!: postE_bindE [OF postE_wrapE [OF readString_post]] simp: connect_ok_def)
next
  fix qr :: "ConnectPacket \<times> sliceReader"
  assume q: "case qr of (q, _) \<Rightarrow> connect_ok q \<and> cp_Version q = cp_Version p"
  obtain q r1 where [simp]: "qr = (q, r1)"
    by (cases qr) simp
  show "postE (\<lambda>(q, _). connect_ok q \<and> cp_Version q = cp_Version p)
      (case qr of (q, r) \<Rightarrow> if cp_HasPassword q then
         bindE (readUint16 r) (\<lambda>(pLen, r). if pLen > 0 then
             bindE (io_ReadFull (unat pLen) r) (\<lambda>(pw, r). Inr (q\<lparr>cp_Password := pw\<rparr>, r))
           else Inr (q, r))
       else Inr (q, r))"
    using q
    by (auto intro!: postE_bindE [OF io_ReadFull_post] postE_bindE [OF readUint16_post]
        simp: connect_ok_def)
qed

lemma DecodeConnect_post:
  "postE (\<lambda>p. connect_ok p \<and> PeekConnectProtocolLevel body = Some (cp_Version p)) (DecodeConnect body)"
proof (cases "DecodeConnect body")
  case (Inr p)
  then obtain p1 r1 p2 r2 cid r3 p3 r4 r5 where
      1: "decodeConnectHeader (newSliceReader body) = Inr (p1, r1)"
    and 2: "decodeConnectProps p1 r1 = Inr (p2, r2)"
    and 3: "readString r2 = Inr (cid, r3)"
    and 4: "decodeConnectWill (p2\<lparr>cp_ClientID := cid\<rparr>) r3 = Inr (p3, r4)"
    and 5: "decodeConnectCredentials p3 r4 = Inr (p, r5)"
    unfolding DecodeConnect_def Let_def by (elim bindE_InrE2) (unfold wrapE_eq_Inr sum.inject, blast)
  let ?p = "p2\<lparr>cp_ClientID := cid\<rparr>"
  have "connect_header_ok p2" "PeekConnectProtocolLevel body = Some (cp_Version p2)"
    using decodeConnectHeader_ok [OF 1] decodeConnectProps_ok [OF 2] decodeConnectHeader_version [OF 1]
    by simp_all
  moreover have "fits16 cid"
    using readString_Inr [OF 3] by simp
  ultimately have p: "connect_ok ?p" "cp_Username ?p = []" "cp_Password ?p = []"
      "PeekConnectProtocolLevel body = Some (cp_Version ?p)"
    by (simp_all add: connect_header_ok_def connect_ok_def)
  have "connect_ok p3" "cp_Version p3 = cp_Version ?p"
    using postE_D [OF decodeConnectWill_ok [OF p(1-3)] 4] by simp_all
  with postE_D [OF decodeConnectCredentials_ok 5] p(4) show ?thesis
    by (simp add: Inr)
qed simp

section \<open>CONNACK and DISCONNECT frames\<close>

definition connack_body :: "bool \<Rightarrow> byte \<Rightarrow> ConnackMQTT5Options \<Rightarrow> bytes" where
  "connack_body sessionPresent reasonCode opts =
     (let props = (if reasonCode = ConnAccepted then connackProps opts else [])
      in [flag_byte (reasonCode = ConnAccepted \<and> sessionPresent), reasonCode, of_nat (length props)] @ props)"

lemma length_connackProps: "length (connackProps opts) \<le> 21"
  by (simp add: connackProps_def put_uint16_def put_uint32_def)

lemma EncodeConnackV5_eq:
  "EncodeConnackV5 sessionPresent reasonCode opts
     = Inr (enc_frame (mk_frame CONNACK 0 (connack_body sessionPresent reasonCode opts)))"
  using length_connackProps [of opts]
  by (auto simp: EncodeConnackV5_def connack_body_def Let_def varint4_eq MaxRemainingLength_def
      varint_bytes_small enc_frame_mk_frame flag_byte_def)

lemma length_connack_body: "length (connack_body sessionPresent reasonCode opts) \<le> 24"
  using length_connackProps [of opts] by (simp add: connack_body_def Let_def)

lemma connack_roundtrip:
  assumes "24 \<le> maxPacketSize"
    and "EncodeConnackV5 sessionPresent reasonCode opts = Inr frame" "rest r = frame @ bs"
  shows "\<exists>r'. readFrame maxPacketSize r
      = Inr (mk_frame CONNACK 0 (connack_body sessionPresent reasonCode opts), r') \<and> rest r' = bs"
  using assms readFrame_mk_frame [of r CONNACK 0 "connack_body sessionPresent reasonCode opts" bs maxPacketSize]
    length_connack_body [of sessionPresent reasonCode opts]
  by (auto simp: EncodeConnackV5_eq MaxRemainingLength_def)

section \<open>Properties\<close>


text \<open>
  C3: a message the broker sends, with a valid topic and a packet identifier where its QoS needs one, is
  read off the connection and decoded to the same topic, payload, QoS, flags and identifier, in
  both protocol versions, and the reader stands right after it.
\<close>

theorem publish_encode_decode:
  assumes "ValidTopicName topic" "qos \<le> QoS2" "qos = QoS0 \<Longrightarrow> \<not> dup" "qos > 0 \<Longrightarrow> packetID \<noteq> 0"
    and "encode_publish version topic payload qos retain packetID dup = Inr frame"
    and "length frame \<le> maxPacketSize"
  shows "\<exists>fh body r'. readFrame maxPacketSize (newSliceReader (frame @ suff)) = Inr ((fh, body), r')
    \<and> rest r' = suff \<and> fh_Type fh = PUBLISH
    \<and> DecodePublish now version fh body =
        Inr \<lparr>pp_Dup = dup, pp_QoS = qos, pp_Retain = retain, pp_Topic = topic,
             pp_PacketID = (if qos > 0 then packetID else 0), pp_Payload = payload,
             pp_MessageExpiryInterval = 0, pp_TopicAlias = 0, pp_ReceivedAt = now\<rparr>"
  using assms by (intro publish_roundtrip) auto

theorem publish_encode_decode_witness:
  "\<exists>frame fh body r'. encode_publish V50 ''a/b'' [1, 2] QoS1 True 7 False = Inr frame
    \<and> readFrame 100 (newSliceReader (frame @ [0xC0, 0])) = Inr ((fh, body), r') \<and> rest r' = [0xC0, 0]
    \<and> DecodePublish 0 V50 fh body =
        Inr \<lparr>pp_Dup = False, pp_QoS = QoS1, pp_Retain = True, pp_Topic = ''a/b'', pp_PacketID = 7,
             pp_Payload = [1, 2], pp_MessageExpiryInterval = 0, pp_TopicAlias = 0, pp_ReceivedAt = 0\<rparr>"
proof -
  have 1: "ValidTopicName ''a/b''"
    by (simp add: ValidTopicName_def MaxTopicLen_def)
  let ?frame = "enc_frame (mk_frame PUBLISH (low_publish_flags QoS1 True False) (publish_body V50 ''a/b'' [1, 2] QoS1 7))"
  have 2: "encode_publish V50 ''a/b'' [1, 2] QoS1 True 7 False = Inr ?frame"
    by (subst encode_publish_eq) (simp_all add: fits16_def publish_body_def MaxRemainingLength_def)
  have 3: "length ?frame \<le> 100"
    by (simp add: enc_frame_mk_frame publish_body_def varint_bytes_small enc_string_def appendString_def put_uint16_def)
  show ?thesis
    using publish_encode_decode [OF 1 _ _ _ 2 3, of "[0xC0, 0]" 0] 2 by auto
qed





text \<open>
  C35: every list of subscriptions (at least one, QoS field of two bits) and every list of filters to
  unsubscribe is decoded from its encoding with the packet identifier, in both protocol versions.
\<close>

theorem subscriptions_roundtrip:
  assumes "list_all subscription_ok subs" "subs \<noteq> []" "list_all fits16 fs"
  shows "DecodeSubscribe version
      (put_uint16 packetID @ props_prefix version @ concat (map enc_subscription subs)) = Inr (packetID, subs)
    \<and> DecodeUnsubscribe version
      (put_uint16 packetID @ props_prefix version @ concat (map enc_string fs)) = Inr (packetID, fs)"
  using assms subscribe_roundtrip unsubscribe_roundtrip by blast

theorem subscriptions_roundtrip_witness:
  "DecodeSubscribe V50 (put_uint16 9 @ props_prefix V50 @ concat (map enc_subscription
      [\<lparr>sb_Filter = ''a/#'', sb_QoS = 1\<rparr>, \<lparr>sb_Filter = ''b'', sb_QoS = 2\<rparr>]))
     = Inr (9, [\<lparr>sb_Filter = ''a/#'', sb_QoS = 1\<rparr>, \<lparr>sb_Filter = ''b'', sb_QoS = 2\<rparr>])"
  using subscriptions_roundtrip [of "[\<lparr>sb_Filter = ''a/#'', sb_QoS = 1\<rparr>, \<lparr>sb_Filter = ''b'', sb_QoS = 2\<rparr>]" "[]" V50 9]
  by (simp add: subscription_ok_def fits16_def)

text \<open>
  each of the four acknowledgements is read back with its type, its flags (0010 for PUBREL, 0 for
  the others) and its packet identifier, in both protocol versions.
\<close>

theorem acks_roundtrip:
  assumes "is_ack t" "4 \<le> maxPacketSize" "encode_ack version t packetID = Inr frame"
  shows "\<exists>fh body r'. readFrame maxPacketSize (newSliceReader (frame @ suff)) = Inr ((fh, body), r')
    \<and> rest r' = suff \<and> fh_Type fh = t \<and> fh_Flags fh = (if t = PUBREL then 2 else 0)
    \<and> DecodePacketID body = Inr packetID"
  using ack_roundtrip [OF assms, of "newSliceReader (frame @ suff)" suff]
  by (simp add: ack_flags_def)

theorem acks_roundtrip_witness:
  "\<exists>frame fh body r'. encode_ack V50 PUBREL 300 = Inr frame
    \<and> readFrame 10 (newSliceReader frame) = Inr ((fh, body), r') \<and> fh_Flags fh = 2
    \<and> DecodePacketID body = Inr 300"
proof -
  have "encode_ack V50 PUBREL 300 = Inr (enc_frame (mk_frame PUBREL (ack_flags PUBREL) (put_uint16 300 @ [0, 0])))"
    by (simp add: encode_ack_def EncodeAckV5_eq)
  with acks_roundtrip [OF _ _ this, of 10 "[]"] show ?thesis
    by (auto simp: is_ack_def)
qed

text \<open>
  C36: an MQTT 5 CONNACK never fails to encode and is read back as one frame; it announces a present
  session and carries properties only when the connection is accepted.
\<close>

theorem connack_v5_roundtrip:
  assumes "24 \<le> maxPacketSize"
  shows "\<exists>frame fh body r'. EncodeConnackV5 sessionPresent reasonCode opts = Inr frame
    \<and> readFrame maxPacketSize (newSliceReader (frame @ suff)) = Inr ((fh, body), r') \<and> rest r' = suff
    \<and> fh_Type fh = CONNACK \<and> body ! 1 = reasonCode
    \<and> body ! 0 = flag_byte (reasonCode = ConnAccepted \<and> sessionPresent)
    \<and> (reasonCode \<noteq> ConnAccepted \<longrightarrow> body = [0, reasonCode, 0])"
proof -
  obtain frame where e: "EncodeConnackV5 sessionPresent reasonCode opts = Inr frame"
    by (simp add: EncodeConnackV5_eq)
  with connack_roundtrip [OF assms e, of "newSliceReader (frame @ suff)" suff] show ?thesis
    by (auto simp: mk_frame_def connack_body_def Let_def flag_byte_def)
qed

theorem connack_v5_roundtrip_witness:
  "\<forall>opts. \<exists>frame fh r'. EncodeConnackV5 True ConnackReasonV5BadUsernameOrPassword opts = Inr frame
    \<and> readFrame 64 (newSliceReader frame) = Inr ((fh, [0, ConnackReasonV5BadUsernameOrPassword, 0]), r')"
  using connack_v5_roundtrip [of 64 True ConnackReasonV5BadUsernameOrPassword _ "[]"] by fastforce

end
