(* ===== verification/Trie.thy ===== *)
theory Trie
  imports Topics
begin

text \<open>
  The topic trie of one shard (\<open>internal/router/router.go\<close>: \<open>node\<close>, \<open>shard\<close>): subscribing,
  unsubscribing with pruning, removal of a client, matching of a topic and collection of
  a client's filters. A trie is read as a table from topic levels and client identifiers to
  subscribers (\<open>node_lookup\<close>); every operation is proved to act on that table as its
  name says, and matching is proved to return, for every client, a subscriber of the highest
  quality of service among its filters that match the topic.

  A node is reached through its parent only, so the tree of pointers is a datatype. Each
  operation is one step of the model: the per-node locks are not modelled.
\<close>

section \<open>Data\<close>

text \<open>
  \<open>Deliver\<close> is the callback of the subscriber; the model keeps the handle of the
  connection that installed it, \<open>None\<close> for a nil function.
\<close>

record Subscriber =
  ClientID :: string
  QoS :: byte
  Deliver :: "nat option"

datatype node = Node (children: "(string, node) gomap") (subscribers: "(string, Subscriber) gomap")

definition newNode :: node where
  "newNode = Node [] []"

section \<open>Operations\<close>

fun shard_subscribe :: "node \<Rightarrow> string list \<Rightarrow> Subscriber \<Rightarrow> node" where
  "shard_subscribe (Node cs ss) [] sub = Node cs (AList.update (ClientID sub) sub ss)"
| "shard_subscribe (Node cs ss) (seg # segs) sub =
     (let child = (case map_of cs seg of Some c \<Rightarrow> c | None \<Rightarrow> newNode)
      in Node (AList.update seg (shard_subscribe child segs sub) cs) ss)"

text \<open>The node after the call, and whether it is empty so that its parent drops it.\<close>

fun unsubRecursive :: "node \<Rightarrow> string list \<Rightarrow> string \<Rightarrow> node \<times> bool" where
  "unsubRecursive (Node cs ss) [] clientID =
     (let ss' = (case map_of ss clientID of Some _ \<Rightarrow> AList.delete clientID ss | None \<Rightarrow> ss)
      in (Node cs ss', length cs = 0 \<and> length ss' = 0))"
| "unsubRecursive (Node cs ss) (seg # segs) clientID =
     (case map_of cs seg of
        None \<Rightarrow> (Node cs ss, False)
      | Some child \<Rightarrow>
          (case unsubRecursive child segs clientID of
             (child', True) \<Rightarrow>
               let cs' = AList.delete seg cs
               in (Node cs' ss, length cs' = 0 \<and> length ss = 0)
           | (child', False) \<Rightarrow> (Node (AList.update seg child' cs) ss, False)))"

definition shard_unsubscribe :: "node \<Rightarrow> string list \<Rightarrow> string \<Rightarrow> node" where
  "shard_unsubscribe root segments clientID = fst (unsubRecursive root segments clientID)"

definition mergeSubscribers ::
    "(string, Subscriber) gomap \<Rightarrow> (string, Subscriber) gomap \<Rightarrow> (string, Subscriber) gomap" where
  "mergeSubscribers src dst =
     fold (\<lambda>(ident, sub) dst.
       case map_of dst ident of
         None \<Rightarrow> AList.update ident sub dst
       | Some existing \<Rightarrow> if QoS sub > QoS existing then AList.update ident sub dst else dst) src dst"

fun matchNode ::
    "node \<Rightarrow> string list \<Rightarrow> (string, Subscriber) gomap \<Rightarrow> (string, Subscriber) gomap" where
  "matchNode (Node cs ss) [] out =
     (let out = (case map_of cs ''#'' of
                   Some hChild \<Rightarrow> mergeSubscribers (subscribers hChild) out | None \<Rightarrow> out)
      in mergeSubscribers ss out)"
| "matchNode (Node cs ss) (seg # segs) out =
     (let out = (case map_of cs ''#'' of
                   Some hChild \<Rightarrow> mergeSubscribers (subscribers hChild) out | None \<Rightarrow> out);
          out = (case map_of cs seg of Some child \<Rightarrow> matchNode child segs out | None \<Rightarrow> out)
      in (case map_of cs ''+'' of Some pChild \<Rightarrow> matchNode pChild segs out | None \<Rightarrow> out))"

primrec removeClientFromNode :: "string \<Rightarrow> node \<Rightarrow> node" where
  "removeClientFromNode clientID (Node cs ss) =
     Node (map (map_prod id (removeClientFromNode clientID)) cs) (AList.delete clientID ss)"

primrec collectFilters :: "string \<Rightarrow> node \<Rightarrow> string \<Rightarrow> string list" where
  "collectFilters clientID (Node cs ss) = (\<lambda>prefix.
     (if map_of ss clientID \<noteq> None then [prefix] else [])
     @ concat (map (\<lambda>(seg, f). f (if prefix = [] then seg else prefix @ slash # seg))
         (map (map_prod id (collectFilters clientID)) cs)))"

section \<open>A trie as a table of subscriptions\<close>

fun node_at :: "node \<Rightarrow> string list \<Rightarrow> node option" where
  "node_at n [] = Some n"
| "node_at n (seg # segs) = Option.bind (map_of (children n) seg) (\<lambda>c. node_at c segs)"

definition node_lookup :: "node \<Rightarrow> string list \<Rightarrow> string \<Rightarrow> Subscriber option" where
  "node_lookup n f c = Option.bind (node_at n f) (\<lambda>m. map_of (subscribers m) c)"

text \<open>Well-formedness: the key lists of all maps of the trie are distinct.\<close>

primrec wf_node :: "node \<Rightarrow> bool" where
  "wf_node (Node cs ss) = (wf_map cs \<and> wf_map ss \<and> list_all snd (map (map_prod id wf_node) cs))"

lemma wf_node_iff:
  "wf_node (Node cs ss) \<longleftrightarrow> wf_map cs \<and> wf_map ss \<and> (\<forall>k c. map_of cs k = Some c \<longrightarrow> wf_node c)"
  by (fastforce simp: list_all_iff wf_map_in_set dest: map_of_SomeD)

declare wf_node.simps [simp del]
declare wf_node_iff [simp]

lemma wf_subscribers: "wf_node n \<Longrightarrow> wf_map (subscribers n)"
  by (cases n) simp

lemma wf_newNode [simp]: "wf_node newNode"
  by (simp add: newNode_def)

lemma node_lookup_Nil: "node_lookup n [] c = map_of (subscribers n) c"
  by (simp add: node_lookup_def)

lemma node_lookup_Cons:
  "node_lookup n (seg # segs) c =
     (case map_of (children n) seg of None \<Rightarrow> None | Some m \<Rightarrow> node_lookup m segs c)"
  by (simp add: node_lookup_def split: option.split)

lemmas node_lookup_simps [simp] = node_lookup_Nil node_lookup_Cons

lemma node_lookup_newNode [simp]: "node_lookup newNode f c = None"
  by (cases f) (simp_all add: newNode_def)

section \<open>Subscribing and unsubscribing\<close>

lemma wf_subscribe [simp]: "wf_node n \<Longrightarrow> wf_node (shard_subscribe n f sub)"
  by (induction n f sub rule: shard_subscribe.induct) (auto simp: Let_def split: option.split)

lemma lookup_subscribe:
  "node_lookup (shard_subscribe n f sub) g c =
     (if g = f \<and> c = ClientID sub then Some sub else node_lookup n g c)"
proof (induction n f sub arbitrary: g rule: shard_subscribe.induct)
  case (1 cs ss sub)
  then show ?case
    by (cases g) simp_all
next
  case (2 cs ss seg segs sub)
  then show ?case
    by (cases g) (auto simp: Let_def split: option.split)
qed

lemma unsub_empty:
  "unsubRecursive n f c = (n', True) \<Longrightarrow> n' = Node [] []"
  by (induction n f c arbitrary: n' rule: unsubRecursive.induct)
    (auto simp: Let_def split: option.splits prod.splits bool.splits)

lemma lookup_unsub:
  "node_lookup (fst (unsubRecursive n f c)) g d =
     (if g = f \<and> d = c then None else node_lookup n g d)"
proof (induction n f c arbitrary: g rule: unsubRecursive.induct)
  case (1 cs ss c)
  then show ?case
    by (cases g) (auto simp: Let_def split: option.split)
next
  case (2 cs ss seg segs c)
  show ?case
  proof (cases "map_of cs seg")
    case None
    then show ?thesis
      by (cases g) auto
  next
    case (Some child)
    obtain child' e where u: "unsubRecursive child segs c = (child', e)"
      by (cases "unsubRecursive child segs c")
    have IH: "node_lookup child' g d = (if g = segs \<and> d = c then None else node_lookup child g d)" for g
      using "2.IH" [OF Some, of g] u by simp
    show ?thesis
    proof (cases g)
      case (Cons x xs)
      show ?thesis
        using Some u Cons IH [of xs] unsub_empty [of child segs c child']
        by (cases e) (auto simp: Let_def newNode_def [symmetric])
    qed (use Some u in \<open>auto split: bool.split simp: Let_def\<close>)
  qed
qed

lemma lookup_unsubscribe:
  "node_lookup (shard_unsubscribe n f c) g d = (if g = f \<and> d = c then None else node_lookup n g d)"
  by (simp add: shard_unsubscribe_def lookup_unsub)

lemma wf_unsub: "wf_node n \<Longrightarrow> wf_node (fst (unsubRecursive n f c))"
proof (induction n f c rule: unsubRecursive.induct)
  case (2 cs ss seg segs c)
  show ?case
  proof (cases "map_of cs seg")
    case (Some child)
    then show ?thesis
      using 2 by (cases "unsubRecursive child segs c"; cases "snd (unsubRecursive child segs c)")
        (auto simp: Let_def)
  qed (use 2 in simp)
qed (auto simp: Let_def split: option.split)

lemma wf_unsubscribe [simp]: "wf_node n \<Longrightarrow> wf_node (shard_unsubscribe n f c)"
  by (simp add: shard_unsubscribe_def wf_unsub)

section \<open>Removing a client\<close>

lemma map_of_map_prod_id: "map_of (map (map_prod id f) cs) k = map_option f (map_of cs k)"
  by (induction cs) auto

lemma removeClientFromNode_sel [simp]:
  "children (removeClientFromNode c n) = map (map_prod id (removeClientFromNode c)) (children n)"
  "subscribers (removeClientFromNode c n) = AList.delete c (subscribers n)"
  by (cases n, simp)+

lemma lookup_removeClient:
  "node_lookup (removeClientFromNode c n) g d = (if d = c then None else node_lookup n g d)"
  by (induction g arbitrary: n) (auto simp: map_of_map_prod_id split: option.split)

lemma wf_map_map_prod_id [simp]: "wf_map (map (map_prod id f) cs) = wf_map cs"
  by (simp add: wf_map_def)

lemma wf_removeClient [simp]: "wf_node n \<Longrightarrow> wf_node (removeClientFromNode c n)"
proof (induction n)
  case (Node cs ss)
  have "wf_node (removeClientFromNode c m)" if "map_of cs k = Some m" for k m
    using Node.prems Node.IH [of "(k, m)" m] map_of_SomeD [OF that] that by auto
  with Node.prems show ?case
    by (auto simp: map_of_map_prod_id)
qed

section \<open>Matching\<close>

text \<open>
  The specification of a result of matching: \<open>None\<close> when no subscription is eligible, otherwise
  an eligible one of maximal quality of service.
\<close>

definition is_best :: "Subscriber set \<Rightarrow> Subscriber option \<Rightarrow> bool" where
  "is_best X r = (case r of None \<Rightarrow> X = {} | Some s \<Rightarrow> s \<in> X \<and> (\<forall>s'\<in>X. QoS s' \<le> QoS s))"

definition eligible :: "node \<Rightarrow> string list \<Rightarrow> string \<Rightarrow> Subscriber set" where
  "eligible n t c = {s. \<exists>f. mqtt_match f t \<and> node_lookup n f c = Some s}"

lemma mqtt_match_Nil [simp]: "mqtt_match [] t \<longleftrightarrow> t = []"
  by (auto simp: mqtt_match_def)

lemma mqtt_match_Cons:
  "mqtt_match (g # f) t \<longleftrightarrow>
     g = ''#'' \<and> f = [] \<or> (\<exists>x t'. t = x # t' \<and> level_match g x \<and> mqtt_match f t')"
  by (cases t; cases f) (auto simp: mqtt_match_def)

lemma merge_step:
  assumes "is_best X (map_of dst c)" "c = ident"
  shows "is_best (insert sub X) (map_of (case map_of dst ident of
       None \<Rightarrow> AList.update ident sub dst
     | Some existing \<Rightarrow> if QoS sub > QoS existing then AList.update ident sub dst else dst) c)"
  using assms by (fastforce simp: is_best_def split: option.splits)

lemma is_best_merge:
  assumes "wf_map src" "is_best X (map_of dst c)"
  shows "is_best (X \<union> set_option (map_of src c)) (map_of (mergeSubscribers src dst) c)"
  using assms unfolding mergeSubscribers_def
proof (induction src arbitrary: X dst)
  case (Cons p src)
  obtain ident sub where p: "p = (ident, sub)"
    by (cases p)
  have wf: "wf_map src" and new: "ident \<notin> set (keys src)"
    using Cons.prems(1) p by (auto simp: wf_map_def)
  let ?dst = "case map_of dst ident of None \<Rightarrow> AList.update ident sub dst
     | Some existing \<Rightarrow> if QoS sub > QoS existing then AList.update ident sub dst else dst"
  show ?case
  proof (cases "c = ident")
    case True
    then have "map_of src c = None"
      using new by (simp add: map_of_eq_None_iff)
    with Cons.IH [OF wf merge_step [OF Cons.prems(2) True, of sub]] True p show ?thesis
      by simp
  next
    case False
    then have "is_best X (map_of ?dst c)"
      using Cons.prems(2) by (simp split: option.split)
    with Cons.IH [OF wf this] False p show ?thesis
      by simp
  qed
qed simp

lemma eligible_Nil:
  "eligible (Node cs ss) [] c = set_option (map_of ss c)
     \<union> (case map_of cs ''#'' of None \<Rightarrow> {} | Some h \<Rightarrow> set_option (map_of (subscribers h) c))"
proof -
  have "mqtt_match f [] \<longleftrightarrow> f = [] \<or> f = [''#'']" for f
    by (cases f) (auto simp: mqtt_match_Cons)
  then have "eligible (Node cs ss) [] c =
      set_option (node_lookup (Node cs ss) [] c) \<union> set_option (node_lookup (Node cs ss) [''#''] c)"
    unfolding eligible_def by (simp only: set_eq_iff mem_Collect_eq Un_iff elem_set) blast
  then show ?thesis
    by (simp split: option.split)
qed

lemma eligible_Cons:
  "eligible (Node cs ss) (x # t) c =
     (case map_of cs ''#'' of None \<Rightarrow> {} | Some h \<Rightarrow> set_option (map_of (subscribers h) c))
     \<union> (case map_of cs x of None \<Rightarrow> {} | Some m \<Rightarrow> eligible m t c)
     \<union> (case map_of cs ''+'' of None \<Rightarrow> {} | Some m \<Rightarrow> eligible m t c)"
proof -
  have "mqtt_match f (x # t) \<longleftrightarrow>
      f = [''#''] \<or> (\<exists>f'. f = x # f' \<and> mqtt_match f' t) \<or> (\<exists>f'. f = ''+'' # f' \<and> mqtt_match f' t)" for f
    by (cases f) (auto simp: mqtt_match_Cons level_match_def)
  then have "eligible (Node cs ss) (x # t) c = set_option (node_lookup (Node cs ss) [''#''] c)
      \<union> {s. \<exists>f'. mqtt_match f' t \<and> node_lookup (Node cs ss) (x # f') c = Some s}
      \<union> {s. \<exists>f'. mqtt_match f' t \<and> node_lookup (Node cs ss) (''+'' # f') c = Some s}"
    unfolding eligible_def by (simp only: set_eq_iff mem_Collect_eq Un_iff elem_set) blast
  then show ?thesis
    by (simp add: eligible_def split: option.split)
qed

lemma is_best_hash:
  assumes "wf_node (Node cs ss)" "is_best X (map_of out c)"
  shows "is_best (X \<union> (case map_of cs ''#'' of None \<Rightarrow> {} | Some h \<Rightarrow> set_option (map_of (subscribers h) c)))
    (map_of (case map_of cs ''#'' of
               Some hChild \<Rightarrow> mergeSubscribers (subscribers hChild) out | None \<Rightarrow> out) c)"
proof (cases "map_of cs ''#''")
  case (Some h)
  then have "wf_map (subscribers h)"
    using assms(1) by (intro wf_subscribers) auto
  with is_best_merge [OF this assms(2)] Some show ?thesis
    by simp
qed (use assms in simp)

lemma is_best_matchNode:
  "wf_node n \<Longrightarrow> is_best X (map_of out c) \<Longrightarrow> is_best (X \<union> eligible n t c) (map_of (matchNode n t out) c)"
proof (induction n t out arbitrary: X rule: matchNode.induct)
  case (1 cs ss out)
  have "wf_map ss"
    using "1.prems" by simp
  from is_best_merge [OF this is_best_hash [OF "1.prems"]] show ?case
    by (simp add: eligible_Nil Un_ac)
next
  case (2 cs ss seg segs out)
  define o1 where "o1 = (case map_of cs ''#'' of
     Some hChild \<Rightarrow> mergeSubscribers (subscribers hChild) out | None \<Rightarrow> out)"
  define o2 where "o2 = (case map_of cs seg of Some child \<Rightarrow> matchNode child segs o1 | None \<Rightarrow> o1)"
  let ?E = "\<lambda>k. case map_of cs k of None \<Rightarrow> {} | Some m \<Rightarrow> eligible m segs c"
  let ?H = "case map_of cs ''#'' of None \<Rightarrow> {} | Some h \<Rightarrow> set_option (map_of (subscribers h) c)"
  have "is_best (X \<union> ?H) (map_of o1 c)"
    unfolding o1_def by (rule is_best_hash [OF "2.prems"])
  then have 2: "is_best (X \<union> ?H \<union> ?E seg) (map_of o2 c)"
    using "2.IH"(1) [OF o1_def] "2.prems"(1) unfolding o2_def by (auto split: option.split)
  then have "is_best (X \<union> ?H \<union> ?E seg \<union> ?E ''+'')
      (map_of (case map_of cs ''+'' of Some pChild \<Rightarrow> matchNode pChild segs o2 | None \<Rightarrow> o2) c)"
    using "2.IH"(2) [OF o1_def o2_def] "2.prems"(1) by (auto split: option.split)
  then show ?case
    unfolding matchNode.simps Let_def o1_def [symmetric] o2_def [symmetric] eligible_Cons Un_assoc .
qed

lemma wf_mergeSubscribers: "wf_map dst \<Longrightarrow> wf_map (mergeSubscribers src dst)"
  unfolding mergeSubscribers_def
  by (induction src arbitrary: dst) (auto split: option.split)

lemma wf_matchNode: "wf_map out \<Longrightarrow> wf_map (matchNode n t out)"
  by (induction n t out rule: matchNode.induct)
    (simp_all add: Let_def wf_mergeSubscribers split: option.split)

section \<open>Collecting the filters of a client\<close>

text \<open>The prefix a walk from the root has built when it reaches a node.\<close>

definition prefix_step :: "string \<Rightarrow> string \<Rightarrow> string" where
  "prefix_step prefix seg = (if prefix = [] then seg else prefix @ slash # seg)"

lemma collectFilters_eq:
  "collectFilters c (Node cs ss) prefix =
     (if map_of ss c \<noteq> None then [prefix] else [])
     @ concat (map (\<lambda>(seg, child). collectFilters c child (prefix_step prefix seg)) cs)"
proof -
  have "map (\<lambda>(seg, f). f (if prefix = [] then seg else prefix @ slash # seg))
      (map (map_prod id (collectFilters c)) cs)
    = map (\<lambda>(seg, child). collectFilters c child (prefix_step prefix seg)) cs"
    by (auto simp: prefix_step_def)
  then show ?thesis
    by (simp only: collectFilters.simps)
qed

lemma node_lookup_Node_Cons:
  "node_lookup (Node cs ss) (seg # f) c \<noteq> None \<longleftrightarrow>
     (\<exists>child. map_of cs seg = Some child \<and> node_lookup child f c \<noteq> None)"
  by (auto split: option.split)

lemma ex_list_cases: "(\<exists>f. P f) \<longleftrightarrow> P [] \<or> (\<exists>x f. P (x # f))"
  by (metis list.exhaust)

lemma in_collectFilters:
  "wf_node n \<Longrightarrow> x \<in> set (collectFilters c n prefix) \<longleftrightarrow>
     (\<exists>f. x = foldl prefix_step prefix f \<and> node_lookup n f c \<noteq> None)"
proof (induction n arbitrary: prefix)
  case (Node cs ss)
  have wf: "wf_map cs" "\<And>k m. map_of cs k = Some m \<Longrightarrow> wf_node m"
    using Node.prems by auto
  have IH: "x \<in> set (collectFilters c m p) \<longleftrightarrow>
      (\<exists>f. x = foldl prefix_step p f \<and> node_lookup m f c \<noteq> None)"
    if "map_of cs k = Some m" for k m p
    using Node.IH [of "(k, m)" m p] that wf(2) [OF that] map_of_SomeD [OF that] by simp
  have "x \<in> set (collectFilters c (Node cs ss) prefix) \<longleftrightarrow> map_of ss c \<noteq> None \<and> x = prefix
      \<or> (\<exists>k m. map_of cs k = Some m \<and> x \<in> set (collectFilters c m (prefix_step prefix k)))"
    unfolding collectFilters_eq wf_map_in_set [OF wf(1), symmetric] by fastforce
  also have "\<dots> \<longleftrightarrow> map_of ss c \<noteq> None \<and> x = prefix \<or> (\<exists>k f m. map_of cs k = Some m
      \<and> x = foldl prefix_step (prefix_step prefix k) f \<and> node_lookup m f c \<noteq> None)"
    using IH by blast
  also have "\<dots> \<longleftrightarrow> (\<exists>f. x = foldl prefix_step prefix f \<and> node_lookup (Node cs ss) f c \<noteq> None)"
    unfolding ex_list_cases [where P = "\<lambda>f. x = foldl prefix_step prefix f \<and> node_lookup (Node cs ss) f c \<noteq> None"]
      node_lookup_Node_Cons node_lookup_Nil foldl.simps node.sel by blast
  finally show ?case .
qed

lemma foldl_prefix_step: "p \<noteq> [] \<Longrightarrow> foldl prefix_step p f = strings_Join (p # f) slash"
proof (induction f arbitrary: p)
  case (Cons s f)
  have "foldl prefix_step (p @ slash # s) f = strings_Join ((p @ slash # s) # f) slash"
    by (rule Cons.IH) simp
  moreover have "prefix_step p s = p @ slash # s"
    using Cons.prems by (simp add: prefix_step_def)
  ultimately show ?case
    by (cases f) simp_all
qed simp

lemma foldl_prefix_step_root:
  "hd f \<noteq> [] \<Longrightarrow> foldl prefix_step [] f = strings_Join f slash"
  by (cases f) (simp_all add: prefix_step_def foldl_prefix_step)

text \<open>The root prefix is the empty string, so an empty first level leaves no trace.\<close>

lemma foldl_prefix_step_leading: "foldl prefix_step [] ([] # f) = foldl prefix_step [] f"
  by (simp add: prefix_step_def)

section \<open>The interface of a subscription index\<close>

text \<open>
  What a client of the index relies on: looking up a filter and a client after an operation.
  \<open>run\<close> executes a sequence of operations; \<open>table\<close> is its specification on plain tables.
\<close>

datatype ('f, 's, 'c) sub_op = Sub 'f 's | Unsub 'f 'c | Remove 'c

fun table_op ::
    "('s \<Rightarrow> 'c) \<Rightarrow> ('f, 's, 'c) sub_op \<Rightarrow> ('f \<Rightarrow> 'c \<Rightarrow> 's option) \<Rightarrow> ('f \<Rightarrow> 'c \<Rightarrow> 's option)" where
  "table_op client (Sub f s) T = (\<lambda>g d. if g = f \<and> d = client s then Some s else T g d)"
| "table_op client (Unsub f c) T = (\<lambda>g d. if g = f \<and> d = c then None else T g d)"
| "table_op client (Remove c) T = (\<lambda>g d. if d = c then None else T g d)"

locale subscription_index =
  fixes wf :: "'t \<Rightarrow> bool"
    and lookup :: "'t \<Rightarrow> 'f \<Rightarrow> 'c \<Rightarrow> 's option"
    and client :: "'s \<Rightarrow> 'c"
    and subscribe :: "'f \<Rightarrow> 's \<Rightarrow> 't \<Rightarrow> 't"
    and unsubscribe :: "'f \<Rightarrow> 'c \<Rightarrow> 't \<Rightarrow> 't"
    and remove :: "'c \<Rightarrow> 't \<Rightarrow> 't"
  assumes wf_subscribe_law: "wf t \<Longrightarrow> wf (subscribe f s t)"
    and wf_unsubscribe_law: "wf t \<Longrightarrow> wf (unsubscribe f c t)"
    and wf_remove_law: "wf t \<Longrightarrow> wf (remove c t)"
    and lookup_subscribe_law:
      "wf t \<Longrightarrow> lookup (subscribe f s t) g d = (if g = f \<and> d = client s then Some s else lookup t g d)"
    and lookup_unsubscribe_law:
      "wf t \<Longrightarrow> lookup (unsubscribe f c t) g d = (if g = f \<and> d = c then None else lookup t g d)"
    and lookup_remove_law:
      "wf t \<Longrightarrow> lookup (remove c t) g d = (if d = c then None else lookup t g d)"
begin

fun exec :: "('f, 's, 'c) sub_op \<Rightarrow> 't \<Rightarrow> 't" where
  "exec (Sub f s) t = subscribe f s t"
| "exec (Unsub f c) t = unsubscribe f c t"
| "exec (Remove c) t = remove c t"

lemma wf_exec: "wf t \<Longrightarrow> wf (exec p t)"
  by (cases p) (simp_all add: wf_subscribe_law wf_unsubscribe_law wf_remove_law)

lemma lookup_exec: "wf t \<Longrightarrow> lookup (exec p t) = table_op client p (lookup t)"
  by (cases p) (simp_all add: fun_eq_iff lookup_subscribe_law lookup_unsubscribe_law lookup_remove_law)

lemma run_refines:
  "wf t \<Longrightarrow> wf (fold exec ps t) \<and> lookup (fold exec ps t) = fold (table_op client) ps (lookup t)"
  by (induction ps arbitrary: t) (simp_all add: wf_exec lookup_exec)

lemma resubscribe_replaces:
  "wf t \<Longrightarrow> client s = client s' \<Longrightarrow>
     lookup (subscribe f s' (subscribe f s t)) = lookup (subscribe f s' t)"
  by (simp add: fun_eq_iff lookup_subscribe_law wf_subscribe_law)

lemma subscribe_unsubscribe:
  "wf t \<Longrightarrow> lookup t f (client s) = None \<Longrightarrow>
     lookup (unsubscribe f (client s) (subscribe f s t)) = lookup t"
  by (auto simp: fun_eq_iff lookup_subscribe_law lookup_unsubscribe_law wf_subscribe_law)

end

interpretation trie: subscription_index wf_node node_lookup ClientID
    "\<lambda>f s n. shard_subscribe n f s" "\<lambda>f c n. shard_unsubscribe n f c" removeClientFromNode
  by unfold_locales (simp_all add: lookup_subscribe lookup_unsubscribe lookup_removeClient)

end
