(* ===== verification/Metrics.thy ===== *)
theory Metrics
  imports Main
begin

text \<open>
  The metrics the code reports (\<open>internal/metrics/metrics.go\<close>). The Prometheus client library
  that keeps them is not part of the sources, so a metric has no value here: the components keep
  the sequence of calls they make, and \<open>net_calls\<close> counts the increments of a gauge less its
  decrements. A labelled metric carries its label.
\<close>

datatype metric =
    ConnectTotal
  | DisconnectTotal string
  | ActiveConnections
  | AuthFailTotal string
  | PublishTotal string
  | PublishBytes
  | DeliveredTotal
  | DroppedTotal string
  | ActiveSubscriptions
  | SubscribeTotal
  | RetainedMessages
  | ActiveSessions
  | OfflineQueuedMessages
  | BytesReceived
  | BytesSent
  | PublishLatency
  | RoutingLatency
  | APIRequestTotal string string string
  | APIRequestDuration string string
  | WSConnectionsActive
  | SLOViolationTotal string
  | CanaryStage

text \<open>\<open>Observe\<close> feeds a histogram; here with a duration in nanoseconds.\<close>

datatype metric_call = Inc metric | Dec metric | AddTo metric int | Observe metric int

fun net_call :: "metric \<Rightarrow> metric_call \<Rightarrow> int" where
  "net_call m (Inc x) = (if x = m then 1 else 0)"
| "net_call m (Dec x) = (if x = m then -1 else 0)"
| "net_call m (AddTo x k) = (if x = m then k else 0)"
| "net_call m (Observe x t) = 0"

definition net_calls :: "metric \<Rightarrow> metric_call list \<Rightarrow> int" where
  "net_calls m cs = sum_list (map (net_call m) cs)"

lemma net_calls_simps [simp]:
  "net_calls m [] = 0"
  "net_calls m (c # cs) = net_call m c + net_calls m cs"
  "net_calls m (cs @ ds) = net_calls m cs + net_calls m ds"
  by (simp_all add: net_calls_def)

lemma net_calls_replicate [simp]: "net_calls m (replicate n c) = int n * net_call m c"
  by (induction n) (simp_all add: algebra_simps)

end
