(* ===== verification/Router.thy ===== *)
theory Router
  imports Trie Metrics "HOL-Library.List_Lexorder" "HOL-Library.Char_ord"
begin

text \<open>
  The router (\<open>internal/router/router.go\<close>): 256 tries chosen by a hash of the first topic
  level, shared-subscription groups served round robin, and the retained messages. An operation
  takes the router and returns the new one, with the deliveries it makes: a delivery is a
  call of a subscriber's \<open>Deliver\<close> function, named by its handle. The clock is a parameter.

  The router is proved to be a subscription index from filter strings to subscribers; a publish
  is proved to reach every client with a matching filter once, at the lower of the two qualities
  of service, and to keep the retained message of its topic; a shared group is proved fair.
\<close>

section \<open>Data\<close>

record Retained =
  rm_Topic :: string
  rm_Payload :: bytes
  rm_QoS :: byte
  rm_Timestamp :: time

record sharedGroup =
  shareName :: string
  topicFilter :: string
  subs :: "(string, Subscriber) gomap"
  rr :: uint64

record Router =
  shards :: "node list"
  retained :: "(string, Retained) gomap"
  shared :: "(string, sharedGroup) gomap"
  retainedCount :: int
  router_metrics :: "metric_call list"

text \<open>A call of \<open>sub.Deliver\<close>: the subscriber's client and handle, and the arguments.\<close>

record Delivery =
  dv_Client :: string
  dv_Handle :: nat
  dv_Topic :: string
  dv_Payload :: bytes
  dv_QoS :: byte
  dv_Retain :: bool
  dv_PacketID :: uint16

definition numShards :: nat where
  "numShards = 256"

definition Router_New :: Router where
  "Router_New = \<lparr>shards = replicate numShards newNode, retained = [], shared = [],
     retainedCount = 0, router_metrics = []\<rparr>"

definition router_count :: "metric_call list \<Rightarrow> Router \<Rightarrow> Router" where
  "router_count cs r = r\<lparr>router_metrics := router_metrics r @ cs\<rparr>"

section \<open>Keys and shards\<close>

definition sharedStoreKey :: "string \<Rightarrow> string \<Rightarrow> string" where
  "sharedStoreKey sn tf = sn @ nul # tf"

definition sharedKeyToFilter :: "string \<Rightarrow> string" where
  "sharedKeyToFilter key =
     (let i = IndexByte key nul in
      if i < 0 then [] else share_prefix @ take (nat i) key @ slash # drop (nat i + 1) key)"

definition shardFor :: "string \<Rightarrow> nat" where
  "shardFor filter' =
     (let i = IndexByte filter' slash;
          first = (if i = -1 then filter' else take (nat i) filter')
      in unat (fnv32a (bytes_of_string first) AND (of_nat numShards - 1)))"

section \<open>Subscriptions\<close>

definition subscribeShared :: "string \<Rightarrow> string \<Rightarrow> Subscriber \<Rightarrow> Router \<Rightarrow> Router" where
  "subscribeShared sn tf sub r =
     (let key = sharedStoreKey sn tf;
          g = (case map_of (shared r) key of
                 None \<Rightarrow> \<lparr>shareName = sn, topicFilter = tf, subs = [], rr = 0\<rparr>
               | Some g \<Rightarrow> g)
      in r\<lparr>shared := AList.update key (g\<lparr>subs := AList.update (ClientID sub) sub (subs g)\<rparr>) (shared r)\<rparr>)"

definition Subscribe :: "string \<Rightarrow> Subscriber \<Rightarrow> Router \<Rightarrow> Router" where
  "Subscribe filter' sub r =
     (case ParseSharedTopicFilter filter' of
        Some (sn, tf) \<Rightarrow>
          router_count [Inc ActiveSubscriptions, Inc SubscribeTotal] (subscribeShared sn tf sub r)
      | None \<Rightarrow>
          let segs = router_splitFilter filter'; i = shardFor filter'
          in router_count [Inc ActiveSubscriptions, Inc SubscribeTotal]
               (r\<lparr>shards := (shards r)[i := shard_subscribe (shards r ! i) segs sub]\<rparr>))"

definition unsubscribeShared :: "string \<Rightarrow> string \<Rightarrow> string \<Rightarrow> Router \<Rightarrow> Router" where
  "unsubscribeShared sn tf clientID r =
     (let key = sharedStoreKey sn tf in
      case map_of (shared r) key of
        None \<Rightarrow> r
      | Some g \<Rightarrow>
          let g = g\<lparr>subs := AList.delete clientID (subs g)\<rparr>;
              sh = (if length (subs g) = 0 then AList.delete key (shared r)
                    else AList.update key g (shared r))
          in router_count [Dec ActiveSubscriptions] (r\<lparr>shared := sh\<rparr>))"

definition Unsubscribe :: "string \<Rightarrow> string \<Rightarrow> Router \<Rightarrow> Router" where
  "Unsubscribe filter' clientID r =
     (case ParseSharedTopicFilter filter' of
        Some (sn, tf) \<Rightarrow> unsubscribeShared sn tf clientID r
      | None \<Rightarrow>
          let segs = router_splitFilter filter'; i = shardFor filter'
          in router_count [Dec ActiveSubscriptions]
               (r\<lparr>shards := (shards r)[i := shard_unsubscribe (shards r ! i) segs clientID]\<rparr>))"

text \<open>The groups left, and the number of groups the client was in.\<close>

fun removeClientFromAllShared ::
    "string \<Rightarrow> (string, sharedGroup) gomap \<Rightarrow> (string, sharedGroup) gomap \<times> nat" where
  "removeClientFromAllShared clientID [] = ([], 0)"
| "removeClientFromAllShared clientID ((key, g) # sh) =
     (let (sh', removed) = removeClientFromAllShared clientID sh;
          member = (map_of (subs g) clientID \<noteq> None);
          g' = (if member then g\<lparr>subs := AList.delete clientID (subs g)\<rparr> else g)
      in (if length (subs g') = 0 then sh' else (key, g') # sh',
          if member then removed + 1 else removed))"

definition UnsubscribeAll :: "string \<Rightarrow> Router \<Rightarrow> Router" where
  "UnsubscribeAll clientID r =
     (let r = r\<lparr>shards := map (removeClientFromNode clientID) (shards r)\<rparr>;
          (sh, n) = removeClientFromAllShared clientID (shared r)
      in router_count (replicate n (Dec ActiveSubscriptions)) (r\<lparr>shared := sh\<rparr>))"

definition GetFilters :: "string \<Rightarrow> Router \<Rightarrow> string list" where
  "GetFilters clientID r =
     concat (map (\<lambda>root. collectFilters clientID root []) (shards r))
     @ concat (map (\<lambda>(key, g).
         if map_of (subs g) clientID \<noteq> None then [sharedKeyToFilter key] else []) (shared r))"

section \<open>Publishing\<close>

definition effQoS :: "byte \<Rightarrow> Subscriber \<Rightarrow> byte" where
  "effQoS qos sub = (if QoS sub < qos then QoS sub else qos)"

definition deliver_to :: "string \<Rightarrow> bytes \<Rightarrow> byte \<Rightarrow> bool \<Rightarrow> Subscriber \<Rightarrow> Delivery list" where
  "deliver_to topic payload qos retain sub =
     (case Deliver sub of
        None \<Rightarrow> []
      | Some h \<Rightarrow> [\<lparr>dv_Client = ClientID sub, dv_Handle = h, dv_Topic = topic, dv_Payload = payload,
                    dv_QoS = effQoS qos sub, dv_Retain = retain, dv_PacketID = 0\<rparr>])"

definition matchSubscribers :: "string \<Rightarrow> Router \<Rightarrow> (string, Subscriber) gomap" where
  "matchSubscribers topic r =
     (let segs = router_splitFilter topic
      in fold (\<lambda>root out. matchNode root segs out) (shards r) [])"

text \<open>
  One turn of the loop over the shared groups: the group after the turn, and the deliveries.
  \<open>rr\<close> is the value before \<open>rr.Add(1)\<close>, so \<open>next - 1\<close> is the old value also after a wrap.
\<close>

definition deliverGroup :: "string \<Rightarrow> bytes \<Rightarrow> byte \<Rightarrow> sharedGroup \<Rightarrow> sharedGroup \<times> Delivery list" where
  "deliverGroup topic payload qos g =
     (if \<not> TopicMatchesFilter topic (topicFilter g) then (g, [])
      else if length (subs g) = 0 then (g, [])
      else
        let ids = sort (keys (subs g));
            next = rr g + 1;
            idx = unat (next - 1) mod length ids;
            g' = g\<lparr>rr := next\<rparr>
        in case map_of (subs g) (ids ! idx) of
             None \<Rightarrow> (g', [])
           | Some sub \<Rightarrow> (g', deliver_to topic payload qos False sub))"

fun deliverShared_loop ::
    "string \<Rightarrow> bytes \<Rightarrow> byte \<Rightarrow> string list \<Rightarrow> (string, sharedGroup) gomap
      \<Rightarrow> (string, sharedGroup) gomap \<times> Delivery list" where
  "deliverShared_loop topic payload qos [] sh = (sh, [])"
| "deliverShared_loop topic payload qos (k # ks) sh =
     (case map_of sh k of
        None \<Rightarrow> deliverShared_loop topic payload qos ks sh
      | Some g \<Rightarrow>
          let (g', ds) = deliverGroup topic payload qos g;
              (sh', ds') = deliverShared_loop topic payload qos ks (AList.update k g' sh)
          in (sh', ds @ ds'))"

definition deliverShared :: "string \<Rightarrow> bytes \<Rightarrow> byte \<Rightarrow> Router \<Rightarrow> Router \<times> Delivery list" where
  "deliverShared topic payload qos r =
     (let (sh, ds) = deliverShared_loop topic payload qos (keys (shared r)) (shared r)
      in (r\<lparr>shared := sh\<rparr>, ds))"

definition SetRetained :: "Retained \<Rightarrow> Router \<Rightarrow> Router" where
  "SetRetained msg r =
     (let loaded = (map_of (retained r) (rm_Topic msg) \<noteq> None);
          r = r\<lparr>retained := AList.update (rm_Topic msg) msg (retained r)\<rparr>
      in if \<not> loaded then router_count [Inc RetainedMessages] (r\<lparr>retainedCount := retainedCount r + 1\<rparr>)
         else r)"

text \<open>The retention half of \<open>Publish\<close>.\<close>

definition publishRetain :: "time \<Rightarrow> string \<Rightarrow> bytes \<Rightarrow> byte \<Rightarrow> Router \<Rightarrow> Router" where
  "publishRetain now topic payload qos r =
     (if length payload = 0 then
        router_count [Dec RetainedMessages]
          (r\<lparr>retained := AList.delete topic (retained r), retainedCount := retainedCount r - 1\<rparr>)
      else
        let msg = \<lparr>rm_Topic = topic, rm_Payload = payload, rm_QoS = qos, rm_Timestamp = now\<rparr>;
            loaded = (map_of (retained r) topic \<noteq> None);
            r = r\<lparr>retained := AList.update topic msg (retained r)\<rparr>
        in if \<not> loaded then router_count [Inc RetainedMessages] (r\<lparr>retainedCount := retainedCount r + 1\<rparr>)
           else r)"

definition Publish ::
    "time \<Rightarrow> string \<Rightarrow> bytes \<Rightarrow> byte \<Rightarrow> bool \<Rightarrow> Router \<Rightarrow> Router \<times> Delivery list \<times> nat" where
  "Publish now topic payload qos retain r =
     (let r = (if retain then publishRetain now topic payload qos r else r);
          matched = matchSubscribers topic r;
          ds = concat (map (\<lambda>(_, sub). deliver_to topic payload qos False sub) matched);
          (r, ds') = deliverShared topic payload qos r;
          delivered = length ds + length ds'
      in (router_count [AddTo DeliveredTotal (int delivered)] r, ds @ ds', delivered))"

definition SendRetained :: "string \<Rightarrow> Subscriber \<Rightarrow> Router \<Rightarrow> Delivery list" where
  "SendRetained filter' sub r =
     (let matchFilter = (case ParseSharedTopicFilter filter' of Some (_, inner) \<Rightarrow> inner | None \<Rightarrow> filter')
      in concat (map (\<lambda>(topic, msg).
           if TopicMatchesFilter topic matchFilter
           then deliver_to topic (rm_Payload msg) (rm_QoS msg) True sub else []) (retained r)))"

definition GetRetained :: "string \<Rightarrow> Router \<Rightarrow> Retained option" where
  "GetRetained topic r = map_of (retained r) topic"

definition AllRetained :: "Router \<Rightarrow> Retained list" where
  "AllRetained r = map snd (retained r)"

definition Router_Stats :: "Router \<Rightarrow> (string, int) gomap" where
  "Router_Stats r = [(''retained_messages'', retainedCount r)]"

section \<open>Invariant\<close>

text \<open>
  Every subscription of a trie is a plain (not shared) filter cut into levels, stored in the
  shard of that filter under the identifier of its client; every shared group is stored
  under the key made of its name and filter and is not empty.
\<close>

definition wf_shard :: "nat \<Rightarrow> node \<Rightarrow> bool" where
  "wf_shard i n \<longleftrightarrow> wf_node n \<and>
     (\<forall>f c s. node_lookup n f c = Some s \<longrightarrow> ClientID s = c \<and>
        (\<exists>flt. f = strings_Split flt slash \<and> ParseSharedTopicFilter flt = None \<and> shardFor flt = i))"

definition wf_group :: "string \<Rightarrow> sharedGroup \<Rightarrow> bool" where
  "wf_group key g \<longleftrightarrow> wf_map (subs g) \<and> subs g \<noteq> []
     \<and> key = sharedStoreKey (shareName g) (topicFilter g)
     \<and> ParseSharedTopicFilter (share_prefix @ shareName g @ slash # topicFilter g)
         = Some (shareName g, topicFilter g)
     \<and> (\<forall>c s. map_of (subs g) c = Some s \<longrightarrow> ClientID s = c)"

definition wf_router :: "Router \<Rightarrow> bool" where
  "wf_router r \<longleftrightarrow>
     length (shards r) = numShards \<and> (\<forall>i<numShards. wf_shard i (shards r ! i))
     \<and> wf_map (shared r) \<and> (\<forall>key g. map_of (shared r) key = Some g \<longrightarrow> wf_group key g)
     \<and> wf_map (retained r) \<and> (\<forall>t m. map_of (retained r) t = Some m \<longrightarrow> rm_Topic m = t)"

lemma wf_router_count [simp]: "wf_router (router_count cs r) = wf_router r"
  by (simp add: router_count_def wf_router_def)

lemma router_count_sel [simp]:
  "shards (router_count cs r) = shards r" "retained (router_count cs r) = retained r"
  "shared (router_count cs r) = shared r" "retainedCount (router_count cs r) = retainedCount r"
  "router_metrics (router_count cs r) = router_metrics r @ cs"
  by (simp_all add: router_count_def)

lemma shardFor_less [simp]: "shardFor flt < numShards"
proof -
  have "unat (w AND 255) < 256" for w :: uint32
    using word_and_le1 [of w 255] by (simp add: word_le_nat_alt)
  then show ?thesis
    by (simp add: shardFor_def numShards_def Let_def)
qed

lemma wf_Router_New [simp]: "wf_router Router_New"
  by (simp add: wf_router_def Router_New_def wf_shard_def)

lemma sharedStoreKey_inject:
  assumes "nul \<notin> set sn" "nul \<notin> set sn'"
  shows "sharedStoreKey sn tf = sharedStoreKey sn' tf' \<longleftrightarrow> sn = sn' \<and> tf = tf'"
proof
  assume eq: "sharedStoreKey sn tf = sharedStoreKey sn' tf'"
  have "takeWhile (\<lambda>x. x \<noteq> nul) (sharedStoreKey sn tf) = sn"
      "takeWhile (\<lambda>x. x \<noteq> nul) (sharedStoreKey sn' tf') = sn'"
    using assms by (simp_all add: sharedStoreKey_def takeWhile_first)
  then have "sn = sn'"
    using eq by metis
  with eq show "sn = sn' \<and> tf = tf'"
    by (simp add: sharedStoreKey_def)
qed simp

lemma Parse_SomeD:
  assumes "ParseSharedTopicFilter flt = Some (sn, tf)"
  shows "nul \<notin> set sn" and "flt = share_prefix @ sn @ slash # tf" and "slash \<notin> set sn"
  using assms by (auto simp: ParseSharedTopicFilter_iff share_name_ok_def list_ex_iff)

lemma Parse_key_inject:
  assumes "ParseSharedTopicFilter g = Some (sn', tf')" "ParseSharedTopicFilter flt = Some (sn, tf)"
  shows "sharedStoreKey sn' tf' = sharedStoreKey sn tf \<longleftrightarrow> g = flt"
proof -
  have "sharedStoreKey sn' tf' = sharedStoreKey sn tf \<longleftrightarrow> sn' = sn \<and> tf' = tf"
    by (intro sharedStoreKey_inject Parse_SomeD(1) [OF assms(1)] Parse_SomeD(1) [OF assms(2)])
  moreover have "sn' = sn \<and> tf' = tf \<longleftrightarrow> g = flt"
    using Parse_SomeD(2) [OF assms(1)] Parse_SomeD(2) [OF assms(2)] assms
    by (metis option.inject prod.inject)
  ultimately show ?thesis
    by simp
qed

section \<open>The router as a subscription index\<close>

definition router_lookup :: "Router \<Rightarrow> string \<Rightarrow> string \<Rightarrow> Subscriber option" where
  "router_lookup r flt c =
     (case ParseSharedTopicFilter flt of
        Some (sn, tf) \<Rightarrow> Option.bind (map_of (shared r) (sharedStoreKey sn tf)) (\<lambda>g. map_of (subs g) c)
      | None \<Rightarrow> node_lookup (shards r ! shardFor flt) (strings_Split flt slash) c)"

lemma strings_Split_inject [simp]: "strings_Split s c = strings_Split t c \<longleftrightarrow> s = t"
  by (metis strings_Join_Split)

lemma wf_router_shard: "wf_router r \<Longrightarrow> wf_shard (shardFor flt) (shards r ! shardFor flt)"
  by (simp add: wf_router_def)

lemma wf_shard_subscribe:
  assumes "wf_shard (shardFor flt) n" "ParseSharedTopicFilter flt = None"
  shows "wf_shard (shardFor flt) (shard_subscribe n (strings_Split flt slash) sub)"
  using assms by (auto simp: wf_shard_def lookup_subscribe)

lemma wf_shard_unsubscribe: "wf_shard i n \<Longrightarrow> wf_shard i (shard_unsubscribe n f c)"
  by (auto simp: wf_shard_def lookup_unsubscribe split: if_splits)

lemma wf_shard_remove: "wf_shard i n \<Longrightarrow> wf_shard i (removeClientFromNode c n)"
  by (auto simp: wf_shard_def lookup_removeClient split: if_splits)

lemma wf_router_upd_shard:
  assumes "wf_router r" "wf_shard i n"
  shows "wf_router (r\<lparr>shards := (shards r)[i := n]\<rparr>)"
proof -
  have "wf_shard j ((shards r)[i := n] ! j)" if "j < numShards" for j
    using assms that by (cases "i = j") (auto simp: wf_router_def)
  with assms(1) show ?thesis
    by (simp add: wf_router_def)
qed

lemma wf_router_upd_shared:
  assumes "wf_router r" "wf_group key g"
  shows "wf_router (r\<lparr>shared := AList.update key g (shared r)\<rparr>)"
  using assms by (auto simp: wf_router_def)

lemma wf_router_del_shared:
  "wf_router r \<Longrightarrow> wf_router (r\<lparr>shared := AList.delete key (shared r)\<rparr>)"
  by (auto simp: wf_router_def)

lemma wf_group_subscribe:
  assumes "ParseSharedTopicFilter flt = Some (sn, tf)"
    and "\<And>g. map_of (shared r) (sharedStoreKey sn tf) = Some g \<Longrightarrow> wf_group (sharedStoreKey sn tf) g"
  defines "g \<equiv> case map_of (shared r) (sharedStoreKey sn tf) of
      None \<Rightarrow> \<lparr>shareName = sn, topicFilter = tf, subs = [], rr = 0\<rparr> | Some g \<Rightarrow> g"
  shows "wf_group (sharedStoreKey sn tf) (g\<lparr>subs := AList.update (ClientID sub) sub (subs g)\<rparr>)"
  using assms(1,2) Parse_SomeD(2) [OF assms(1)] unfolding g_def
  by (cases "map_of (shared r) (sharedStoreKey sn tf)")
    (auto simp: wf_group_def simp flip: update.simps(1))

lemma wf_Subscribe:
  assumes "wf_router r"
  shows "wf_router (Subscribe flt sub r)"
proof (cases "ParseSharedTopicFilter flt")
  case None
  with assms show ?thesis
    by (simp add: Subscribe_def Let_def split_eqs wf_router_upd_shard wf_shard_subscribe wf_router_shard)
next
  case (Some p)
  obtain sn tf where p: "p = (sn, tf)"
    by (cases p)
  have "wf_router (subscribeShared sn tf sub r)"
    unfolding subscribeShared_def Let_def using assms Some p
    by (intro wf_router_upd_shared wf_group_subscribe) (auto simp: wf_router_def)
  with Some p show ?thesis
    by (simp add: Subscribe_def)
qed

lemma wf_Unsubscribe:
  assumes "wf_router r"
  shows "wf_router (Unsubscribe flt c r)"
proof (cases "ParseSharedTopicFilter flt")
  case None
  with assms show ?thesis
    by (simp add: Unsubscribe_def Let_def wf_router_upd_shard wf_shard_unsubscribe wf_router_shard)
next
  case (Some p)
  obtain sn tf where p: "p = (sn, tf)"
    by (cases p)
  let ?k = "sharedStoreKey sn tf"
  have "wf_router (unsubscribeShared sn tf c r)"
  proof (cases "map_of (shared r) ?k")
    case (Some g)
    then have "wf_group ?k g"
      using assms by (simp add: wf_router_def)
    then have "subs g' \<noteq> [] \<Longrightarrow> wf_group ?k g'" if "g' = g\<lparr>subs := AList.delete c (subs g)\<rparr>" for g'
      using that by (auto simp: wf_group_def)
    with Some assms show ?thesis
      by (auto simp: unsubscribeShared_def Let_def wf_router_del_shared intro!: wf_router_upd_shared)
  qed (use assms in \<open>simp add: unsubscribeShared_def\<close>)
  with Some p show ?thesis
    by (simp add: Unsubscribe_def)
qed

definition drop_client :: "string \<Rightarrow> sharedGroup \<Rightarrow> sharedGroup" where
  "drop_client c g = g\<lparr>subs := AList.delete c (subs g)\<rparr>"

lemma removeShared_eq:
  "removeClientFromAllShared c sh =
     (filter (\<lambda>(_, g). subs g \<noteq> []) (map (map_prod id (drop_client c)) sh),
      length (filter (\<lambda>(_, g). map_of (subs g) c \<noteq> None) sh))"
proof (induction sh)
  case (Cons p sh)
  obtain key g where p: "p = (key, g)"
    by (cases p)
  have "map_of (subs g) c = None \<Longrightarrow> drop_client c g = g"
    by (simp add: drop_client_def delete_id map_of_eq_None_iff)
  with Cons show ?case
    by (cases "map_of (subs g) c") (simp_all add: p Let_def drop_client_def [symmetric])
qed simp

lemma UnsubscribeAll_sel:
  "shards (UnsubscribeAll c r) = map (removeClientFromNode c) (shards r)"
  "shared (UnsubscribeAll c r) =
     filter (\<lambda>(_, g). subs g \<noteq> []) (map (map_prod id (drop_client c)) (shared r))"
  "retained (UnsubscribeAll c r) = retained r"
  by (simp_all add: UnsubscribeAll_def Let_def removeShared_eq)

lemma map_of_UnsubscribeAll:
  "wf_map (shared r) \<Longrightarrow> map_of (shared (UnsubscribeAll c r)) k =
     Option.bind (map_of (shared r) k) (\<lambda>g. if subs (drop_client c g) \<noteq> [] then Some (drop_client c g) else None)"
  by (simp add: UnsubscribeAll_sel gomap_filter map_of_map_prod_id split: option.split)

lemma wf_group_drop_client:
  "wf_group k g \<Longrightarrow> subs (drop_client c g) \<noteq> [] \<Longrightarrow> wf_group k (drop_client c g)"
  by (auto simp: wf_group_def drop_client_def)

lemma wf_UnsubscribeAll:
  assumes "wf_router r"
  shows "wf_router (UnsubscribeAll c r)"
proof -
  have wf: "wf_map (shared r)"
    using assms by (simp add: wf_router_def)
  have "wf_group k g" if g: "map_of (shared (UnsubscribeAll c r)) k = Some g" for k g
  proof -
    obtain h where "map_of (shared r) k = Some h" "g = drop_client c h" "subs g \<noteq> []"
      using g by (auto simp: map_of_UnsubscribeAll [OF wf] split: bind_splits if_splits)
    then show ?thesis
      using assms by (auto simp: wf_router_def intro: wf_group_drop_client)
  qed
  moreover have "wf_map (shared (UnsubscribeAll c r))"
    using wf by (simp add: UnsubscribeAll_sel(2))
  ultimately show ?thesis
    using assms by (simp add: wf_router_def UnsubscribeAll_sel(1,3) wf_shard_remove)
qed

lemma lookup_Subscribe:
  assumes "wf_router r"
  shows "router_lookup (Subscribe flt sub r) g d =
     (if g = flt \<and> d = ClientID sub then Some sub else router_lookup r g d)"
proof (cases "ParseSharedTopicFilter flt")
  case None
  have "length (shards r) = numShards"
    using assms by (simp add: wf_router_def)
  with None show ?thesis
    by (cases "shardFor g = shardFor flt")
      (auto simp: router_lookup_def Subscribe_def Let_def split_eqs lookup_subscribe split: option.split)
next
  case (Some p)
  obtain sn tf where p: "p = (sn, tf)"
    by (cases p)
  have inj: "sharedStoreKey sn' tf' = sharedStoreKey sn tf \<longleftrightarrow> g = flt"
    if "ParseSharedTopicFilter g = Some (sn', tf')" for sn' tf'
    using Parse_key_inject [OF that] Some p by simp
  show ?thesis
  proof (cases "ParseSharedTopicFilter g")
    case None
    with Some p show ?thesis
      by (auto simp: router_lookup_def Subscribe_def subscribeShared_def Let_def)
  next
    case (Some q)
    obtain sn' tf' where q: "q = (sn', tf')"
      by (cases q)
    show ?thesis
      using inj [of sn' tf'] Some q \<open>ParseSharedTopicFilter flt = Some p\<close> p
      by (auto simp: router_lookup_def Subscribe_def subscribeShared_def Let_def split: option.split)
  qed
qed

lemma lookup_Unsubscribe:
  assumes "wf_router r"
  shows "router_lookup (Unsubscribe flt c r) g d =
     (if g = flt \<and> d = c then None else router_lookup r g d)"
proof (cases "ParseSharedTopicFilter flt")
  case None
  have "length (shards r) = numShards"
    using assms by (simp add: wf_router_def)
  with None show ?thesis
    by (cases "shardFor g = shardFor flt")
      (auto simp: router_lookup_def Unsubscribe_def Let_def split_eqs lookup_unsubscribe split: option.split)
next
  case (Some p)
  obtain sn tf where p: "p = (sn, tf)"
    by (cases p)
  let ?k = "sharedStoreKey sn tf"
  have get: "Option.bind (map_of (shared (unsubscribeShared sn tf c r)) k) (\<lambda>g. map_of (subs g) d)
      = (if k = ?k \<and> d = c then None else Option.bind (map_of (shared r) k) (\<lambda>g. map_of (subs g) d))" for k
  proof (cases "map_of (shared r) ?k")
    case (Some g)
    have "map_of (AList.delete c (subs g)) d = (if d = c then None else map_of (subs g) d)"
      by simp
    then have "AList.delete c (subs g) = [] \<Longrightarrow> d \<noteq> c \<Longrightarrow> map_of (subs g) d = None"
      by (metis map_of.simps(1))
    with Some show ?thesis
      by (auto simp: unsubscribeShared_def Let_def)
  qed (auto simp: unsubscribeShared_def Let_def)
  have "shards (unsubscribeShared sn tf c r) = shards r"
    by (simp add: unsubscribeShared_def Let_def split: option.split)
  then have "router_lookup (unsubscribeShared sn tf c r) g d =
      (if g = flt \<and> d = c then None else router_lookup r g d)"
    using Some p Parse_key_inject [of g _ _ flt sn tf]
    by (cases "ParseSharedTopicFilter g") (simp_all add: router_lookup_def get split_beta, auto)
  with Some p show ?thesis
    by (simp add: Unsubscribe_def)
qed

lemma lookup_UnsubscribeAll:
  assumes "wf_router r"
  shows "router_lookup (UnsubscribeAll c r) g d = (if d = c then None else router_lookup r g d)"
proof (cases "ParseSharedTopicFilter g")
  case None
  have "length (shards r) = numShards"
    using assms by (simp add: wf_router_def)
  with None show ?thesis
    by (simp add: router_lookup_def UnsubscribeAll_sel(1) lookup_removeClient)
next
  case (Some p)
  obtain sn tf where p: "p = (sn, tf)"
    by (cases p)
  have wf: "wf_map (shared r)"
    using assms by (simp add: wf_router_def)
  have "map_of (subs (drop_client c h)) d = (if d = c then None else map_of (subs h) d)" for h
    by (simp add: drop_client_def)
  then have "subs (drop_client c h) = [] \<Longrightarrow> d \<noteq> c \<Longrightarrow> map_of (subs h) d = None" for h
    by (metis map_of.simps(1))
  moreover have "map_of (subs (drop_client c h)) c = None" for h
    by (simp add: drop_client_def)
  ultimately show ?thesis
    using Some p by (cases "map_of (shared r) (sharedStoreKey sn tf)")
      (simp_all add: router_lookup_def map_of_UnsubscribeAll [OF wf] drop_client_def)
qed

lemma router_lookup_New [simp]: "router_lookup Router_New g d = None"
  by (simp add: router_lookup_def Router_New_def split: option.split)

interpretation router: subscription_index wf_router router_lookup ClientID Subscribe Unsubscribe UnsubscribeAll
  by unfold_locales
    (simp_all add: wf_Subscribe wf_Unsubscribe wf_UnsubscribeAll lookup_Subscribe lookup_Unsubscribe
      lookup_UnsubscribeAll)

section \<open>Matching across the shards\<close>

definition plain_eligible :: "Router \<Rightarrow> string \<Rightarrow> string \<Rightarrow> Subscriber set" where
  "plain_eligible r topic c = {s. \<exists>flt. ParseSharedTopicFilter flt = None
     \<and> mqtt_match (strings_Split flt slash) (strings_Split topic slash) \<and> router_lookup r flt c = Some s}"

lemma is_best_fold:
  "\<forall>n\<in>set ns. wf_node n \<Longrightarrow> is_best X (map_of out c) \<Longrightarrow>
     is_best (X \<union> (\<Union>n\<in>set ns. eligible n t c)) (map_of (fold (\<lambda>n out. matchNode n t out) ns out) c)"
proof (induction ns arbitrary: X out)
  case (Cons n ns)
  then have "is_best (X \<union> eligible n t c) (map_of (matchNode n t out) c)"
    by (intro is_best_matchNode) auto
  with Cons.prems(1) show ?case
    using Cons.IH [of "X \<union> eligible n t c" "matchNode n t out"] by (simp add: Un_assoc)
qed simp

lemma wf_map_fold_match: "wf_map out \<Longrightarrow> wf_map (fold (\<lambda>n out. matchNode n t out) ns out)"
  by (induction ns arbitrary: out) (simp_all add: wf_matchNode)

lemma wf_matchSubscribers: "wf_map (matchSubscribers topic r)"
  by (simp add: matchSubscribers_def Let_def wf_map_fold_match)

lemma plain_eligible_eq:
  assumes "wf_router r"
  shows "plain_eligible r topic c = (\<Union>n\<in>set (shards r). eligible n (strings_Split topic slash) c)"
proof (intro equalityI subsetI)
  fix s assume "s \<in> plain_eligible r topic c"
  then obtain flt where "mqtt_match (strings_Split flt slash) (strings_Split topic slash)"
      "node_lookup (shards r ! shardFor flt) (strings_Split flt slash) c = Some s"
    by (auto simp: plain_eligible_def router_lookup_def)
  moreover have "shards r ! shardFor flt \<in> set (shards r)"
    using assms by (simp add: wf_router_def)
  ultimately show "s \<in> (\<Union>n\<in>set (shards r). eligible n (strings_Split topic slash) c)"
    by (auto simp: eligible_def)
next
  fix s assume "s \<in> (\<Union>n\<in>set (shards r). eligible n (strings_Split topic slash) c)"
  then obtain i f where i: "i < numShards" and f: "mqtt_match f (strings_Split topic slash)"
      and s: "node_lookup (shards r ! i) f c = Some s"
    using assms by (auto simp: eligible_def in_set_conv_nth wf_router_def)
  have "wf_shard i (shards r ! i)"
    using assms i by (simp add: wf_router_def)
  then obtain flt where "f = strings_Split flt slash" "ParseSharedTopicFilter flt = None" "shardFor flt = i"
    using s unfolding wf_shard_def by blast
  with f s show "s \<in> plain_eligible r topic c"
    by (auto simp: plain_eligible_def router_lookup_def)
qed

lemma is_best_matchSubscribers:
  assumes "wf_router r"
  shows "is_best (plain_eligible r topic c) (map_of (matchSubscribers topic r) c)"
proof -
  have "\<forall>n\<in>set (shards r). wf_node n"
    using assms by (auto simp: wf_router_def wf_shard_def in_set_conv_nth)
  from is_best_fold [OF this, of "{}" "[]" c "strings_Split topic slash"] show ?thesis
    by (simp add: plain_eligible_eq [OF assms] matchSubscribers_def Let_def split_eqs is_best_def)
qed

lemma plain_eligible_ClientID:
  assumes "wf_router r" "s \<in> plain_eligible r topic c"
  shows "ClientID s = c"
  using assms wf_router_shard [OF assms(1)]
  by (auto simp: plain_eligible_def router_lookup_def wf_shard_def)

lemma matchSubscribers_ClientID:
  assumes "wf_router r" "map_of (matchSubscribers topic r) c = Some s"
  shows "ClientID s = c"
  using is_best_matchSubscribers [OF assms(1), of topic c] assms plain_eligible_ClientID
  by (auto simp: is_best_def)

section \<open>Deliveries of a publish\<close>

text \<open>
  What one client is sent for a set of eligible subscriptions: nothing if the set is empty,
  otherwise one message, for a subscription of maximal quality of service.
\<close>

definition message_for :: "string \<Rightarrow> bytes \<Rightarrow> byte \<Rightarrow> bool \<Rightarrow> Subscriber \<Rightarrow> Delivery list" where
  "message_for topic payload qos retain s =
     (case Deliver s of
        None \<Rightarrow> []
      | Some h \<Rightarrow> [\<lparr>dv_Client = ClientID s, dv_Handle = h, dv_Topic = topic, dv_Payload = payload,
                    dv_QoS = min qos (QoS s), dv_Retain = retain, dv_PacketID = 0\<rparr>])"

lemma deliver_to_eq: "deliver_to topic payload qos retain s = message_for topic payload qos retain s"
  by (auto simp: deliver_to_def message_for_def effQoS_def min_def split: option.split)

definition delivers_best :: "Subscriber set \<Rightarrow> string \<Rightarrow> bytes \<Rightarrow> byte \<Rightarrow> Delivery list \<Rightarrow> bool" where
  "delivers_best X topic payload qos l \<longleftrightarrow>
     X = {} \<and> l = [] \<or>
     (\<exists>s\<in>X. (\<forall>s'\<in>X. QoS s' \<le> QoS s) \<and> l = message_for topic payload qos False s)"

lemma filter_deliver_to:
  "filter (\<lambda>d. dv_Client d = c) (deliver_to topic payload qos rt sub) =
     (if ClientID sub = c then deliver_to topic payload qos rt sub else [])"
  by (simp add: deliver_to_def split: option.split)

lemma filter_deliveries:
  assumes "wf_map m" "\<And>k s. map_of m k = Some s \<Longrightarrow> ClientID s = k"
  shows "filter (\<lambda>d. dv_Client d = c) (concat (map (\<lambda>(_, sub). deliver_to topic payload qos rt sub) m))
    = (case map_of m c of None \<Rightarrow> [] | Some s \<Rightarrow> deliver_to topic payload qos rt s)"
  using assms
proof (induction m)
  case (Cons p m)
  obtain k s where p: "p = (k, s)"
    by (cases p)
  have wf: "wf_map m" "map_of m k = None"
    using Cons.prems(1) p by (auto simp: wf_map_def map_of_eq_None_iff)
  have "ClientID s = k"
    using Cons.prems(2) [of k s] p by simp
  moreover have "\<And>k' s'. map_of m k' = Some s' \<Longrightarrow> ClientID s' = k'"
    using Cons.prems(2) p wf(2) by (metis map_of_Cons_code(2) option.distinct(1))
  ultimately show ?case
    using Cons.IH wf p by (auto simp: filter_deliver_to)
qed simp

lemma filter_matched:
  assumes "wf_router r"
  shows "delivers_best (plain_eligible r topic c) topic payload qos
    (filter (\<lambda>d. dv_Client d = c)
      (concat (map (\<lambda>(_, sub). deliver_to topic payload qos False sub) (matchSubscribers topic r))))"
proof -
  have "filter (\<lambda>d. dv_Client d = c)
      (concat (map (\<lambda>(_, sub). deliver_to topic payload qos False sub) (matchSubscribers topic r)))
    = (case map_of (matchSubscribers topic r) c of None \<Rightarrow> []
       | Some s \<Rightarrow> deliver_to topic payload qos False s)"
    by (intro filter_deliveries wf_matchSubscribers matchSubscribers_ClientID [OF assms])
  with is_best_matchSubscribers [OF assms, of topic c] show ?thesis
    by (cases "map_of (matchSubscribers topic r) c") (auto simp: is_best_def delivers_best_def deliver_to_eq)
qed

text \<open>The member of a group the next message goes to.\<close>

definition group_pick :: "sharedGroup \<Rightarrow> string" where
  "group_pick g = sort (keys (subs g)) ! (unat (rr g) mod length (subs g))"

lemma group_pick_member:
  assumes "subs g \<noteq> []"
  obtains s where "map_of (subs g) (group_pick g) = Some s"
proof -
  have "group_pick g \<in> set (sort (keys (subs g)))"
    unfolding group_pick_def using assms by (intro nth_mem) simp
  then have "group_pick g \<in> dom (map_of (subs g))"
    by (simp add: dom_map_of_conv_image_fst)
  with that show ?thesis
    by blast
qed

lemma deliverGroup_eq:
  assumes "TopicMatchesFilter topic (topicFilter g)" "map_of (subs g) (group_pick g) = Some s"
  shows "deliverGroup topic payload qos g = (g\<lparr>rr := rr g + 1\<rparr>, deliver_to topic payload qos False s)"
proof -
  have "subs g \<noteq> []"
    using assms(2) by auto
  with assms show ?thesis
    by (simp add: deliverGroup_def Let_def group_pick_def)
qed

lemma deliverGroup_keeps:
  "subs (fst (deliverGroup topic payload qos g)) = subs g"
  "topicFilter (fst (deliverGroup topic payload qos g)) = topicFilter g"
  "shareName (fst (deliverGroup topic payload qos g)) = shareName g"
  by (simp_all add: deliverGroup_def Let_def split: option.split)

lemma deliverShared_loop_eq:
  assumes "distinct ks"
  shows "deliverShared_loop topic payload qos ks sh =
     (fold (\<lambda>k sh. case map_of sh k of None \<Rightarrow> sh
              | Some g \<Rightarrow> AList.update k (fst (deliverGroup topic payload qos g)) sh) ks sh,
      concat (map (\<lambda>k. case map_of sh k of None \<Rightarrow> []
              | Some g \<Rightarrow> snd (deliverGroup topic payload qos g)) ks))"
  using assms
proof (induction ks arbitrary: sh)
  case (Cons k ks)
  let ?D = "\<lambda>sh x. case map_of sh x of None \<Rightarrow> [] | Some g \<Rightarrow> snd (deliverGroup topic payload qos g)"
  have "map (?D (AList.update k g sh)) ks = map (?D sh) ks" for g
    using Cons.prems by (intro map_cong refl) auto
  with Cons show ?case
    by (cases "map_of sh k") (simp_all only: deliverShared_loop.simps fold_simps list.map concat.simps
        option.case distinct.simps Let_def split_beta fst_conv snd_conv append_Nil)
qed simp

lemma map_of_fold_deliver:
  assumes "distinct ks"
  shows "map_of (fold (\<lambda>k sh. case map_of sh k of None \<Rightarrow> sh
              | Some g \<Rightarrow> AList.update k (f g) sh) ks sh) x
    = (if x \<in> set ks then map_option f (map_of sh x) else map_of sh x)"
  using assms by (induction ks arbitrary: sh) (auto split: option.split)

lemma wf_map_fold_deliver:
  "wf_map sh \<Longrightarrow> wf_map (fold (\<lambda>k sh. case map_of sh k of None \<Rightarrow> sh
              | Some g \<Rightarrow> AList.update k (f g) sh) ks sh)"
  by (induction ks arbitrary: sh) (auto split: option.split)

lemma deliverShared_groups:
  assumes "wf_map (shared r)"
  shows "map_of (shared (fst (deliverShared topic payload qos r))) k =
      map_option (\<lambda>g. fst (deliverGroup topic payload qos g)) (map_of (shared r) k)"
    and "snd (deliverShared topic payload qos r) =
      concat (map (\<lambda>(_, g). snd (deliverGroup topic payload qos g)) (shared r))"
    and "wf_map (shared (fst (deliverShared topic payload qos r)))"
proof -
  have d: "distinct (keys (shared r))"
    using assms by (simp add: wf_map_def)
  show "map_of (shared (fst (deliverShared topic payload qos r))) k =
      map_option (\<lambda>g. fst (deliverGroup topic payload qos g)) (map_of (shared r) k)"
    using map_of_eq_None_iff [of "shared r" k]
    by (cases "k \<in> set (keys (shared r))")
      (auto simp: deliverShared_def deliverShared_loop_eq [OF d] map_of_fold_deliver [OF d])
  show "wf_map (shared (fst (deliverShared topic payload qos r)))"
    by (simp add: deliverShared_def deliverShared_loop_eq [OF d] wf_map_fold_deliver assms)
  have "map (\<lambda>k. case map_of (shared r) k of None \<Rightarrow> []
          | Some g \<Rightarrow> snd (deliverGroup topic payload qos g)) (keys (shared r))
      = map (\<lambda>(_, g). snd (deliverGroup topic payload qos g)) (shared r)"
    using assms by (auto simp: wf_map_in_set)
  then show "snd (deliverShared topic payload qos r) =
      concat (map (\<lambda>(_, g). snd (deliverGroup topic payload qos g)) (shared r))"
    by (simp only: deliverShared_def deliverShared_loop_eq [OF d] Let_def prod.case snd_conv)
qed

lemma deliverShared_sel [simp]:
  "shards (fst (deliverShared topic payload qos r)) = shards r"
  "retained (fst (deliverShared topic payload qos r)) = retained r"
  "retainedCount (fst (deliverShared topic payload qos r)) = retainedCount r"
  by (simp_all add: deliverShared_def split_beta)

text \<open>What a publish sends to one client apart from the shared groups.\<close>

lemma Publish_parts:
  assumes "Publish now topic payload qos retain r = (r', ds, n)"
  defines "r1 \<equiv> if retain then publishRetain now topic payload qos r else r"
  shows "ds = concat (map (\<lambda>(_, sub). deliver_to topic payload qos False sub) (matchSubscribers topic r1))
        @ snd (deliverShared topic payload qos r1)"
    and "n = length ds"
    and "r' = router_count [AddTo DeliveredTotal (int n)] (fst (deliverShared topic payload qos r1))"
  using assms(1) unfolding r1_def by (auto simp: Publish_def Let_def split_beta)

lemma publishRetain_sel [simp]:
  "shards (publishRetain now topic payload qos r) = shards r"
  "shared (publishRetain now topic payload qos r) = shared r"
  by (simp_all add: publishRetain_def Let_def)

lemma retained_publishRetain:
  "map_of (retained (publishRetain now topic payload qos r)) =
     (map_of (retained r))(topic := if payload = [] then None
        else Some \<lparr>rm_Topic = topic, rm_Payload = payload, rm_QoS = qos, rm_Timestamp = now\<rparr>)"
  by (simp add: publishRetain_def Let_def)

lemma wf_publishRetain: "wf_router r \<Longrightarrow> wf_router (publishRetain now topic payload qos r)"
  by (auto simp: publishRetain_def Let_def wf_router_def)

lemma wf_SetRetained: "wf_router r \<Longrightarrow> wf_router (SetRetained msg r)"
  by (auto simp: SetRetained_def Let_def wf_router_def)

lemma wf_deliverShared:
  assumes "wf_router r"
  shows "wf_router (fst (deliverShared topic payload qos r))"
proof -
  have wf: "wf_map (shared r)"
    using assms by (simp add: wf_router_def)
  have "wf_group k (fst (deliverGroup topic payload qos g))" if "wf_group k g" for k g
    using that by (simp add: wf_group_def deliverGroup_keeps)
  then show ?thesis
    using assms deliverShared_groups(1,3) [OF wf, of topic payload qos]
    by (auto simp: wf_router_def)
qed

lemma matchSubscribers_cong: "shards r = shards r' \<Longrightarrow> matchSubscribers topic r = matchSubscribers topic r'"
  by (simp add: matchSubscribers_def)

lemma deliverShared_cong:
  "shared r = shared r' \<Longrightarrow> snd (deliverShared topic payload qos r) = snd (deliverShared topic payload qos r')"
  by (simp add: deliverShared_def split_beta)

lemma wf_Publish:
  assumes "wf_router r" "Publish now topic payload qos retain r = (r', ds, n)"
  shows "wf_router r'"
  unfolding Publish_parts(3) [OF assms(2)] using assms(1) by (simp add: wf_deliverShared wf_publishRetain)

lemma Publish_deliveries:
  assumes "Publish now topic payload qos retain r = (r', ds, n)"
  shows "ds = concat (map (\<lambda>(_, sub). deliver_to topic payload qos False sub) (matchSubscribers topic r))
        @ snd (deliverShared topic payload qos r)"
proof -
  let ?r = "if retain then publishRetain now topic payload qos r else r"
  have "matchSubscribers topic ?r = matchSubscribers topic r"
      "snd (deliverShared topic payload qos ?r) = snd (deliverShared topic payload qos r)"
    by (intro matchSubscribers_cong deliverShared_cong, simp)+
  then show ?thesis
    unfolding Publish_parts(1) [OF assms] by (simp only:)
qed

lemma Publish_shards:
  assumes "Publish now topic payload qos retain r = (r', ds, n)"
  shows "shards r' = shards r"
  unfolding Publish_parts(3) [OF assms] by simp

lemma Publish_lookup:
  assumes "wf_router r" "Publish now topic payload qos retain r = (r', ds, n)"
  shows "router_lookup r' = router_lookup r"
proof -
  have wf: "wf_map (shared r)"
    using assms(1) by (simp add: wf_router_def)
  have "map_of (shared r') k = map_option (\<lambda>g. fst (deliverGroup topic payload qos g)) (map_of (shared r) k)" for k
    unfolding Publish_parts(3) [OF assms(2)] using wf by (simp add: deliverShared_groups(1))
  then have "Option.bind (map_of (shared r') k) (\<lambda>g. map_of (subs g) c)
      = Option.bind (map_of (shared r) k) (\<lambda>g. map_of (subs g) c)" for k c
    by (cases "map_of (shared r) k") (simp_all add: deliverGroup_keeps)
  then show ?thesis
    using Publish_shards [OF assms(2)]
    by (simp add: fun_eq_iff router_lookup_def split: option.split)
qed

section \<open>Fairness of a shared group\<close>

definition after_deliveries :: "string \<Rightarrow> bytes \<Rightarrow> byte \<Rightarrow> nat \<Rightarrow> sharedGroup \<Rightarrow> sharedGroup" where
  "after_deliveries topic payload qos j = ((\<lambda>g. fst (deliverGroup topic payload qos g)) ^^ j)"

lemma after_deliveries_keeps:
  "subs (after_deliveries topic payload qos j g) = subs g"
  "topicFilter (after_deliveries topic payload qos j g) = topicFilter g"
  by (induction j) (simp_all add: after_deliveries_def deliverGroup_keeps)

lemma after_deliveries_rr:
  assumes "TopicMatchesFilter topic (topicFilter g)" "subs g \<noteq> []"
  shows "rr (after_deliveries topic payload qos j g) = rr g + of_nat j"
proof (induction j)
  case (Suc j)
  let ?g = "after_deliveries topic payload qos j g"
  have "subs ?g \<noteq> []" "TopicMatchesFilter topic (topicFilter ?g)"
    using assms by (simp_all add: after_deliveries_keeps)
  then have "fst (deliverGroup topic payload qos ?g) = ?g\<lparr>rr := rr ?g + 1\<rparr>"
    by (auto elim: group_pick_member simp: deliverGroup_eq)
  with Suc show ?case
    by (simp add: after_deliveries_def add.assoc)
qed (simp add: after_deliveries_def)

lemma unat_add_small: "unat (w :: uint64) + j < 2 ^ 64 \<Longrightarrow> unat (w + of_nat j) = unat w + j"
  by (simp add: unat_word_ariths unsigned_of_nat take_bit_nat_eq_self)

lemma shared_group_rotation:
  assumes "TopicMatchesFilter topic (topicFilter g)" "subs g \<noteq> []"
    and "unat (rr g) + length (subs g) \<le> 2 ^ 64"
  shows "map (\<lambda>j. group_pick (after_deliveries topic payload qos j g)) [0..<length (subs g)]
    = rotate (unat (rr g)) (sort (keys (subs g)))"
proof (rule nth_equalityI)
  fix j assume "j < length (map (\<lambda>j. group_pick (after_deliveries topic payload qos j g)) [0..<length (subs g)])"
  then have j: "j < length (subs g)"
    by simp
  then have "unat (rr g + of_nat j) = unat (rr g) + j"
    using assms(3) by (intro unat_add_small) simp
  with j show "map (\<lambda>j. group_pick (after_deliveries topic payload qos j g)) [0..<length (subs g)] ! j
      = rotate (unat (rr g)) (sort (keys (subs g))) ! j"
    by (simp add: group_pick_def after_deliveries_keeps after_deliveries_rr [OF assms(1,2)] nth_rotate)
qed simp

section \<open>Filters of a client\<close>

lemma hd_strings_Split: "hd (strings_Split s c) = [] \<longleftrightarrow> s = [] \<or> hd s = c"
  by (cases s) (auto split: list.split)

lemma prefix_step_Split:
  assumes "flt = [] \<or> hd flt \<noteq> slash"
  shows "foldl prefix_step [] (strings_Split flt slash) = flt"
proof (cases "flt = []")
  case False
  with assms have "hd (strings_Split flt slash) \<noteq> []"
    by (simp add: hd_strings_Split)
  then show ?thesis
    by (simp add: foldl_prefix_step_root)
qed (simp add: prefix_step_def)

lemma sharedKeyToFilter_key:
  "nul \<notin> set sn \<Longrightarrow> sharedKeyToFilter (sharedStoreKey sn tf) = share_prefix @ sn @ slash # tf"
  by (simp add: sharedKeyToFilter_def sharedStoreKey_def IndexByte_def takeWhile_first Let_def)

text \<open>Both halves of \<open>GetFilters\<close>: the filters of the tries, and those of the shared groups.\<close>

lemma in_shard_filters:
  assumes "wf_router r"
  shows "(\<exists>n\<in>set (shards r). x \<in> set (collectFilters c n [])) \<longleftrightarrow>
     (\<exists>flt. ParseSharedTopicFilter flt = None \<and> router_lookup r flt c \<noteq> None
       \<and> x = foldl prefix_step [] (strings_Split flt slash))"
    (is "?L \<longleftrightarrow> ?R")
proof
  have wf: "\<And>n. n \<in> set (shards r) \<Longrightarrow> wf_node n"
    using assms by (auto simp: wf_router_def wf_shard_def in_set_conv_nth)
  assume ?L
  then obtain n f s where n: "n \<in> set (shards r)" and x: "x = foldl prefix_step [] f"
      and s: "node_lookup n f c = Some s"
    using wf by (auto simp: in_collectFilters)
  then obtain i where i: "i < numShards" "n = shards r ! i"
    using assms by (auto simp: in_set_conv_nth wf_router_def)
  have "wf_shard i (shards r ! i)"
    using assms i(1) by (simp add: wf_router_def)
  then obtain flt where "f = strings_Split flt slash" "ParseSharedTopicFilter flt = None" "shardFor flt = i"
    using s i(2) unfolding wf_shard_def by blast
  with x s i(2) show ?R
    by (auto simp: router_lookup_def)
next
  have wf: "\<And>n. n \<in> set (shards r) \<Longrightarrow> wf_node n"
    using assms by (auto simp: wf_router_def wf_shard_def in_set_conv_nth)
  assume ?R
  then obtain flt where flt: "ParseSharedTopicFilter flt = None" "x = foldl prefix_step [] (strings_Split flt slash)"
      "node_lookup (shards r ! shardFor flt) (strings_Split flt slash) c \<noteq> None"
    by (auto simp: router_lookup_def)
  have "shards r ! shardFor flt \<in> set (shards r)"
    using assms by (simp add: wf_router_def)
  with flt wf show ?L
    by (metis in_collectFilters)
qed

lemma in_group_filters:
  assumes "wf_router r"
  shows "(\<exists>k g. map_of (shared r) k = Some g \<and> map_of (subs g) c \<noteq> None \<and> x = sharedKeyToFilter k) \<longleftrightarrow>
      ParseSharedTopicFilter x \<noteq> None \<and> router_lookup r x c \<noteq> None"
    (is "?L \<longleftrightarrow> ?R")
proof
  assume ?L
  then obtain k g where g: "map_of (shared r) k = Some g" "map_of (subs g) c \<noteq> None" "x = sharedKeyToFilter k"
    by blast
  have "wf_group k g"
    using assms g(1) by (simp add: wf_router_def)
  then have k: "k = sharedStoreKey (shareName g) (topicFilter g)"
    and p: "ParseSharedTopicFilter (share_prefix @ shareName g @ slash # topicFilter g)
       = Some (shareName g, topicFilter g)"
    by (auto simp: wf_group_def)
  have "x = share_prefix @ shareName g @ slash # topicFilter g"
    using g(3) k Parse_SomeD(1) [OF p] by (simp add: sharedKeyToFilter_key)
  with g k p show ?R
    by (simp add: router_lookup_def)
next
  assume R: ?R
  then obtain sn tf where p: "ParseSharedTopicFilter x = Some (sn, tf)"
    by auto
  with R obtain g where "map_of (shared r) (sharedStoreKey sn tf) = Some g" "map_of (subs g) c \<noteq> None"
    by (auto simp: router_lookup_def split: bind_splits)
  moreover have "x = sharedKeyToFilter (sharedStoreKey sn tf)"
    using Parse_SomeD(1,2) [OF p] by (simp add: sharedKeyToFilter_key)
  ultimately show ?L
    by blast
qed

lemma in_GetFilters:
  assumes "wf_router r"
  shows "x \<in> set (GetFilters c r) \<longleftrightarrow>
    (\<exists>flt. ParseSharedTopicFilter flt = None \<and> router_lookup r flt c \<noteq> None
       \<and> x = foldl prefix_step [] (strings_Split flt slash))
    \<or> (ParseSharedTopicFilter x \<noteq> None \<and> router_lookup r x c \<noteq> None)"
proof -
  have wf: "wf_map (shared r)"
    using assms by (simp add: wf_router_def)
  have "x \<in> set (GetFilters c r) \<longleftrightarrow> (\<exists>n\<in>set (shards r). x \<in> set (collectFilters c n []))
      \<or> (\<exists>k g. map_of (shared r) k = Some g \<and> map_of (subs g) c \<noteq> None \<and> x = sharedKeyToFilter k)"
    unfolding GetFilters_def wf_map_in_set [OF wf, symmetric] by (auto split: if_splits) fastforce+
  with in_shard_filters [OF assms] in_group_filters [OF assms] show ?thesis
    by (simp only:)
qed

section \<open>Retained messages for a new subscriber\<close>

lemma filter_topic_deliver_to:
  "filter (\<lambda>d. dv_Topic d = t) (deliver_to topic payload qos rt sub) =
     (if topic = t then deliver_to topic payload qos rt sub else [])"
  by (simp add: deliver_to_def split: option.split)

lemma filter_SendRetained_loop:
  "wf_map m \<Longrightarrow> filter (\<lambda>d. dv_Topic d = t) (concat (map (\<lambda>(topic, msg).
       if TopicMatchesFilter topic flt then deliver_to topic (rm_Payload msg) (rm_QoS msg) True sub else []) m))
   = (case map_of m t of None \<Rightarrow> []
      | Some msg \<Rightarrow> if TopicMatchesFilter t flt then deliver_to t (rm_Payload msg) (rm_QoS msg) True sub else [])"
proof (induction m)
  case (Cons p m)
  obtain topic msg where p: "p = (topic, msg)"
    by (cases p)
  have "wf_map m" "map_of m topic = None"
    using Cons.prems p by (auto simp: wf_map_def map_of_eq_None_iff)
  with Cons.IH p show ?case
    by (cases "topic = t") (simp_all add: filter_topic_deliver_to)
qed simp

section \<open>Properties\<close>

fun router_op :: "(string, Subscriber, string) sub_op \<Rightarrow> Router \<Rightarrow> Router" where
  "router_op (Sub flt sub) r = Subscribe flt sub r"
| "router_op (Unsub flt c) r = Unsubscribe flt c r"
| "router_op (Remove c) r = UnsubscribeAll c r"

lemma router_op_exec: "router_op = router.exec"
proof
  show "router_op p = router.exec p" for p
    by (cases p) (simp_all add: fun_eq_iff)
qed

lemma reachable_router:
  "wf_router (fold router_op ps Router_New)
   \<and> router_lookup (fold router_op ps Router_New) = fold (table_op ClientID) ps (\<lambda>_ _. None)"
proof -
  have "router_lookup Router_New = (\<lambda>_ _. None)"
    by (simp add: fun_eq_iff)
  with router.run_refines [OF wf_Router_New, of ps] show ?thesis
    by (simp only: router_op_exec)
qed

text \<open>
  C1: the sharded tries and the shared groups implement one flat table from filters and clients to
  subscriptions. Any sequence of subscribes, unsubscribes and client removals, from the empty
  router, leaves exactly the subscriptions that the same sequence leaves in the table: a
  re-subscription replaces, a shared filter is independent of its inner filter, a removed client
  keeps none, and pruning empty trie nodes loses nothing.
\<close>

theorem router_refines_table:
  "wf_router (fold router_op ps Router_New)
   \<and> router_lookup (fold router_op ps Router_New) = fold (table_op ClientID) ps (\<lambda>_ _. None)"
  by (rule reachable_router)

text \<open>
  matching a topic against all 256 shards finds, for every client, a subscription of that client
  whose filter matches the topic and whose QoS is maximal among them, and none if there is none.
\<close>

theorem matching_is_best:
  assumes "wf_router r"
  shows "case map_of (matchSubscribers topic r) c of
      None \<Rightarrow> plain_eligible r topic c = {}
    | Some s \<Rightarrow> s \<in> plain_eligible r topic c \<and> (\<forall>s'\<in>plain_eligible r topic c. QoS s' \<le> QoS s)"
  using is_best_matchSubscribers [OF assms] unfolding is_best_def .

theorem matching_is_best_witness:
  "\<exists>s. map_of (matchSubscribers ''a'' (Subscribe ''+'' \<lparr>ClientID = ''c'', QoS = 1, Deliver = Some 0\<rparr> Router_New)) ''c''
     = Some s \<and> QoS s = 1"
proof -
  let ?s = "\<lparr>ClientID = ''c'', QoS = 1, Deliver = Some 0\<rparr> :: Subscriber"
  let ?r = "Subscribe ''+'' ?s Router_New"
  have p: "ParseSharedTopicFilter ''+'' = None"
    by code_simp
  have l: "router_lookup ?r flt ''c'' = (if flt = ''+'' then Some ?s else None)" for flt
    by (simp add: lookup_Subscribe)
  have "plain_eligible ?r ''a'' ''c'' = {?s}"
    unfolding plain_eligible_def l using p by (auto simp: mqtt_match_def level_match_def)
  with matching_is_best [of ?r "''a''" "''c''"] show ?thesis
    by (auto simp: wf_Subscribe split: option.splits)
qed



text \<open>
  C30: a message that matches a shared group goes to exactly one member, and as many matching messages as
  the group has members go round all of them in order, as long as the 64-bit counter does not wrap.
\<close>

theorem shared_group_fair:
  assumes "wf_router r" "map_of (shared r) k = Some g" "TopicMatchesFilter topic (topicFilter g)"
    and "unat (rr g) + length (subs g) \<le> 2 ^ 64"
  shows "(\<exists>s. map_of (subs g) (group_pick g) = Some s
        \<and> deliverGroup topic payload qos g = (g\<lparr>rr := rr g + 1\<rparr>, message_for topic payload qos False s))
    \<and> map (\<lambda>j. group_pick (after_deliveries topic payload qos j g)) [0..<length (subs g)]
      = rotate (unat (rr g)) (sort (keys (subs g)))"
proof -
  have ne: "subs g \<noteq> []"
    using assms(1,2) by (auto simp: wf_router_def wf_group_def)
  then obtain s where "map_of (subs g) (group_pick g) = Some s"
    by (rule group_pick_member)
  with shared_group_rotation [OF assms(3) ne assms(4)] deliverGroup_eq [OF assms(3)] show ?thesis
    unfolding deliver_to_eq by blast
qed

theorem shared_group_fair_witness:
  "\<exists>g. map_of (shared (Subscribe ''$share/g/a'' \<lparr>ClientID = ''c'', QoS = 1, Deliver = Some 0\<rparr> Router_New))
       (sharedStoreKey ''g'' ''a'') = Some g
     \<and> snd (deliverGroup ''a'' [7] 2 g) = [\<lparr>dv_Client = ''c'', dv_Handle = 0, dv_Topic = ''a'', dv_Payload = [7],
         dv_QoS = 1, dv_Retain = False, dv_PacketID = 0\<rparr>]"
proof -
  let ?s = "\<lparr>ClientID = ''c'', QoS = 1, Deliver = Some 0\<rparr> :: Subscriber"
  let ?r = "Subscribe ''$share/g/a'' ?s Router_New"
  let ?g = "\<lparr>shareName = ''g'', topicFilter = ''a'', subs = [(''c'', ?s)], rr = 0\<rparr>"
  have "ParseSharedTopicFilter ''$share/g/a'' = Some (''g'', ''a'')"
    by code_simp
  then have g: "map_of (shared ?r) (sharedStoreKey ''g'' ''a'') = Some ?g"
    by (simp add: Subscribe_def subscribeShared_def Let_def Router_New_def)
  have m: "TopicMatchesFilter ''a'' (topicFilter ?g)"
    by code_simp
  show ?thesis
    using shared_group_fair [OF wf_Subscribe [OF wf_Router_New] g m, of "[7]" 2] g
    by (auto simp: group_pick_def message_for_def)
qed

text \<open>
  C29: after a retained publish a new subscriber gets, for that topic, exactly the new message (flagged as
  retained, at the smaller QoS) if its filter matches, and nothing if the payload was empty; for
  every other topic, and after a publish without the flag, it gets what it got before.
\<close>

theorem retained_semantics:
  assumes "wf_router r" "Publish now topic payload qos retain r = (r', ds, n)"
    and "ParseSharedTopicFilter flt = None"
  shows "filter (\<lambda>d. dv_Topic d = t) (SendRetained flt sub r') =
     (if retain \<and> t = topic then
        if payload = [] \<or> \<not> TopicMatchesFilter t flt then [] else message_for t payload qos True sub
      else filter (\<lambda>d. dv_Topic d = t) (SendRetained flt sub r))"
proof -
  have wf: "wf_map (retained r)" "wf_map (retained r')"
    using assms(1) wf_Publish [OF assms(1,2)] by (simp_all add: wf_router_def)
  have "map_of (retained r') = (if retain then map_of (retained (publishRetain now topic payload qos r))
      else map_of (retained r))"
    unfolding Publish_parts(3) [OF assms(2)] by simp
  then show ?thesis
    using assms(3)
    by (simp add: SendRetained_def filter_SendRetained_loop [OF wf(1)] filter_SendRetained_loop [OF wf(2)]
        retained_publishRetain deliver_to_eq)
qed

theorem retained_semantics_witness:
  "filter (\<lambda>d. dv_Topic d = ''a'') (SendRetained ''#'' \<lparr>ClientID = ''c'', QoS = 1, Deliver = Some 0\<rparr>
      (fst (Publish 5 ''a'' [1] 2 True Router_New)))
   = [\<lparr>dv_Client = ''c'', dv_Handle = 0, dv_Topic = ''a'', dv_Payload = [1], dv_QoS = 1, dv_Retain = True,
       dv_PacketID = 0\<rparr>]"
proof -
  obtain r' ds n where p: "Publish 5 ''a'' [1] 2 True Router_New = (r', ds, n)"
    by (rule prod_cases3)
  have "ParseSharedTopicFilter ''#'' = None" "TopicMatchesFilter ''a'' ''#''"
    by code_simp+
  with retained_semantics [OF wf_Router_New p, of "''#''" "''a''"] p show ?thesis
    by (simp add: message_for_def)
qed

text \<open>
  the filters reported for a client are exactly the ones it is subscribed to, plain and shared, as long
  as none of them starts with a slash.
\<close>

theorem get_filters_exact:
  assumes "wf_router r" "\<And>flt. router_lookup r flt c \<noteq> None \<Longrightarrow> flt = [] \<or> hd flt \<noteq> slash"
  shows "set (GetFilters c r) = {flt. router_lookup r flt c \<noteq> None}"
proof (intro set_eqI)
  fix x
  have "(\<exists>flt. ParseSharedTopicFilter flt = None \<and> router_lookup r flt c \<noteq> None
       \<and> x = foldl prefix_step [] (strings_Split flt slash))
    \<longleftrightarrow> ParseSharedTopicFilter x = None \<and> router_lookup r x c \<noteq> None"
    using assms(2) prefix_step_Split by metis
  then show "x \<in> set (GetFilters c r) \<longleftrightarrow> x \<in> {flt. router_lookup r flt c \<noteq> None}"
    unfolding in_GetFilters [OF assms(1)] mem_Collect_eq by argo
qed

theorem get_filters_exact_witness:
  "set (GetFilters ''c'' (Subscribe ''a/+'' \<lparr>ClientID = ''c'', QoS = 1, Deliver = Some 0\<rparr> Router_New)) = {''a/+''}"
proof -
  let ?r = "Subscribe ''a/+'' \<lparr>ClientID = ''c'', QoS = 1, Deliver = Some 0\<rparr> Router_New"
  have l: "router_lookup ?r flt ''c'' \<noteq> None \<longleftrightarrow> flt = ''a/+''" for flt
    by (simp add: lookup_Subscribe)
  have "set (GetFilters ''c'' ?r) = {flt. router_lookup ?r flt ''c'' \<noteq> None}"
    by (rule get_filters_exact) (simp_all only: l wf_Subscribe [OF wf_Router_New], simp)
  then show ?thesis
    unfolding l by simp
qed

section \<open>Where the bookkeeping departs from the subscriptions\<close>

text \<open>A subscription to a filter with a leading slash is reported without the slash.\<close>

theorem get_filters_drop_slash:
  "''a'' \<in> set (GetFilters (ClientID s) (Subscribe ''/a'' s Router_New))
    \<and> ''/a'' \<notin> set (GetFilters (ClientID s) (Subscribe ''/a'' s Router_New))"
proof -
  have p: "ParseSharedTopicFilter ''/a'' = None"
    by code_simp
  have l: "router_lookup (Subscribe ''/a'' s Router_New) flt (ClientID s) \<noteq> None \<longleftrightarrow> flt = ''/a''" for flt
    by (simp add: lookup_Subscribe)
  have "foldl prefix_step [] (strings_Split ''/a'' slash) = ''a''"
    by code_simp
  then have "x \<in> set (GetFilters (ClientID s) (Subscribe ''/a'' s Router_New)) \<longleftrightarrow> x = ''a''" for x
    unfolding in_GetFilters [OF wf_Subscribe [OF wf_Router_New]] l using p by metis
  then show ?thesis
    by simp
qed

text \<open>
  Deleting a retained message that does not exist lowers the reported count to -1, below the number
  of retained messages.
\<close>

theorem retained_count_negative:
  "Router_Stats (fst (Publish now topic [] qos True Router_New)) = [(''retained_messages'', -1)]
   \<and> AllRetained (fst (Publish now topic [] qos True Router_New)) = []"
  by (simp add: Publish_def publishRetain_def Let_def split_beta Router_Stats_def AllRetained_def Router_New_def)

text \<open>A second subscription to the same filter counts twice, and removing the client lowers the gauge by nothing.\<close>

theorem subscription_gauge_drifts:
  assumes "ParseSharedTopicFilter flt = None"
  shows "let r = UnsubscribeAll (ClientID s) (Subscribe flt s (Subscribe flt s Router_New))
    in net_calls ActiveSubscriptions (router_metrics r) = 2 \<and> (\<forall>g c. router_lookup r g c = None)"
  using assms unfolding Let_def
  by (simp add: lookup_UnsubscribeAll lookup_Subscribe wf_Subscribe)
    (simp add: UnsubscribeAll_def Subscribe_def Let_def split_beta Router_New_def)


end
