(* ===== verification/Session.thy ===== *)
theory Session
  imports Prelude
begin

text \<open>
  Client sessions (\<open>internal/session/session.go\<close>): packet identifiers, the messages in
  flight in both directions, the queue kept for an offline client, session expiry, and the
  store of sessions. The store hands out pointers that several connections may hold, so it is
  modelled with an explicit heap of sessions. The clock is a parameter of every operation
  that reads it. Go's zero \<open>time.Time\<close> is \<^const>\<open>None\<close>.

  Shown: the search for a free packet identifier returns exactly when one is free; the number
  of tracked messages never exceeds the client's receive maximum; the offline queue holds the
  newest messages in order, at most \<open>maxQueue\<close> of them; a message in flight is acknowledged once;
  a deadline set at disconnect expires the session exactly from that moment on; the store
  resumes persistent sessions and replaces clean ones.
\<close>

section \<open>Data\<close>

datatype QoS2Phase = QoS2Published | QoS2Received | QoS2Released

record InFlight =
  if_PacketID :: uint16
  if_Topic :: string
  if_Payload :: bytes
  if_QoS :: byte
  if_Retain :: bool
  if_SentAt :: "time option"
  if_Retries :: int
  if_QoS2Phase :: QoS2Phase

record Queued =
  qd_Topic :: string
  qd_Payload :: bytes
  qd_QoS :: byte
  qd_Retain :: bool

definition defaultMaxQueue :: nat where
  "defaultMaxQueue = 1000"

record Session =
  ss_ClientID :: string
  ss_CleanSession :: bool
  connected :: bool
  connectedAt :: time
  lastSeen :: time
  keepAlive :: uint16
  protocolLevel :: byte
  sessionExpirySec :: uint32
  disconnectExpireAt :: "time option"
  ss_WillTopic :: string
  ss_WillPayload :: bytes
  ss_WillQoS :: byte
  ss_WillRetain :: bool
  ss_WillSet :: bool
  nextPktID :: uint32
  outFlight :: "(uint16, InFlight) gomap"
  inFlight :: "(uint16, InFlight) gomap"
  queue :: "Queued list"
  maxQueue :: nat

definition mqttProtoV50 :: byte where
  "mqttProtoV50 = 5"

definition Session_New :: "time \<Rightarrow> string \<Rightarrow> bool \<Rightarrow> Session" where
  "Session_New now clientID cleanSession =
     \<lparr>ss_ClientID = clientID, ss_CleanSession = cleanSession, connected = False,
      connectedAt = now, lastSeen = now, keepAlive = 0, protocolLevel = 0, sessionExpirySec = 0,
      disconnectExpireAt = None, ss_WillTopic = [], ss_WillPayload = [], ss_WillQoS = 0,
      ss_WillRetain = False, ss_WillSet = False, nextPktID = 0, outFlight = [], inFlight = [],
      queue = [], maxQueue = defaultMaxQueue\<rparr>"

section \<open>Connection state and expiry\<close>

definition SetConnected :: "time \<Rightarrow> bool \<Rightarrow> Session \<Rightarrow> Session" where
  "SetConnected now c s =
     (let s = s\<lparr>connected := c, lastSeen := now\<rparr> in if c then s\<lparr>connectedAt := now\<rparr> else s)"

definition IsConnected :: "Session \<Rightarrow> bool" where
  "IsConnected s = connected s"

definition Touch :: "time \<Rightarrow> Session \<Rightarrow> Session" where
  "Touch now s = s\<lparr>lastSeen := now\<rparr>"

definition SetKeepAlive :: "uint16 \<Rightarrow> Session \<Rightarrow> Session" where
  "SetKeepAlive ka s = s\<lparr>keepAlive := ka\<rparr>"

definition ClearDisconnectExpiry :: "Session \<Rightarrow> Session" where
  "ClearDisconnectExpiry s = s\<lparr>disconnectExpireAt := None\<rparr>"

definition SetProtocolAndExpiry :: "byte \<Rightarrow> bool \<Rightarrow> uint32 \<Rightarrow> Session \<Rightarrow> Session" where
  "SetProtocolAndExpiry version cleanSession expirySec s =
     (let s = s\<lparr>protocolLevel := version\<rparr> in
      if version = mqttProtoV50 \<and> \<not> cleanSession then s\<lparr>sessionExpirySec := expirySec\<rparr>
      else if cleanSession then s\<lparr>sessionExpirySec := 0, disconnectExpireAt := None\<rparr>
      else s)"

definition UpdateSessionExpiryFromDisconnect :: "uint32 \<Rightarrow> Session \<Rightarrow> Session" where
  "UpdateSessionExpiryFromDisconnect sec s = s\<lparr>sessionExpirySec := sec\<rparr>"

definition PrepareDisconnectExpiry :: "time \<Rightarrow> Session \<Rightarrow> Session \<times> bool" where
  "PrepareDisconnectExpiry now s =
     (if ss_CleanSession s \<or> protocolLevel s \<noteq> mqttProtoV50 then (s, False)
      else if sessionExpirySec s = 0 then (s\<lparr>disconnectExpireAt := None\<rparr>, True)
      else if sessionExpirySec s = NOT 0 then (s\<lparr>disconnectExpireAt := None\<rparr>, False)
      else (s\<lparr>disconnectExpireAt := Some (now + int (unat (sessionExpirySec s)) * time_Second)\<rparr>, False))"

definition ShouldExpireDisconnected :: "time \<Rightarrow> Session \<Rightarrow> bool" where
  "ShouldExpireDisconnected now s =
     (if connected s \<or> ss_CleanSession s then False
      else case disconnectExpireAt s of None \<Rightarrow> False | Some d \<Rightarrow> \<not> now < d)"

definition Session_Info :: "Session \<Rightarrow> time \<times> time \<times> bool" where
  "Session_Info s = (connectedAt s, lastSeen s, connected s)"

section \<open>Packet identifiers\<close>

text \<open>The identifier made from a counter value: its low 16 bits, and 1 instead of 0.\<close>

definition packet_id :: "uint32 \<Rightarrow> uint16" where
  "packet_id next = (let ident = ucast next in if ident = 0 then 1 else ident)"

text \<open>The loop may not end: its result is \<^const>\<open>None\<close> then.\<close>

partial_function (option) NextPacketID_loop ::
    "(uint16, InFlight) gomap \<Rightarrow> uint32 \<Rightarrow> (uint16 \<times> uint32) option" where
  "NextPacketID_loop out n =
     (let next = n + 1; ident = packet_id next in
      if map_of out ident = None then Some (ident, next) else NextPacketID_loop out next)"

definition NextPacketID :: "Session \<Rightarrow> (uint16 \<times> Session) option" where
  "NextPacketID s =
     map_option (\<lambda>(ident, n). (ident, s\<lparr>nextPktID := n\<rparr>)) (NextPacketID_loop (outFlight s) (nextPktID s))"

section \<open>Messages in flight\<close>

definition AddOutFlight :: "InFlight \<Rightarrow> Session \<Rightarrow> Session" where
  "AddOutFlight msg s = s\<lparr>outFlight := AList.update (if_PacketID msg) msg (outFlight s)\<rparr>"

definition AddOutFlightLimited :: "InFlight \<Rightarrow> uint16 \<Rightarrow> Session \<Rightarrow> Session \<times> bool" where
  "AddOutFlightLimited msg receiveMax s =
     (if if_QoS msg = 0 then (s, True)
      else if receiveMax > 0 \<and> length (filter (\<lambda>(_, m). if_QoS m > 0) (outFlight s)) \<ge> unat receiveMax
      then (s, False)
      else (s\<lparr>outFlight := AList.update (if_PacketID msg) msg (outFlight s)\<rparr>, True))"

definition GetOutFlight :: "uint16 \<Rightarrow> Session \<Rightarrow> InFlight option" where
  "GetOutFlight ident s = map_of (outFlight s) ident"

definition AckOutFlight :: "uint16 \<Rightarrow> Session \<Rightarrow> Session \<times> InFlight option" where
  "AckOutFlight ident s =
     (s\<lparr>outFlight := AList.delete ident (outFlight s)\<rparr>, map_of (outFlight s) ident)"

definition SetOutFlightPhase :: "uint16 \<Rightarrow> QoS2Phase \<Rightarrow> Session \<Rightarrow> Session" where
  "SetOutFlightPhase ident phase s =
     (case map_of (outFlight s) ident of
        Some msg \<Rightarrow> s\<lparr>outFlight := AList.update ident (msg\<lparr>if_QoS2Phase := phase\<rparr>) (outFlight s)\<rparr>
      | None \<Rightarrow> s)"

definition AllOutFlight :: "Session \<Rightarrow> InFlight list" where
  "AllOutFlight s = map snd (outFlight s)"

definition AddInFlight :: "InFlight \<Rightarrow> Session \<Rightarrow> Session" where
  "AddInFlight msg s = s\<lparr>inFlight := AList.update (if_PacketID msg) msg (inFlight s)\<rparr>"

definition GetInFlight :: "uint16 \<Rightarrow> Session \<Rightarrow> InFlight option" where
  "GetInFlight ident s = map_of (inFlight s) ident"

definition AckInFlight :: "uint16 \<Rightarrow> Session \<Rightarrow> Session \<times> InFlight option" where
  "AckInFlight ident s =
     (s\<lparr>inFlight := AList.delete ident (inFlight s)\<rparr>, map_of (inFlight s) ident)"

section \<open>Offline queue\<close>

definition Enqueue :: "Queued \<Rightarrow> Session \<Rightarrow> Session \<times> bool" where
  "Enqueue msg s =
     (if ss_CleanSession s then (s, False)
      else
        let q = (if length (queue s) \<ge> maxQueue s then tl (queue s) else queue s)
        in (s\<lparr>queue := q @ [msg]\<rparr>, True))"

definition DrainQueue :: "Session \<Rightarrow> Session \<times> Queued list" where
  "DrainQueue s = (if length (queue s) = 0 then (s, []) else (s\<lparr>queue := []\<rparr>, queue s))"

definition QueueLen :: "Session \<Rightarrow> nat" where
  "QueueLen s = length (queue s)"

definition Session_Clear :: "Session \<Rightarrow> Session" where
  "Session_Clear s = s\<lparr>outFlight := [], inFlight := [], queue := [], ss_WillSet := False\<rparr>"

section \<open>Store\<close>

text \<open>
  \<open>st_data\<close> is the map of the source; \<open>st_heap\<close> holds the sessions the pointers refer to and
  \<open>st_next\<close> the next fresh address. A session stays in the heap when its map entry goes.
\<close>

type_synonym addr = nat

record Store =
  st_data :: "(string, addr) gomap"
  st_heap :: "addr \<Rightarrow> Session option"
  st_next :: addr

definition NewStore :: Store where
  "NewStore = \<lparr>st_data = [], st_heap = (\<lambda>_. None), st_next = 0\<rparr>"

definition alloc_session :: "string \<Rightarrow> Session \<Rightarrow> Store \<Rightarrow> Store \<times> addr" where
  "alloc_session clientID sess st =
     (let a = st_next st
      in (\<lparr>st_data = AList.update clientID a (st_data st), st_heap = (st_heap st)(a \<mapsto> sess),
           st_next = Suc a\<rparr>, a))"

definition GetOrCreate :: "time \<Rightarrow> string \<Rightarrow> bool \<Rightarrow> Store \<Rightarrow> Store \<times> addr \<times> bool" where
  "GetOrCreate now clientID clean st =
     (let fresh = (\<lambda>c. let (st', a) = alloc_session clientID (Session_New now clientID c) st
                       in (st', a, False))
      in if clean then fresh True
         else case map_of (st_data st) clientID of
                Some a \<Rightarrow>
                  (case st_heap st a of
                     Some existing \<Rightarrow> if \<not> ss_CleanSession existing then (st, a, True) else fresh False
                   | None \<Rightarrow> fresh False)
              | None \<Rightarrow> fresh False)"

definition Store_Get :: "string \<Rightarrow> Store \<Rightarrow> addr option" where
  "Store_Get clientID st = map_of (st_data st) clientID"

definition Store_Delete :: "string \<Rightarrow> Store \<Rightarrow> Store" where
  "Store_Delete clientID st = st\<lparr>st_data := AList.delete clientID (st_data st)\<rparr>"

definition Store_Count :: "Store \<Rightarrow> nat" where
  "Store_Count st = length (st_data st)"

definition Store_Each :: "Store \<Rightarrow> addr list" where
  "Store_Each st = map snd (st_data st)"

section \<open>Invariant\<close>

text \<open>
  The maps have distinct keys, a message is stored under its own non-zero identifier, and the queue is
  within its bound, which is never zero; a clean session queues nothing.
\<close>

definition wf_flight :: "(uint16, InFlight) gomap \<Rightarrow> bool" where
  "wf_flight m \<longleftrightarrow> wf_map m \<and> (\<forall>k v. map_of m k = Some v \<longrightarrow> if_PacketID v = k)"

definition wf_session :: "Session \<Rightarrow> bool" where
  "wf_session s \<longleftrightarrow> wf_flight (outFlight s) \<and> wf_flight (inFlight s)
     \<and> 0 < maxQueue s \<and> length (queue s) \<le> maxQueue s \<and> (ss_CleanSession s \<longrightarrow> queue s = [])"

lemma wf_flight_Nil [simp]: "wf_flight []"
  by (simp add: wf_flight_def)

lemma wf_flight_update [simp]: "wf_flight m \<Longrightarrow> wf_flight (AList.update (if_PacketID v) v m)"
  by (simp add: wf_flight_def)

lemma wf_flight_delete [simp]: "wf_flight m \<Longrightarrow> wf_flight (AList.delete k m)"
  by (simp add: wf_flight_def)

lemma wf_flight_phase:
  "wf_flight m \<Longrightarrow> map_of m k = Some v \<Longrightarrow> wf_flight (AList.update k (v\<lparr>if_QoS2Phase := p\<rparr>) m)"
  by (simp add: wf_flight_def)

lemma wf_session_New [simp]: "wf_session (Session_New now c clean)"
  by (simp add: wf_session_def Session_New_def defaultMaxQueue_def)

lemma wf_session_state [simp]:
  "wf_session (SetConnected now b s) = wf_session s" "wf_session (Touch now s) = wf_session s"
  "wf_session (SetKeepAlive ka s) = wf_session s" "wf_session (ClearDisconnectExpiry s) = wf_session s"
  "wf_session (SetProtocolAndExpiry v cl e s) = wf_session s"
  "wf_session (UpdateSessionExpiryFromDisconnect sec s) = wf_session s"
  "wf_session (fst (PrepareDisconnectExpiry now s)) = wf_session s"
  by (simp_all add: wf_session_def SetConnected_def Touch_def SetKeepAlive_def ClearDisconnectExpiry_def
      SetProtocolAndExpiry_def UpdateSessionExpiryFromDisconnect_def PrepareDisconnectExpiry_def Let_def)

lemma wf_session_flight [simp]:
  "wf_session s \<Longrightarrow> wf_session (AddOutFlight msg s)"
  "wf_session s \<Longrightarrow> wf_session (fst (AddOutFlightLimited msg rmax s))"
  "wf_session s \<Longrightarrow> wf_session (fst (AckOutFlight ident s))"
  "wf_session s \<Longrightarrow> wf_session (SetOutFlightPhase ident phase s)"
  "wf_session s \<Longrightarrow> wf_session (AddInFlight msg s)"
  "wf_session s \<Longrightarrow> wf_session (fst (AckInFlight ident s))"
  by (simp_all add: wf_session_def AddOutFlight_def AddOutFlightLimited_def AckOutFlight_def
      SetOutFlightPhase_def AddInFlight_def AckInFlight_def wf_flight_phase split: option.split)

lemma wf_session_queue [simp]:
  "wf_session s \<Longrightarrow> wf_session (fst (Enqueue m s))"
  "wf_session s \<Longrightarrow> wf_session (fst (DrainQueue s))"
  "wf_session s \<Longrightarrow> wf_session (Session_Clear s)"
  by (auto simp: wf_session_def Enqueue_def DrainQueue_def Session_Clear_def Let_def)

lemma wf_session_NextPacketID:
  "wf_session s \<Longrightarrow> NextPacketID s = Some (ident, s') \<Longrightarrow> wf_session s'"
  by (auto simp: NextPacketID_def wf_session_def)

section \<open>The search for a packet identifier\<close>

lemma ucast_add_16: "(ucast (a + b :: uint32) :: uint16) = ucast a + ucast b"
  by transfer (auto simp: take_bit_eq_mod mod_mod_cancel intro: mod_add_cong)

lemma ucast_of_nat_16: "(ucast (of_nat k :: uint32) :: uint16) = of_nat k"
  by transfer (simp add: take_bit_eq_mod mod_mod_cancel)

lemma packet_id_nonzero [simp]: "packet_id n \<noteq> 0"
  by (simp add: packet_id_def Let_def)

lemma packet_id_covers:
  assumes "ident \<noteq> 0"
  obtains k where "1 \<le> k" "k \<le> 65536" "packet_id (n + of_nat k) = ident"
proof -
  let ?d = "unat (ident - ucast n :: uint16)"
  let ?k = "if ?d = 0 then 65536 else ?d"
  have "(of_nat ?k :: uint16) = ident - ucast n"
    by (auto simp: unat_eq_zero)
  moreover have "(ucast (of_nat ?k :: uint32) :: uint16) = of_nat ?k"
    by (rule ucast_of_nat_16)
  ultimately have "packet_id (n + of_nat ?k) = ident"
    using assms by (simp add: packet_id_def ucast_add_16 Let_def)
  moreover have "1 \<le> ?k" "?k \<le> 65536"
    using unsigned_less [of "ident - ucast n", where ?'a = nat] by auto
  ultimately show ?thesis
    using that by blast
qed

lemma NextPacketID_loop_at:
  "1 \<le> k \<Longrightarrow> map_of out (packet_id (n + of_nat k)) = None \<Longrightarrow>
   (\<And>j. 1 \<le> j \<Longrightarrow> j < k \<Longrightarrow> map_of out (packet_id (n + of_nat j)) \<noteq> None) \<Longrightarrow>
   NextPacketID_loop out n = Some (packet_id (n + of_nat k), n + of_nat k)"
proof (induction k arbitrary: n)
  case (Suc k)
  show ?case
  proof (cases k)
    case 0
    with Suc.prems show ?thesis
      by (subst NextPacketID_loop.simps) (simp add: Let_def)
  next
    case (Suc k')
    have shift: "n + 1 + of_nat j = n + of_nat (Suc j)" for j
      by (simp add: algebra_simps)
    have "map_of out (packet_id (n + 1)) \<noteq> None"
      using Suc.prems(3) [of 1] Suc by simp
    moreover have "NextPacketID_loop out (n + 1) = Some (packet_id (n + 1 + of_nat k), n + 1 + of_nat k)"
      using Suc.prems Suc by (intro Suc.IH) (auto simp: shift simp del: of_nat_Suc)
    ultimately show ?thesis
      by (subst NextPacketID_loop.simps) (simp only: Let_def shift if_False)
  qed
qed simp

lemma NextPacketID_loop_result:
  assumes "NextPacketID_loop out n = Some y"
  shows "fst y \<noteq> 0 \<and> map_of out (fst y) = None"
  using assms
  by (rule NextPacketID_loop.raw_induct [where P = "\<lambda>out _ y. fst y \<noteq> 0 \<and> map_of out (fst y) = None", rotated])
    (auto simp: Let_def split: if_splits)

lemma NextPacketID_loop_returns:
  assumes "ident \<noteq> 0" "map_of out ident = None"
  shows "\<exists>k y. 1 \<le> k \<and> k \<le> 65536 \<and> NextPacketID_loop out n = Some (y, n + of_nat k)"
proof -
  let ?P = "\<lambda>k. 1 \<le> k \<and> k \<le> 65536 \<and> map_of out (packet_id (n + of_nat k)) = None"
  obtain k where "?P k"
    using packet_id_covers [OF assms(1), of n] assms(2) by metis
  then have "?P (LEAST k. ?P k)"
    by (rule LeastI)
  moreover have "map_of out (packet_id (n + of_nat j)) \<noteq> None" if "1 \<le> j" "j < (LEAST k. ?P k)" for j
    using not_less_Least [OF that(2)] that calculation by auto
  ultimately show ?thesis
    using NextPacketID_loop_at [of "LEAST k. ?P k" out n] by blast
qed

section \<open>The interface of a table of messages in flight\<close>

text \<open>
  Both directions of a session offer the same operations: add a message, look it up, and take
  it out when it is acknowledged.
\<close>

locale flight_table =
  fixes wf :: "'t \<Rightarrow> bool"
    and get :: "'k \<Rightarrow> 't \<Rightarrow> 'm option"
    and key :: "'m \<Rightarrow> 'k"
    and add :: "'m \<Rightarrow> 't \<Rightarrow> 't"
    and ack :: "'k \<Rightarrow> 't \<Rightarrow> 't \<times> 'm option"
  assumes wf_add: "wf t \<Longrightarrow> wf (add m t)"
    and wf_ack: "wf t \<Longrightarrow> wf (fst (ack k t))"
    and get_add: "get k (add m t) = (if k = key m then Some m else get k t)"
    and get_ack: "get k (fst (ack k' t)) = (if k = k' then None else get k t)"
    and ack_result: "snd (ack k t) = get k t"
begin

lemma ack_add: "snd (ack (key m) (add m t)) = Some m"
  by (simp add: ack_result get_add)

lemma ack_once: "snd (ack k (fst (ack k t))) = None"
  by (simp add: ack_result get_ack)

lemma ack_other: "k \<noteq> k' \<Longrightarrow> snd (ack k (fst (ack k' t))) = snd (ack k t)"
  by (simp add: ack_result get_ack)

text \<open>However many acknowledgements arrive, a message is taken out at most once.\<close>

lemma ack_repeated: "snd (ack k (((\<lambda>t. fst (ack k t)) ^^ Suc n) t)) = None"
  by (simp add: ack_result get_ack)

end

interpretation out: flight_table wf_session GetOutFlight if_PacketID AddOutFlight AckOutFlight
  by unfold_locales (simp_all add: GetOutFlight_def AddOutFlight_def AckOutFlight_def wf_session_def)

interpretation inb: flight_table wf_session GetInFlight if_PacketID AddInFlight AckInFlight
  by unfold_locales (simp_all add: GetInFlight_def AddInFlight_def AckInFlight_def wf_session_def)

section \<open>Receive maximum\<close>

definition tracked :: "Session \<Rightarrow> nat" where
  "tracked s = length (filter (\<lambda>(_, m). if_QoS m > 0) (outFlight s))"

lemma filter_update_le:
  "length (filter P (AList.update k v m)) \<le> Suc (length (filter P m))"
  by (induction m) auto

lemma filter_delete_le: "length (filter P (AList.delete k m)) \<le> length (filter P m)"
  unfolding AList.delete_eq filter_filter by (induction m) auto

lemma AddOutFlightLimited_tracked:
  assumes "receiveMax > 0" "tracked s \<le> unat receiveMax"
  shows "tracked (fst (AddOutFlightLimited msg receiveMax s)) \<le> unat receiveMax"
  using assms filter_update_le [of "\<lambda>(_, m). if_QoS m > 0" "if_PacketID msg" msg "outFlight s"]
  by (auto simp: AddOutFlightLimited_def tracked_def)

lemma AckOutFlight_tracked: "tracked (fst (AckOutFlight ident s)) \<le> tracked s"
  by (simp add: AckOutFlight_def tracked_def filter_delete_le)

section \<open>The interface of a bounded queue\<close>

locale bounded_queue =
  fixes ok :: "'q \<Rightarrow> bool"
    and items :: "'q \<Rightarrow> 'x list"
    and cap :: "'q \<Rightarrow> nat"
    and enq :: "'x \<Rightarrow> 'q \<Rightarrow> 'q"
    and drain :: "'q \<Rightarrow> 'q \<times> 'x list"
  assumes ok_enq: "ok q \<Longrightarrow> ok (enq x q)"
    and cap_pos: "ok q \<Longrightarrow> 0 < cap q"
    and cap_enq: "cap (enq x q) = cap q"
    and ok_bound: "ok q \<Longrightarrow> length (items q) \<le> cap q"
    and items_enq: "ok q \<Longrightarrow>
      items (enq x q) = (if length (items q) < cap q then items q else tl (items q)) @ [x]"
    and drain_items: "snd (drain q) = items q"
    and items_drain: "items (fst (drain q)) = []"
begin

text \<open>The queue holds the newest messages, in the order they arrived.\<close>

lemma items_fold:
  "ok q \<Longrightarrow> items (fold enq xs q) = drop (length (items q) + length xs - cap q) (items q @ xs)"
proof (induction xs rule: rev_induct)
  case (snoc x xs)
  have ok: "ok (fold enq xs q)"
    using snoc.prems by (induction xs arbitrary: q) (simp_all add: ok_enq)
  have cap: "cap (fold enq xs q) = cap q"
    by (induction xs arbitrary: q) (simp_all add: cap_enq)
  define L where "L = items q @ xs"
  have IH: "items (fold enq xs q) = drop (length L - cap q) L"
    using snoc by (simp add: L_def)
  have "(if length (drop (length L - cap q) L) < cap q then drop (length L - cap q) L
      else tl (drop (length L - cap q) L)) @ [x] = drop (Suc (length L) - cap q) (L @ [x])"
    using cap_pos [OF snoc.prems] by (auto simp: tl_drop drop_Suc [symmetric] Suc_diff_le not_less)
  then show ?case
    by (simp only: fold_append fold_simps comp_apply items_enq [OF ok] IH cap) (simp add: L_def)
qed (simp add: ok_bound)

lemma drain_fold:
  "ok q \<Longrightarrow> items q = [] \<Longrightarrow> snd (drain (fold enq xs q)) = drop (length xs - cap q) xs"
  by (simp add: drain_items items_fold)

end

interpretation offline: bounded_queue "\<lambda>s. wf_session s \<and> \<not> ss_CleanSession s" queue maxQueue
    "\<lambda>m s. fst (Enqueue m s)" DrainQueue
  by unfold_locales
    (auto simp: Enqueue_def DrainQueue_def wf_session_def Let_def)

section \<open>The store of sessions\<close>

definition wf_store :: "Store \<Rightarrow> bool" where
  "wf_store st \<longleftrightarrow> wf_map (st_data st)
     \<and> (\<forall>c a. map_of (st_data st) c = Some a \<longrightarrow> (\<exists>s. st_heap st a = Some s \<and> ss_ClientID s = c))
     \<and> (\<forall>a s. st_heap st a = Some s \<longrightarrow> a < st_next st \<and> wf_session s)"

lemma wf_NewStore [simp]: "wf_store NewStore"
  by (simp add: wf_store_def NewStore_def)

lemma wf_Store_Delete [simp]: "wf_store st \<Longrightarrow> wf_store (Store_Delete c st)"
  by (simp add: wf_store_def Store_Delete_def)

lemma wf_store_fresh: "wf_store st \<Longrightarrow> st_heap st (st_next st) = None"
  by (cases "st_heap st (st_next st)") (auto simp: wf_store_def)

lemma wf_store_client:
  "wf_store st \<Longrightarrow> map_of (st_data st) c = Some a \<Longrightarrow> \<exists>s. st_heap st a = Some s \<and> ss_ClientID s = c"
  by (simp add: wf_store_def)

lemma Session_New_sel [simp]:
  "ss_ClientID (Session_New now c clean) = c" "ss_CleanSession (Session_New now c clean) = clean"
  by (simp_all add: Session_New_def)

lemma alloc_session_sel:
  "snd (alloc_session c s st) = st_next st"
  "st_data (fst (alloc_session c s st)) = AList.update c (st_next st) (st_data st)"
  "st_heap (fst (alloc_session c s st)) = (st_heap st)(st_next st \<mapsto> s)"
  "st_next (fst (alloc_session c s st)) = Suc (st_next st)"
  by (simp_all add: alloc_session_def Let_def)

lemma wf_alloc_session:
  assumes "wf_store st" "wf_session s" "ss_ClientID s = c"
  shows "wf_store (fst (alloc_session c s st))"
proof -
  have "st_heap st (st_next st) = None"
    using assms(1) by (rule wf_store_fresh)
  then have "a \<noteq> st_next st" if "map_of (st_data st) d = Some a" for a d
    using assms(1) that by (auto simp: wf_store_def)
  with assms show ?thesis
    unfolding wf_store_def alloc_session_sel by (auto simp: less_Suc_eq)
qed

text \<open>The two ways a call of \<open>GetOrCreate\<close> can go.\<close>

definition resumable :: "string \<Rightarrow> Store \<Rightarrow> addr option" where
  "resumable clientID st =
     (case map_of (st_data st) clientID of
        None \<Rightarrow> None
      | Some a \<Rightarrow> (case st_heap st a of None \<Rightarrow> None
                   | Some s \<Rightarrow> if ss_CleanSession s then None else Some a))"

lemma GetOrCreate_eq:
  "GetOrCreate now clientID clean st =
     (if clean \<or> resumable clientID st = None
      then (case alloc_session clientID (Session_New now clientID clean) st of (st', a) \<Rightarrow> (st', a, False))
      else (st, the (resumable clientID st), True))"
  by (auto simp: GetOrCreate_def resumable_def Let_def split: option.split)

lemma wf_GetOrCreate:
  assumes "wf_store st"
  shows "wf_store (fst (GetOrCreate now clientID clean st))"
  using assms by (simp add: GetOrCreate_eq split_beta wf_alloc_session)

lemma resumable_SomeD:
  assumes "resumable c st = Some a"
  obtains s where "map_of (st_data st) c = Some a" "st_heap st a = Some s" "\<not> ss_CleanSession s"
  using assms unfolding resumable_def
  by (cases "map_of (st_data st) c"; simp; cases "st_heap st (the (map_of (st_data st) c))"; simp split: if_split_asm)

lemma GetOrCreate_cases:
  assumes "GetOrCreate now clientID clean st = (st', a, existed)"
  obtains (fresh) "clean \<or> resumable clientID st = None" "existed = False" "a = st_next st"
      "st' = fst (alloc_session clientID (Session_New now clientID clean) st)"
    | (old) "clean = False" "resumable clientID st = Some a" "existed = True" "st' = st"
proof (cases "clean \<or> resumable clientID st = None")
  case True
  then have "st' = fst (alloc_session clientID (Session_New now clientID clean) st)" "a = st_next st" "\<not> existed"
    using assms by (simp_all add: GetOrCreate_eq split_beta alloc_session_sel(1))
  with True show ?thesis
    by (intro fresh) simp_all
next
  case False
  then obtain b where "clean = False" "resumable clientID st = Some b"
    by blast
  with assms show ?thesis
    by (intro old) (simp_all add: GetOrCreate_eq)
qed

text \<open>The contract of \<open>GetOrCreate\<close>.\<close>

definition get_or_create_post ::
    "time \<Rightarrow> string \<Rightarrow> bool \<Rightarrow> Store \<Rightarrow> Store \<Rightarrow> addr \<Rightarrow> bool \<Rightarrow> bool" where
  "get_or_create_post now clientID clean st st' a existed \<longleftrightarrow>
     Store_Get clientID st' = Some a
     \<and> (\<exists>s. st_heap st' a = Some s \<and> ss_ClientID s = clientID \<and> ss_CleanSession s = clean)
     \<and> (existed \<longleftrightarrow> \<not> clean \<and> resumable clientID st = Some a)
     \<and> (if existed then st' = st
        else st_heap st a = None \<and> st_heap st' a = Some (Session_New now clientID clean))
     \<and> (\<forall>b. b \<noteq> a \<longrightarrow> st_heap st' b = st_heap st b)
     \<and> (\<forall>c. c \<noteq> clientID \<longrightarrow> Store_Get c st' = Store_Get c st)"

lemma GetOrCreate_post:
  assumes "wf_store st" "GetOrCreate now clientID clean st = (st', a, existed)"
  shows "get_or_create_post now clientID clean st st' a existed"
  using assms(2)
proof (cases rule: GetOrCreate_cases)
  case fresh
  have "\<not> (\<not> clean \<and> resumable clientID st = Some a)"
    using fresh(1) by auto
  with fresh(2-) wf_store_fresh [OF assms(1)] show ?thesis
    by (simp add: get_or_create_post_def Store_Get_def alloc_session_sel)
next
  case old
  then obtain s where s: "map_of (st_data st) clientID = Some a" "st_heap st a = Some s" "\<not> ss_CleanSession s"
    by (elim resumable_SomeD)
  moreover have "ss_ClientID s = clientID"
    using wf_store_client [OF assms(1) s(1)] s(2) by simp
  ultimately show ?thesis
    using old by (simp add: get_or_create_post_def Store_Get_def)
qed

section \<open>Properties\<close>

text \<open>
  C26: \<open>NextPacketID\<close> returns if and only if some identifier from 1 to 65535 is not in use by an
  outbound message; what it returns is such an identifier, and only the counter changes. When all
  of them are in use it loops forever.
\<close>

theorem next_packet_id:
  "(case NextPacketID s of
      None \<Rightarrow> \<forall>ident. ident = 0 \<or> GetOutFlight ident s \<noteq> None
    | Some (ident, s') \<Rightarrow> ident \<noteq> 0 \<and> GetOutFlight ident s = None
        \<and> (\<exists>k. 1 \<le> k \<and> k \<le> 65536 \<and> s' = s\<lparr>nextPktID := nextPktID s + of_nat k\<rparr>))"
proof (cases "NextPacketID_loop (outFlight s) (nextPktID s)")
  case None
  then have "ident = 0 \<or> map_of (outFlight s) ident \<noteq> None" for ident
    using NextPacketID_loop_returns [of ident "outFlight s" "nextPktID s"] by (metis option.distinct(1))
  with None show ?thesis
    by (simp add: NextPacketID_def GetOutFlight_def)
next
  case (Some y)
  then have y: "fst y \<noteq> 0" "map_of (outFlight s) (fst y) = None"
    using NextPacketID_loop_result by blast+
  then obtain k z where "1 \<le> k" "k \<le> 65536"
      "NextPacketID_loop (outFlight s) (nextPktID s) = Some (z, nextPktID s + of_nat k)"
    using NextPacketID_loop_returns [of "fst y" "outFlight s" "nextPktID s"] by blast
  with Some y show ?thesis
    by (auto simp: NextPacketID_def GetOutFlight_def)
qed

theorem next_packet_id_witness:
  "\<exists>ident s'. NextPacketID (Session_New 0 ''c'' True) = Some (ident, s') \<and> ident \<noteq> 0"
proof (cases "NextPacketID (Session_New 0 ''c'' True)")
  case None
  have "\<forall>ident. ident = 0 \<or> GetOutFlight ident (Session_New 0 ''c'' True) \<noteq> None"
    using next_packet_id [of "Session_New 0 ''c'' True"] unfolding None option.case .
  from this [rule_format, of 1] show ?thesis
    by (simp add: GetOutFlight_def Session_New_def)
next
  case (Some p)
  with next_packet_id [of "Session_New 0 ''c'' True"] show ?thesis
    by (cases p) simp
qed



text \<open>
  C31: after any sequence of messages, the offline queue of a persistent session holds the last
  \<open>maxQueue\<close> of them in the order they were queued, and draining it returns exactly those and
  leaves it empty.
\<close>

theorem offline_queue_keeps_newest:
  assumes "wf_session s" "\<not> ss_CleanSession s" "queue s = []"
  shows "snd (DrainQueue (fold (\<lambda>m s. fst (Enqueue m s)) ms s)) = drop (length ms - maxQueue s) ms
    \<and> queue (fst (DrainQueue (fold (\<lambda>m s. fst (Enqueue m s)) ms s))) = []"
  using assms offline.drain_fold [of s ms] offline.items_drain by auto

theorem offline_queue_keeps_newest_witness:
  "snd (DrainQueue (fold (\<lambda>m s. fst (Enqueue m s))
      [\<lparr>qd_Topic = ''a'', qd_Payload = [1], qd_QoS = 1, qd_Retain = False\<rparr>,
       \<lparr>qd_Topic = ''b'', qd_Payload = [2], qd_QoS = 2, qd_Retain = False\<rparr>] (Session_New 0 ''c'' False)))
   = [\<lparr>qd_Topic = ''a'', qd_Payload = [1], qd_QoS = 1, qd_Retain = False\<rparr>,
      \<lparr>qd_Topic = ''b'', qd_Payload = [2], qd_QoS = 2, qd_Retain = False\<rparr>]"
  using offline_queue_keeps_newest [of "Session_New 0 ''c'' False"
      "[\<lparr>qd_Topic = ''a'', qd_Payload = [1], qd_QoS = 1, qd_Retain = False\<rparr>,
        \<lparr>qd_Topic = ''b'', qd_Payload = [2], qd_QoS = 2, qd_Retain = False\<rparr>]"]
  by (simp add: Session_New_def defaultMaxQueue_def wf_session_def)

text \<open>
  a message received with quality of service 2 is handed over for delivery exactly once: the
  first release of its packet identifier returns it, and every further release returns nothing.
\<close>

theorem inbound_released_once:
  "snd (AckInFlight (if_PacketID m) (AddInFlight m s)) = Some m
   \<and> snd (AckInFlight (if_PacketID m)
         (((\<lambda>s. fst (AckInFlight (if_PacketID m) s)) ^^ Suc n) (AddInFlight m s))) = None
   \<and> snd (AckInFlight ident (fst (AckInFlight (if_PacketID m) (AddInFlight m s))))
       = (if ident = if_PacketID m then None else snd (AckInFlight ident s))"
  by (simp add: inb.ack_result inb.get_ack inb.get_add)



text \<open>
  C22: \<open>GetOrCreate\<close> maps the client to the session it returns, of the kind asked for; it resumes the
  stored session exactly if a persistent one is asked for and stored, and otherwise installs a fresh
  session at a new address; all other sessions, and all other clients, keep what they had. The
  invariant of the store is kept.
\<close>

theorem session_get_or_create:
  assumes "wf_store st" "GetOrCreate now clientID clean st = (st', a, existed)"
  shows "wf_store st' \<and> get_or_create_post now clientID clean st st' a existed"
  using wf_GetOrCreate [OF assms(1), of now clientID clean] GetOrCreate_post [OF assms] assms(2) by simp

theorem session_get_or_create_witness:
  "wf_store (fst (GetOrCreate 0 ''c'' False NewStore))
   \<and> snd (snd (GetOrCreate 1 ''c'' False (fst (GetOrCreate 0 ''c'' False NewStore))))
   \<and> \<not> snd (snd (GetOrCreate 1 ''c'' True (fst (GetOrCreate 0 ''c'' False NewStore))))"
  using session_get_or_create [OF wf_NewStore, of 0 "''c''" False
      "fst (GetOrCreate 0 ''c'' False NewStore)" "fst (snd (GetOrCreate 0 ''c'' False NewStore))"
      "snd (snd (GetOrCreate 0 ''c'' False NewStore))"]
  by (auto simp: GetOrCreate_def alloc_session_def NewStore_def Session_New_def Let_def)

end
