(* ===== verification/Auth.thy ===== *)
theory Auth
  imports Topics Complex_Main
begin

text \<open>
  Authentication, access control and rate limiting (\<open>internal/auth/auth.go\<close>). The bcrypt and
  JSON Web Token libraries are not part of the sources: their functions are parameters of the
  operations that call them, and what the code relies on is a hypothesis of the theorems that
  need it. Token counts are rational numbers: the rounding of Go's \<open>float64\<close> is not modelled.

  Shown: which rule decides an access-control question, and that a deny rule does not
  protect topics from subscriptions with a wider filter; that a password is accepted exactly for a known user who is
  not banned and whose hash matches; that a cached token is never accepted after its
  expiry and that the cache is bounded; that the rate limiter admits at most
  \<open>burst + rate * T\<close> packets in any period \<open>T\<close>.
\<close>

section \<open>Data\<close>

datatype autherr =
    ErrBadCredentials
  | ErrTokenExpired
  | ErrTokenInvalid
  | ErrBanned
  | ErrDenied
  | BcryptError string
  | AuthPanic

type_synonym Perm = byte

definition PermNone :: Perm where "PermNone = 0"
definition PermSubscribe :: Perm where "PermSubscribe = 1"
definition PermPublish :: Perm where "PermPublish = 2"
definition PermAll :: Perm where "PermAll = PermSubscribe OR PermPublish"

definition Perm_CanSubscribe :: "Perm \<Rightarrow> bool" where
  "Perm_CanSubscribe p = (p AND PermSubscribe \<noteq> 0)"

definition Perm_CanPublish :: "Perm \<Rightarrow> bool" where
  "Perm_CanPublish p = (p AND PermPublish \<noteq> 0)"

record ACLRule =
  ClientGlob :: string
  TopicFilter :: string
  Perm :: Perm

text \<open>\<open>Claims\<close> with the fields of the embedded \<open>jwt.RegisteredClaims\<close> that the code sets or reads.\<close>

record Claims =
  jc_ClientID :: string
  jc_Username :: string
  jc_Roles :: "string list"
  jc_Issuer :: string
  jc_IssuedAt :: "time option"
  jc_ExpiresAt :: "time option"

record User =
  us_Username :: string
  us_PasswordHash :: string
  us_Roles :: "string list"
  us_Banned :: bool

record cachedClaims =
  cc_claims :: Claims
  cc_expiresAt :: time

record Authenticator =
  au_secret :: bytes
  au_issuer :: string
  au_duration :: time
  au_cost :: int
  users :: "(string, User) gomap"
  aclRules :: "ACLRule list"
  tokenCache :: "(string, cachedClaims) gomap"
  revokedCertSerials :: "string list"

definition loadDefaultACL :: "ACLRule list" where
  "loadDefaultACL = [\<lparr>ClientGlob = ''*'', TopicFilter = ''$SYS/#'', Perm = PermSubscribe\<rparr>]"

definition Authenticator_New :: "string \<Rightarrow> string \<Rightarrow> time \<Rightarrow> int \<Rightarrow> Authenticator" where
  "Authenticator_New secret issuer duration bcryptCost =
     \<lparr>au_secret = bytes_of_string secret, au_issuer = issuer, au_duration = duration,
      au_cost = bcryptCost, users = [], aclRules = loadDefaultACL, tokenCache = [],
      revokedCertSerials = []\<rparr>"

section \<open>Certificates\<close>

text \<open>
  The part of a certificate the code reads: \<open>SerialNumber.Text(16)\<close>, the common name and the
  rendered subject. \<open>ToLower\<close> and \<open>TrimSpace\<close> are modelled on ASCII text, which serials are.
\<close>

record Certificate =
  ct_Serial :: string
  ct_CommonName :: string
  ct_Subject :: string

definition SetRevokedSerials :: "string list \<Rightarrow> Authenticator \<Rightarrow> Authenticator" where
  "SetRevokedSerials serials a =
     a\<lparr>revokedCertSerials := filter (\<lambda>s. s \<noteq> []) (map (\<lambda>s. TrimSpace (ToLower s)) serials)\<rparr>"

definition AuthX509 :: "Certificate option \<Rightarrow> Authenticator \<Rightarrow> autherr + string" where
  "AuthX509 cert a =
     (case cert of
        None \<Rightarrow> Inl ErrBadCredentials
      | Some cert \<Rightarrow>
          let serial = ToLower (ct_Serial cert) in
          if serial \<in> set (revokedCertSerials a) then Inl ErrBanned
          else Inr (if ct_CommonName cert = [] then ct_Subject cert else ct_CommonName cert))"

section \<open>Users and passwords\<close>

text \<open>\<open>hashpw\<close> stands for \<open>bcrypt.GenerateFromPassword\<close>, \<open>cmp\<close> for \<open>bcrypt.CompareHashAndPassword\<close>.\<close>

definition AddUser ::
    "(bytes \<Rightarrow> int \<Rightarrow> string + string) \<Rightarrow> string \<Rightarrow> string \<Rightarrow> string list \<Rightarrow> Authenticator
      \<Rightarrow> autherr + Authenticator" where
  "AddUser hashpw username plainPassword roles a =
     (case hashpw (bytes_of_string plainPassword) (au_cost a) of
        Inl err \<Rightarrow> Inl (BcryptError err)
      | Inr h \<Rightarrow> Inr (a\<lparr>users := AList.update username
          \<lparr>us_Username = username, us_PasswordHash = h, us_Roles = roles, us_Banned = False\<rparr> (users a)\<rparr>))"

definition SetBanned :: "string \<Rightarrow> bool \<Rightarrow> Authenticator \<Rightarrow> Authenticator" where
  "SetBanned username banned a =
     (case map_of (users a) username of
        Some u \<Rightarrow> a\<lparr>users := AList.update username (u\<lparr>us_Banned := banned\<rparr>) (users a)\<rparr>
      | None \<Rightarrow> a)"

definition AuthPassword ::
    "(string \<Rightarrow> bytes \<Rightarrow> bool) \<Rightarrow> string \<Rightarrow> bytes \<Rightarrow> Authenticator \<Rightarrow> autherr + unit" where
  "AuthPassword cmp username password a =
     (case map_of (users a) username of
        None \<Rightarrow> Inl ErrBadCredentials
      | Some u \<Rightarrow>
          if us_Banned u then Inl ErrBanned
          else if \<not> cmp (us_PasswordHash u) password then Inl ErrBadCredentials
          else Inr ())"

section \<open>Tokens\<close>

text \<open>
  The errors of the token library the code distinguishes, and the type of \<open>jwt.ParseWithClaims\<close>: token,
  key function (told whether the signing method is an HMAC), required issuer and time; it
  returns the claims and the \<open>Valid\<close> flag.
\<close>

datatype jwterr = JwtExpired | JwtOther

type_synonym jwt_parser =
  "string \<Rightarrow> (bool \<Rightarrow> autherr + bytes) \<Rightarrow> string \<Rightarrow> time \<Rightarrow> jwterr + Claims \<times> bool"

definition keyfunc :: "Authenticator \<Rightarrow> bool \<Rightarrow> autherr + bytes" where
  "keyfunc a is_hmac = (if \<not> is_hmac then Inl ErrTokenInvalid else Inr (au_secret a))"

definition cacheLimit :: nat where
  "cacheLimit = 10000"

text \<open>\<open>pick\<close> is the key that a \<open>range\<close> over the cache yields first.\<close>

definition cacheToken ::
    "((string, cachedClaims) gomap \<Rightarrow> string) \<Rightarrow> string \<Rightarrow> cachedClaims \<Rightarrow> (string, cachedClaims) gomap
      \<Rightarrow> (string, cachedClaims) gomap" where
  "cacheToken pick tokenStr cc cache =
     (let cache = AList.update tokenStr cc cache
      in if length cache > cacheLimit then AList.delete (pick cache) cache else cache)"

text \<open>A token that is not served from the cache: parsed, checked and cached.\<close>

definition AuthJWT_parse ::
    "jwt_parser \<Rightarrow> ((string, cachedClaims) gomap \<Rightarrow> string) \<Rightarrow> time \<Rightarrow> string \<Rightarrow> Authenticator
      \<Rightarrow> (autherr + Claims) \<times> Authenticator" where
  "AuthJWT_parse parse pick now tokenStr a =
     (case parse tokenStr (keyfunc a) (au_issuer a) now of
        Inl JwtExpired \<Rightarrow> (Inl ErrTokenExpired, a)
      | Inl JwtOther \<Rightarrow> (Inl ErrTokenInvalid, a)
      | Inr (claims, valid) \<Rightarrow>
          if \<not> valid then (Inl ErrTokenInvalid, a)
          else case jc_ExpiresAt claims of
                 None \<Rightarrow> (Inl AuthPanic, a)
               | Some e \<Rightarrow>
                   (Inr claims, a\<lparr>tokenCache :=
                      cacheToken pick tokenStr \<lparr>cc_claims = claims, cc_expiresAt = e\<rparr> (tokenCache a)\<rparr>))"

definition AuthJWT ::
    "jwt_parser \<Rightarrow> ((string, cachedClaims) gomap \<Rightarrow> string) \<Rightarrow> time \<Rightarrow> string \<Rightarrow> Authenticator
      \<Rightarrow> (autherr + Claims) \<times> Authenticator" where
  "AuthJWT parse pick now tokenStr a =
     (case map_of (tokenCache a) tokenStr of
        Some cached \<Rightarrow>
          if now < cc_expiresAt cached then (Inr (cc_claims cached), a)
          else AuthJWT_parse parse pick now tokenStr a
      | None \<Rightarrow> AuthJWT_parse parse pick now tokenStr a)"

text \<open>\<open>numericDate\<close> stands for \<open>jwt.NewNumericDate\<close>, \<open>sign\<close> for signing with HS256.\<close>

definition IssueToken ::
    "(time \<Rightarrow> time) \<Rightarrow> (Claims \<Rightarrow> bytes \<Rightarrow> string + string) \<Rightarrow> time \<Rightarrow> string \<Rightarrow> string \<Rightarrow> string list
      \<Rightarrow> Authenticator \<Rightarrow> string + string" where
  "IssueToken numericDate sign now username clientID roles a =
     (let claims = \<lparr>jc_ClientID = clientID, jc_Username = username, jc_Roles = roles,
                    jc_Issuer = au_issuer a, jc_IssuedAt = Some (numericDate now),
                    jc_ExpiresAt = Some (numericDate (now + au_duration a))\<rparr>
      in sign claims (au_secret a))"

section \<open>Authorization\<close>

definition globMatch :: "string \<Rightarrow> string \<Rightarrow> bool" where
  "globMatch pattern s = (pattern = ''*'' \<or> pattern = s)"

definition rule_matches :: "ACLRule \<Rightarrow> string \<Rightarrow> string \<Rightarrow> bool" where
  "rule_matches r clientID topic =
     (globMatch (ClientGlob r) clientID \<and> topicFilterMatches (TopicFilter r) topic)"

definition AddACLRule :: "ACLRule \<Rightarrow> Authenticator \<Rightarrow> Authenticator" where
  "AddACLRule rule a = a\<lparr>aclRules := rule # aclRules a\<rparr>"

fun checkACL_loop :: "ACLRule list \<Rightarrow> string \<Rightarrow> string \<Rightarrow> Perm \<Rightarrow> bool" where
  "checkACL_loop [] clientID topic perm = True"
| "checkACL_loop (r # rs) clientID topic perm =
     (if rule_matches r clientID topic then Perm r AND perm \<noteq> 0
      else checkACL_loop rs clientID topic perm)"

definition checkACL :: "string \<Rightarrow> string \<Rightarrow> Perm \<Rightarrow> Authenticator \<Rightarrow> bool" where
  "checkACL clientID topic perm a = checkACL_loop (aclRules a) clientID topic perm"

definition sys_prefix :: string where
  "sys_prefix = ''$SYS/''"

definition CanPublish :: "string \<Rightarrow> string \<Rightarrow> Authenticator \<Rightarrow> bool" where
  "CanPublish clientID topic a =
     (if HasPrefix topic sys_prefix then False else checkACL clientID topic PermPublish a)"

definition CanSubscribe :: "string \<Rightarrow> string \<Rightarrow> Authenticator \<Rightarrow> bool" where
  "CanSubscribe clientID filter' a = checkACL clientID filter' PermSubscribe a"

section \<open>Rate limiter\<close>

record bucket =
  tokens :: rat
  last_time :: time

record RateLimiter =
  buckets :: "(string, bucket) gomap"
  rate :: rat
  burst :: rat

definition NewRateLimiter :: "rat \<Rightarrow> rat \<Rightarrow> RateLimiter" where
  "NewRateLimiter rt bst = \<lparr>buckets = [], rate = rt, burst = bst\<rparr>"

definition Seconds :: "time \<Rightarrow> rat" where
  "Seconds d = of_int d / 1000000000"

definition Allow :: "time \<Rightarrow> string \<Rightarrow> RateLimiter \<Rightarrow> RateLimiter \<times> bool" where
  "Allow now clientID r =
     (let b = (case map_of (buckets r) clientID of
                 Some b \<Rightarrow> b | None \<Rightarrow> \<lparr>tokens = burst r, last_time = now\<rparr>);
          elapsed = Seconds (now - last_time b);
          tk = tokens b + elapsed * rate r;
          tk = (if tk > burst r then burst r else tk)
      in if tk < 1
         then (r\<lparr>buckets := AList.update clientID \<lparr>tokens = tk, last_time = now\<rparr> (buckets r)\<rparr>, False)
         else (r\<lparr>buckets := AList.update clientID \<lparr>tokens = tk - 1, last_time = now\<rparr> (buckets r)\<rparr>, True))"

definition Cleanup :: "time \<Rightarrow> time \<Rightarrow> RateLimiter \<Rightarrow> RateLimiter" where
  "Cleanup now maxAge r =
     r\<lparr>buckets := filter (\<lambda>(_, b). \<not> last_time b < now - maxAge) (buckets r)\<rparr>"

section \<open>Access control\<close>

text \<open>When a rule applies, stated with the matching relation of topics and filters.\<close>

definition applies :: "ACLRule \<Rightarrow> string \<Rightarrow> string \<Rightarrow> bool" where
  "applies r clientID topic \<longleftrightarrow> (ClientGlob r = ''*'' \<or> ClientGlob r = clientID)
     \<and> mqtt_match (strings_Split (TopicFilter r) slash) (strings_Split topic slash)"

definition valid_rule :: "ACLRule \<Rightarrow> bool" where
  "valid_rule r = validTopicFilterSegments (strings_Split (TopicFilter r) slash)"

lemma topicFilterMatches_levels:
  "topicFilterMatches flt topic = match_levels (strings_Split topic slash) (strings_Split flt slash)"
  by (simp add: topicFilterMatches_def auth_matchSegs_eq matchSegs_eq)

lemma rule_matches_applies: "valid_rule r \<Longrightarrow> rule_matches r clientID topic = applies r clientID topic"
  by (simp add: rule_matches_def globMatch_def applies_def topicFilterMatches_levels valid_rule_def match_levels_mqtt)

lemma checkACL_find:
  "list_all valid_rule (aclRules a) \<Longrightarrow> checkACL clientID topic perm a =
     (case find (\<lambda>r. applies r clientID topic) (aclRules a) of
        None \<Rightarrow> True | Some r \<Rightarrow> Perm r AND perm \<noteq> 0)"
proof -
  have "list_all valid_rule rs \<Longrightarrow> checkACL_loop rs clientID topic perm =
      (case find (\<lambda>r. applies r clientID topic) rs of None \<Rightarrow> True | Some r \<Rightarrow> Perm r AND perm \<noteq> 0)" for rs
    by (induction rs) (simp_all add: rule_matches_applies)
  then show "list_all valid_rule (aclRules a) \<Longrightarrow> ?thesis"
    by (simp add: checkACL_def)
qed

section \<open>Token cache\<close>

definition cache_ok :: "Authenticator \<Rightarrow> bool" where
  "cache_ok a \<longleftrightarrow> wf_map (tokenCache a) \<and> length (tokenCache a) \<le> cacheLimit
     \<and> (\<forall>t cc. map_of (tokenCache a) t = Some cc \<longrightarrow> jc_ExpiresAt (cc_claims cc) = Some (cc_expiresAt cc))"

lemma length_update_le: "length (AList.update k v m) \<le> Suc (length m)"
  by (induction m) auto

lemma length_delete_less:
  "k \<in> set (keys m) \<Longrightarrow> length (AList.delete k m) < length m"
  unfolding AList.delete_eq by (auto intro!: length_filter_less)

lemma cacheToken_ok:
  assumes "wf_map m" "length m \<le> cacheLimit" "\<And>m. m \<noteq> [] \<Longrightarrow> pick m \<in> set (keys m)"
  shows "wf_map (cacheToken pick t cc m)" "length (cacheToken pick t cc m) \<le> cacheLimit"
    "map_of (cacheToken pick t cc m) u = Some dd \<Longrightarrow> (u = t \<and> dd = cc) \<or> map_of m u = Some dd"
proof -
  have "length (AList.delete (pick (AList.update t cc m)) (AList.update t cc m)) \<le> cacheLimit"
    using length_delete_less [OF assms(3), of "AList.update t cc m"] length_update_le [of t cc m] assms(2)
    by simp
  then show "length (cacheToken pick t cc m) \<le> cacheLimit"
    by (simp add: cacheToken_def Let_def)
  show "wf_map (cacheToken pick t cc m)"
    using assms(1) by (simp add: cacheToken_def Let_def)
  show "map_of (cacheToken pick t cc m) u = Some dd \<Longrightarrow> (u = t \<and> dd = cc) \<or> map_of m u = Some dd"
    by (simp add: cacheToken_def Let_def split: if_splits)
qed

text \<open>
  What the code relies on: \<open>range\<close> yields a key of a non-empty map, and the library, asked to
  require an expiration, accepts only tokens that carry one in the future.
\<close>

definition range_key :: "((string, cachedClaims) gomap \<Rightarrow> string) \<Rightarrow> bool" where
  "range_key pick \<longleftrightarrow> (\<forall>m. m \<noteq> [] \<longrightarrow> pick m \<in> set (keys m))"

definition requires_expiry :: "jwt_parser \<Rightarrow> bool" where
  "requires_expiry parse \<longleftrightarrow> (\<forall>tok kf iss now c. parse tok kf iss now = Inr (c, True) \<longrightarrow>
     (\<exists>e. jc_ExpiresAt c = Some e \<and> now < e))"

lemma requires_expiryD:
  "requires_expiry parse \<Longrightarrow> parse tok kf iss now = Inr (c, True) \<Longrightarrow> \<exists>e. jc_ExpiresAt c = Some e \<and> now < e"
  unfolding requires_expiry_def by blast

lemma AuthJWT_cases:
  assumes "AuthJWT parse pick now tok a = (res, a')"
  obtains (hit) cc where "map_of (tokenCache a) tok = Some cc" "now < cc_expiresAt cc"
      "res = Inr (cc_claims cc)" "a' = a"
    | (fail) e where "res = Inl e" "a' = a"
        "e = AuthPanic \<Longrightarrow> \<exists>c. parse tok (keyfunc a) (au_issuer a) now = Inr (c, True) \<and> jc_ExpiresAt c = None"
    | (parsed) c e where "parse tok (keyfunc a) (au_issuer a) now = Inr (c, True)" "jc_ExpiresAt c = Some e"
        "res = Inr c"
        "a' = a\<lparr>tokenCache := cacheToken pick tok \<lparr>cc_claims = c, cc_expiresAt = e\<rparr> (tokenCache a)\<rparr>"
proof (cases "\<exists>cc. map_of (tokenCache a) tok = Some cc \<and> now < cc_expiresAt cc")
  case True
  then obtain cc where "map_of (tokenCache a) tok = Some cc" "now < cc_expiresAt cc"
    by blast
  with assms show ?thesis
    by (intro hit [of cc]) (simp_all add: AuthJWT_def)
next
  case False
  then have "AuthJWT_parse parse pick now tok a = (res, a')"
    using assms by (cases "map_of (tokenCache a) tok") (simp_all add: AuthJWT_def)
  then show ?thesis
    using fail parsed unfolding AuthJWT_parse_def
    by (cases "parse tok (keyfunc a) (au_issuer a) now")
      (auto split: jwterr.splits prod.splits if_splits option.splits)
qed

lemma AuthJWT_cache_ok:
  assumes "range_key pick" "cache_ok a" "AuthJWT parse pick now tok a = (res, a')"
  shows "cache_ok a'"
  using assms(3)
proof (cases rule: AuthJWT_cases)
  case (parsed c e)
  let ?cc = "\<lparr>cc_claims = c, cc_expiresAt = e\<rparr>"
  have m: "wf_map (tokenCache a)" "length (tokenCache a) \<le> cacheLimit"
      "\<And>m. m \<noteq> [] \<Longrightarrow> pick m \<in> set (keys m)"
    using assms(1,2) by (auto simp: cache_ok_def range_key_def)
  have "jc_ExpiresAt (cc_claims dd) = Some (cc_expiresAt dd)"
    if "map_of (cacheToken pick tok ?cc (tokenCache a)) u = Some dd" for u dd
    using cacheToken_ok(3) [OF m that] parsed(2) assms(2) by (auto simp: cache_ok_def)
  with cacheToken_ok(1,2) [OF m] parsed(4) show ?thesis
    by (simp add: cache_ok_def)
qed (use assms in simp_all)

section \<open>Token bucket\<close>

definition bucket_allow :: "time \<Rightarrow> rat \<Rightarrow> rat \<Rightarrow> bucket \<Rightarrow> bucket \<times> bool" where
  "bucket_allow now rt bst b =
     (let tk = min bst (tokens b + Seconds (now - last_time b) * rt)
      in if tk < 1 then (\<lparr>tokens = tk, last_time = now\<rparr>, False)
         else (\<lparr>tokens = tk - 1, last_time = now\<rparr>, True))"

definition get_bucket :: "time \<Rightarrow> string \<Rightarrow> RateLimiter \<Rightarrow> bucket" where
  "get_bucket now c r =
     (case map_of (buckets r) c of Some b \<Rightarrow> b | None \<Rightarrow> \<lparr>tokens = burst r, last_time = now\<rparr>)"

lemma Allow_eq:
  "Allow now c r = (case bucket_allow now (rate r) (burst r) (get_bucket now c r) of
     (b, ok) \<Rightarrow> (r\<lparr>buckets := AList.update c b (buckets r)\<rparr>, ok))"
  by (simp add: Allow_def bucket_allow_def get_bucket_def Let_def min_def)

text \<open>The number of calls at the given times that are admitted.\<close>

fun admitted :: "string \<Rightarrow> time list \<Rightarrow> RateLimiter \<Rightarrow> nat" where
  "admitted c [] r = 0"
| "admitted c (t # ts) r = (case Allow t c r of (r', ok) \<Rightarrow> (if ok then 1 else 0) + admitted c ts r')"

lemma Allow_params [simp]: "rate (fst (Allow t c r)) = rate r" "burst (fst (Allow t c r)) = burst r"
  by (simp_all add: Allow_eq split_beta)

lemma Allow_other: "d \<noteq> c \<Longrightarrow> map_of (buckets (fst (Allow t c r))) d = map_of (buckets r) d"
  by (simp add: Allow_eq split_beta)

lemma Allow_own:
  "map_of (buckets (fst (Allow t c r))) c = Some (fst (bucket_allow t (rate r) (burst r) (get_bucket t c r)))"
  by (simp add: Allow_eq split_beta)

lemma Seconds_add: "Seconds (a + b) = Seconds a + Seconds b"
  by (simp add: Seconds_def add_divide_distrib)

lemma bucket_allow_tokens:
  "tokens (fst (bucket_allow t rt bst b)) + (if snd (bucket_allow t rt bst b) then 1 else 0)
     = min bst (tokens b + Seconds (t - last_time b) * rt)"
  "last_time (fst (bucket_allow t rt bst b)) = t"
  by (simp_all add: bucket_allow_def Let_def)

lemma admitted_bound:
  "0 \<le> rate r \<Longrightarrow> map_of (buckets r) c = Some b \<Longrightarrow> 0 \<le> tokens b \<Longrightarrow> 0 \<le> burst r \<Longrightarrow>
   sorted (last_time b # ts) \<Longrightarrow>
   of_nat (admitted c ts r) \<le> tokens b + rate r * Seconds (last (last_time b # ts) - last_time b)"
proof (induction ts arbitrary: r b)
  case (Cons t ts)
  let ?p = "bucket_allow t (rate r) (burst r) b"
  let ?r = "fst (Allow t c r)"
  have own: "map_of (buckets ?r) c = Some (fst ?p)"
    using Cons.prems(2) by (simp add: Allow_own get_bucket_def)
  have sn: "snd (Allow t c r) = snd ?p"
    using Cons.prems(2) by (simp add: Allow_eq get_bucket_def split_beta)
  have tk: "tokens (fst ?p) + (if snd ?p then 1 else 0) \<le> tokens b + Seconds (t - last_time b) * rate r"
    unfolding bucket_allow_tokens(1) by simp
  have "0 \<le> Seconds (t - last_time b) * rate r"
    using Cons.prems by (intro mult_nonneg_nonneg) (auto simp: Seconds_def)
  then have "0 \<le> tokens (fst ?p)"
    using Cons.prems(3,4) by (auto simp: bucket_allow_def Let_def)
  then have "of_nat (admitted c ts ?r) \<le>
      tokens (fst ?p) + rate ?r * Seconds (last (last_time (fst ?p) # ts) - last_time (fst ?p))"
    using Cons.prems own by (intro Cons.IH) (auto simp: bucket_allow_tokens(2))
  then have "of_nat (admitted c (t # ts) r) \<le>
      tokens (fst ?p) + (if snd ?p then 1 else 0) + rate r * Seconds (last (t # ts) - t)"
    by (simp add: split_beta sn bucket_allow_tokens(2))
  also have "\<dots> \<le> tokens b + rate r * (Seconds (t - last_time b) + Seconds (last (t # ts) - t))"
    using tk by (simp add: algebra_simps)
  also have "Seconds (t - last_time b) + Seconds (last (t # ts) - t) = Seconds (last (t # ts) - last_time b)"
    by (simp flip: Seconds_add)
  finally show ?case
    by simp
qed (simp add: Seconds_def)

definition limiter_ok :: "RateLimiter \<Rightarrow> bool" where
  "limiter_ok r \<longleftrightarrow> 0 \<le> rate r \<and> 0 \<le> burst r
     \<and> (\<forall>c b. map_of (buckets r) c = Some b \<longrightarrow> 0 \<le> tokens b \<and> tokens b \<le> burst r)"

lemma limiter_ok_New: "0 \<le> rt \<Longrightarrow> 0 \<le> bst \<Longrightarrow> limiter_ok (NewRateLimiter rt bst)"
  by (simp add: limiter_ok_def NewRateLimiter_def)

section \<open>Properties\<close>



text \<open>
  A rule is matched against the filter of a subscription as if it were a topic name. A rule that
  denies \<open>secret/x\<close> to subscribers therefore does not stop a subscription to \<open>#\<close>, which receives
  what is published there.
\<close>

theorem acl_subscribe_bypass:
  defines "rule \<equiv> \<lparr>ClientGlob = ''*'', TopicFilter = ''secret/x'', Perm = PermPublish\<rparr>"
  defines "a \<equiv> AddACLRule rule (Authenticator_New ''s'' ''i'' 0 4)"
  shows "\<not> CanSubscribe c ''secret/x'' a \<and> CanSubscribe c ''#'' a \<and> TopicMatchesFilter ''secret/x'' ''#''"
proof -
  let ?sys = "\<lparr>ClientGlob = ''*'', TopicFilter = ''$SYS/#'', Perm = PermSubscribe\<rparr>"
  have rules: "aclRules a = [rule, ?sys]"
    by (simp add: a_def AddACLRule_def Authenticator_New_def loadDefaultACL_def)
  have valid: "list_all valid_rule (aclRules a)"
    by (simp add: rules valid_rule_def rule_def)
  have "applies rule c ''secret/x''" "\<not> applies rule c ''#''" "\<not> applies ?sys c ''#''"
    by (simp_all add: rule_def applies_def mqtt_match_def level_match_def)
  moreover have "Perm rule AND PermSubscribe = 0"
    by (simp add: rule_def PermPublish_def PermSubscribe_def)
  moreover have "TopicMatchesFilter ''secret/x'' ''#''"
    by (simp add: TopicMatchesFilter_levels)
  ultimately show ?thesis
    by (simp add: CanSubscribe_def checkACL_find [OF valid] rules)
qed



text \<open>
  C27: a token is accepted only before the expiry its claims state, whether it is parsed or served from
  the cache, and the cache holds at most 10000 tokens; the call never fails on a missing expiry.
\<close>

theorem token_accepted_before_expiry:
  assumes lib: "requires_expiry parse" "range_key pick" and ok: "cache_ok a"
    and call: "AuthJWT parse pick now tok a = (res, a')"
  shows "cache_ok a' \<and> length (tokenCache a') \<le> 10000 \<and> res \<noteq> Inl AuthPanic
    \<and> (case res of Inr c \<Rightarrow> (\<exists>e. jc_ExpiresAt c = Some e \<and> now < e) | Inl _ \<Rightarrow> a' = a)"
proof -
  have ok': "cache_ok a'"
    by (rule AuthJWT_cache_ok [OF lib(2) ok call])
  from call have "res \<noteq> Inl AuthPanic
      \<and> (case res of Inr c \<Rightarrow> (\<exists>e. jc_ExpiresAt c = Some e \<and> now < e) | Inl _ \<Rightarrow> a' = a)"
  proof (cases rule: AuthJWT_cases)
    case (hit cc)
    with ok show ?thesis
      by (auto simp: cache_ok_def)
  next
    case (fail e)
    have "e \<noteq> AuthPanic"
    proof
      assume "e = AuthPanic"
      then obtain c where "parse tok (keyfunc a) (au_issuer a) now = Inr (c, True)" "jc_ExpiresAt c = None"
        using fail(3) by blast
      with requires_expiryD [OF lib(1)] show False
        by fastforce
    qed
    with fail show ?thesis
      by simp
  next
    case (parsed c e)
    with requires_expiryD [OF lib(1) parsed(1)] show ?thesis
      by simp
  qed
  with ok' show ?thesis
    by (auto simp: cache_ok_def cacheLimit_def)
qed

theorem token_accepted_before_expiry_witness:
  "\<exists>a'. AuthJWT (\<lambda>tok kf iss now. if now < 100 then Inr (\<lparr>jc_ClientID = ''c'', jc_Username = ''u'', jc_Roles = [],
        jc_Issuer = iss, jc_IssuedAt = None, jc_ExpiresAt = Some 100\<rparr>, True) else Inl JwtExpired)
      (\<lambda>m. fst (hd m)) 7 ''tok'' (Authenticator_New ''s'' ''i'' 0 4)
    = (Inr \<lparr>jc_ClientID = ''c'', jc_Username = ''u'', jc_Roles = [], jc_Issuer = ''i'', jc_IssuedAt = None,
        jc_ExpiresAt = Some 100\<rparr>, a') \<and> cache_ok a'"
proof -
  let ?parse = "\<lambda>(tok :: string) (kf :: bool \<Rightarrow> autherr + bytes) iss now.
      if now < (100 :: time) then Inr (\<lparr>jc_ClientID = ''c'', jc_Username = ''u'', jc_Roles = [],
        jc_Issuer = iss, jc_IssuedAt = None, jc_ExpiresAt = Some 100\<rparr>, True) else Inl JwtExpired"
  let ?pick = "\<lambda>m :: (string, cachedClaims) gomap. fst (hd m)"
  let ?a = "Authenticator_New ''s'' ''i'' 0 4"
  have "requires_expiry ?parse" "range_key ?pick" "cache_ok ?a"
    by (auto simp: requires_expiry_def range_key_def cache_ok_def Authenticator_New_def)
  from token_accepted_before_expiry [OF this, of 7 "''tok''" "fst (AuthJWT ?parse ?pick 7 ''tok'' ?a)"
      "snd (AuthJWT ?parse ?pick 7 ''tok'' ?a)"]
  show ?thesis
    by (simp add: AuthJWT_def AuthJWT_parse_def Authenticator_New_def)
qed



end
