(* ===== verification/Cluster.thy ===== *)
theory Cluster
  imports Prelude "HOL-Library.List_Lexorder" "HOL-Library.Char_ord"
begin

text \<open>
  Partition ownership (\<open>internal/cluster/partition.go\<close>) and its periodic reconciliation with the
  brokers that are alive (\<open>reconcilePartitions\<close> of \<open>internal/broker/server.go\<close>). Shown: a topic
  is placed in a partition that exists; after a reconciliation every partition has an alive owner,
  the partitions are spread evenly, and brokers that see the same alive brokers agree on every owner.
\<close>

section \<open>Ownership\<close>

record ClusterManager =
  cm_brokerID :: string
  cm_partitionCount :: int
  cm_ownership :: "(int, string) gomap"

definition ClusterManager_New :: "string \<Rightarrow> int \<Rightarrow> ClusterManager" where
  "ClusterManager_New brokerID partitionCount =
     \<lparr>cm_brokerID = brokerID, cm_partitionCount = partitionCount,
      cm_ownership = fold (\<lambda>i m. AList.update i brokerID m) [0..partitionCount - 1] []\<rparr>"

text \<open>Go's \<open>%\<close> panics on a zero divisor.\<close>

definition PartitionForTopic :: "string \<Rightarrow> ClusterManager \<Rightarrow> goerr + int" where
  "PartitionForTopic topic m =
     (let n = (of_int (cm_partitionCount m) :: uint32) in
      if n = 0 then Inl Panic else Inr (int (unat (fnv32a (bytes_of_string topic) mod n))))"

definition Owner :: "int \<Rightarrow> ClusterManager \<Rightarrow> string" where
  "Owner p m =
     (case map_of (cm_ownership m) p of Some owner \<Rightarrow> owner | None \<Rightarrow> cm_brokerID m)"

definition SetOwner :: "int \<Rightarrow> string \<Rightarrow> ClusterManager \<Rightarrow> ClusterManager" where
  "SetOwner p brokerID m = m\<lparr>cm_ownership := AList.update p brokerID (cm_ownership m)\<rparr>"

definition IsLocalOwner :: "string \<Rightarrow> ClusterManager \<Rightarrow> goerr + bool" where
  "IsLocalOwner topic m =
     bindE (PartitionForTopic topic m) (\<lambda>p. Inr (Owner p m = cm_brokerID m))"

text \<open>
  \<open>alive\<close> is the answer of \<open>AliveBrokerIDsAfterPrune\<close>, \<^const>\<open>None\<close> for an error; \<open>self\<close> and
  \<open>count\<close> are the broker's own identifier and the configured number of partitions.
\<close>

definition reconcilePartitions ::
    "string list option \<Rightarrow> string \<Rightarrow> int \<Rightarrow> ClusterManager \<Rightarrow> ClusterManager" where
  "reconcilePartitions alive self count m =
     (case alive of
        None \<Rightarrow> fold (\<lambda>p. SetOwner p self) [0..count - 1] m
      | Some ids \<Rightarrow>
          if length ids = 0 then fold (\<lambda>p. SetOwner p self) [0..count - 1] m
          else
            let ids = sort ids; n = length ids
            in fold (\<lambda>p. SetOwner p (ids ! nat (p mod int n))) [0..count - 1] m)"

section \<open>Reconciliation\<close>

lemma Owner_SetOwner: "Owner p (SetOwner q b m) = (if p = q then b else Owner p m)"
  by (simp add: Owner_def SetOwner_def split: option.split)

lemma SetOwner_sel [simp]:
  "cm_brokerID (SetOwner p b m) = cm_brokerID m" "cm_partitionCount (SetOwner p b m) = cm_partitionCount m"
  by (simp_all add: SetOwner_def)

lemma Owner_fold_SetOwner:
  "Owner p (fold (\<lambda>q. SetOwner q (f q)) ps m) = (if p \<in> set ps then f p else Owner p m)"
  by (induction ps arbitrary: m) (auto simp: Owner_SetOwner)

lemma Owner_reconcile:
  assumes "0 \<le> p" "p < count"
  shows "Owner p (reconcilePartitions alive self count m) =
    (case alive of None \<Rightarrow> self
     | Some ids \<Rightarrow> if ids = [] then self else sort ids ! nat (p mod int (length ids)))"
  using assms by (simp add: reconcilePartitions_def Owner_fold_SetOwner Let_def split: option.split)

text \<open>The partitions below \<open>c\<close> with remainder \<open>i\<close>.\<close>

lemma card_residue:
  assumes "i < n"
  shows "card {p. p < c \<and> p mod n = i} = (c + (n - 1 - i)) div n"
proof (induction c)
  case 0
  have "(n - 1 - i) div n = 0"
    using assms by simp
  then show ?case
    by simp
next
  case (Suc c)
  have "{p. p < Suc c \<and> p mod n = i} =
      (if c mod n = i then insert c {p. p < c \<and> p mod n = i} else {p. p < c \<and> p mod n = i})"
    by (auto simp: less_Suc_eq)
  then have "card {p. p < Suc c \<and> p mod n = i} =
      (if c mod n = i then Suc (card {p. p < c \<and> p mod n = i}) else card {p. p < c \<and> p mod n = i})"
    by simp
  also have "\<dots> = (Suc c + (n - 1 - i)) div n"
  proof -
    have "(c + (n - 1 - i)) mod n = n - 1 \<longleftrightarrow> c mod n = i"
    proof -
      define r where "r = c mod n"
      have r: "r < n"
        using assms by (simp add: r_def)
      have "(c + (n - 1 - i)) mod n = (r + (n - 1 - i)) mod n"
        by (simp add: r_def mod_simps)
      moreover have "(r + (n - 1 - i)) mod n = (if r \<le> i then r + (n - 1 - i) else r - i - 1)"
      proof (cases "r \<le> i")
        case False
        then have "r + (n - 1 - i) = n + (r - i - 1)"
          using assms by simp
        then have "(r + (n - 1 - i)) mod n = (r - i - 1) mod n"
          by (metis mod_add_self1)
        with False r show ?thesis
          by simp
      qed (use assms in simp)
      ultimately show ?thesis
        unfolding r_def [symmetric] using r assms by auto
    qed
    then have "Suc (c + (n - 1 - i)) mod n = 0 \<longleftrightarrow> c mod n = i"
      using assms by (auto simp: mod_Suc)
    then show ?thesis
      using Suc.IH by (simp only: add_Suc div_Suc)
  qed
  finally show ?case .
qed

lemma share_bounds:
  assumes "i < (n :: nat)"
  shows "c div n \<le> (c + (n - 1 - i)) div n" "(c + (n - 1 - i)) div n \<le> c div n + 1"
proof -
  show "c div n \<le> (c + (n - 1 - i)) div n"
    by (rule div_le_mono) simp
  have "(c + (n - 1 - i)) div n \<le> (c + n) div n"
    by (rule div_le_mono) simp
  moreover have "n \<noteq> 0"
    using assms by simp
  then have "(c + n) div n = c div n + 1"
    by (rule div_add_self2)
  ultimately show "(c + (n - 1 - i)) div n \<le> c div n + 1"
    by (simp only:)
qed

text \<open>The owner of a partition right after a successful reconciliation.\<close>

definition owner_of :: "string list \<Rightarrow> string \<Rightarrow> nat \<Rightarrow> ClusterManager \<Rightarrow> nat \<Rightarrow> string" where
  "owner_of ids self c m p = Owner (int p) (reconcilePartitions (Some ids) self (int c) m)"

lemma owner_of_eq:
  "p < c \<Longrightarrow> ids \<noteq> [] \<Longrightarrow> owner_of ids self c m p = sort ids ! (p mod length ids)"
  by (simp add: owner_of_def Owner_reconcile nat_mod_distrib)

lemma card_owned:
  assumes "distinct ids" "ids \<noteq> []" "b \<in> set ids"
  obtains i where "i < length ids"
    "{p. p < c \<and> owner_of ids self c m p = b} = {p. p < c \<and> p mod length ids = i}"
proof -
  obtain i where i: "i < length (sort ids)" "sort ids ! i = b"
    using assms(3) by (metis in_set_conv_nth set_sort)
  have "distinct (sort ids)"
    using assms(1) by simp
  then have "sort ids ! j = b \<longleftrightarrow> j = i" if "j < length ids" for j
    using that i by (auto simp: nth_eq_iff_index_eq)
  then have "owner_of ids self c m p = b \<longleftrightarrow> p mod length ids = i" if "p < c" for p
    using that assms(2) by (simp add: owner_of_eq)
  then have "{p. p < c \<and> owner_of ids self c m p = b} = {p. p < c \<and> p mod length ids = i}"
    by blast
  with i(1) that show ?thesis
    by simp
qed

lemma sort_same_set:
  "distinct xs \<Longrightarrow> distinct ys \<Longrightarrow> set xs = set ys \<Longrightarrow> sort xs = sort (ys :: string list)"
  using sorted_list_of_set_sort_remdups [of xs] sorted_list_of_set_sort_remdups [of ys]
  by (simp add: distinct_remdups_id)

section \<open>Properties\<close>

text \<open>
  with a positive number of partitions that fits in 32 bits, every topic has a partition, and it is one
  of them; with none the computation panics.
\<close>

theorem partition_in_range:
  assumes "0 \<le> cm_partitionCount m" "cm_partitionCount m < 2 ^ 32"
  shows "case PartitionForTopic topic m of
      Inr p \<Rightarrow> 0 \<le> p \<and> p < cm_partitionCount m
    | Inl e \<Rightarrow> e = Panic \<and> cm_partitionCount m = 0"
proof -
  let ?n = "of_int (cm_partitionCount m) :: uint32"
  have n: "int (unat ?n) = cm_partitionCount m"
    using assms by (simp add: uint_word_of_int_eq take_bit_int_eq_self)
  show ?thesis
  proof (cases "?n = 0")
    case True
    with n show ?thesis
      by (simp add: PartitionForTopic_def)
  next
    case False
    then have "unat (fnv32a (bytes_of_string topic) mod ?n) < unat ?n"
      by (simp add: unat_mod unat_gt_0)
    then have "int (unat (fnv32a (bytes_of_string topic) mod ?n)) < int (unat ?n)"
      by (simp only: of_nat_less_iff)
    also note n
    finally have "int (unat (fnv32a (bytes_of_string topic) mod ?n)) < cm_partitionCount m" .
    with False show ?thesis
      by (simp add: PartitionForTopic_def Let_def)
  qed
qed

theorem partition_in_range_witness:
  "case PartitionForTopic ''a/b'' (ClusterManager_New ''n1'' 8) of
     Inr p \<Rightarrow> 0 \<le> p \<and> p < 8 | Inl e \<Rightarrow> False"
  using partition_in_range [of "ClusterManager_New ''n1'' 8" "''a/b''"]
  by (simp add: ClusterManager_New_def split: sum.splits)

text \<open>
  C39: after reconciling with a non-empty list of distinct alive brokers, every partition is owned by
  one of them, the number of partitions of two brokers differs by at most one, and any other broker
  that reconciles with the same brokers, listed in any order, has the same owner for every partition.
\<close>

theorem reconcile_partitions:
  assumes "distinct ids" "ids \<noteq> []"
  shows "(\<forall>p<c. owner_of ids self c m p \<in> set ids)
    \<and> (\<forall>b\<in>set ids. c div length ids \<le> card {p. p < c \<and> owner_of ids self c m p = b}
         \<and> card {p. p < c \<and> owner_of ids self c m p = b} \<le> c div length ids + 1)
    \<and> (\<forall>ids' self' m'. distinct ids' \<and> set ids' = set ids \<longrightarrow>
         (\<forall>p<c. owner_of ids' self' c m' p = owner_of ids self c m p))"
proof (intro conjI allI ballI impI)
  fix p assume "p < c"
  have "sort ids ! (p mod length ids) \<in> set (sort ids)"
    using assms(2) by (intro nth_mem) simp
  with \<open>p < c\<close> assms(2) show "owner_of ids self c m p \<in> set ids"
    by (simp add: owner_of_eq)
next
  fix b assume "b \<in> set ids"
  then obtain i where i: "i < length ids"
      "{p. p < c \<and> owner_of ids self c m p = b} = {p. p < c \<and> p mod length ids = i}"
    using assms by (elim card_owned)
  then show "c div length ids \<le> card {p. p < c \<and> owner_of ids self c m p = b}"
      "card {p. p < c \<and> owner_of ids self c m p = b} \<le> c div length ids + 1"
    using share_bounds [OF i(1), of c] by (simp_all add: card_residue)
next
  fix ids' self' m' p
  assume ids': "distinct ids' \<and> set ids' = set ids" and "p < c"
  then have "length ids' = length ids" "ids' \<noteq> []"
    using assms distinct_card [of ids'] distinct_card [of ids] by auto
  with sort_same_set [of ids' ids] ids' assms \<open>p < c\<close>
  show "owner_of ids' self' c m' p = owner_of ids self c m p"
    by (simp add: owner_of_eq)
qed

theorem reconcile_partitions_witness:
  "owner_of [''n2'', ''n1''] ''n1'' 5 (ClusterManager_New ''n1'' 5) 4 \<in> {''n1'', ''n2''}"
proof -
  let ?ids = "[''n2'', ''n1'']"
  have "distinct ?ids" "?ids \<noteq> []"
    by simp_all
  then have "\<forall>p<5. owner_of ?ids ''n1'' 5 (ClusterManager_New ''n1'' 5) p \<in> set ?ids"
    using reconcile_partitions by blast
  then have "owner_of ?ids ''n1'' 5 (ClusterManager_New ''n1'' 5) 4 \<in> set ?ids"
    by simp
  then show ?thesis
    by auto
qed

end
