(* ===== verification/Plugin.thy ===== *)
theory Plugin
  imports Prelude
begin

text \<open>
  The plugin registry (\<open>internal/plugin/plugin.go\<close>). A hook is code outside the sources: it is a
  record of functions that return an error or nothing. Shown: hooks are asked in the order of
  registration, the first error is the answer, and without an error of any hook there is none.
\<close>

record Hook =
  hk_Name :: string
  hk_OnClientConnect :: "string \<Rightarrow> string \<Rightarrow> goerr option"
  hk_OnClientDisconnect :: "string \<Rightarrow> string \<Rightarrow> goerr option"
  hk_OnPublish :: "string \<Rightarrow> string \<Rightarrow> bytes \<Rightarrow> byte \<Rightarrow> bool \<Rightarrow> goerr option"
  hk_OnSubscribe :: "string \<Rightarrow> string \<Rightarrow> byte \<Rightarrow> goerr option"

definition noopHook :: Hook where
  "noopHook = \<lparr>hk_Name = ''noop'', hk_OnClientConnect = (\<lambda>_ _. None),
     hk_OnClientDisconnect = (\<lambda>_ _. None), hk_OnPublish = (\<lambda>_ _ _ _ _. None),
     hk_OnSubscribe = (\<lambda>_ _ _. None)\<rparr>"

record PluginManager =
  hooks :: "Hook list"

definition PluginManager_New :: PluginManager where
  "PluginManager_New = \<lparr>hooks = [noopHook]\<rparr>"

definition Register :: "Hook option \<Rightarrow> PluginManager \<Rightarrow> PluginManager" where
  "Register h m = (case h of None \<Rightarrow> m | Some h \<Rightarrow> m\<lparr>hooks := hooks m @ [h]\<rparr>)"

fun call_loop :: "(Hook \<Rightarrow> goerr option) \<Rightarrow> Hook list \<Rightarrow> goerr option" where
  "call_loop fn [] = None"
| "call_loop fn (h # hs) = (case fn h of Some err \<Rightarrow> Some err | None \<Rightarrow> call_loop fn hs)"

definition plugin_call :: "(Hook \<Rightarrow> goerr option) \<Rightarrow> PluginManager \<Rightarrow> goerr option" where
  "plugin_call fn m = call_loop fn (hooks m)"

definition OnClientConnect :: "string \<Rightarrow> string \<Rightarrow> PluginManager \<Rightarrow> goerr option" where
  "OnClientConnect clientID username m = plugin_call (\<lambda>h. hk_OnClientConnect h clientID username) m"

definition OnClientDisconnect :: "string \<Rightarrow> string \<Rightarrow> PluginManager \<Rightarrow> goerr option" where
  "OnClientDisconnect clientID username m = plugin_call (\<lambda>h. hk_OnClientDisconnect h clientID username) m"

definition OnPublish :: "string \<Rightarrow> string \<Rightarrow> bytes \<Rightarrow> byte \<Rightarrow> bool \<Rightarrow> PluginManager \<Rightarrow> goerr option" where
  "OnPublish clientID topic payload qos retain m =
     plugin_call (\<lambda>h. hk_OnPublish h clientID topic payload qos retain) m"

definition OnSubscribe :: "string \<Rightarrow> string \<Rightarrow> byte \<Rightarrow> PluginManager \<Rightarrow> goerr option" where
  "OnSubscribe clientID filter' qos m = plugin_call (\<lambda>h. hk_OnSubscribe h clientID filter' qos) m"

section \<open>Dispatch\<close>

lemma call_loop_append:
  "call_loop fn (hs @ hs') = (case call_loop fn hs of Some e \<Rightarrow> Some e | None \<Rightarrow> call_loop fn hs')"
  by (induction hs) (simp_all split: option.split)

lemma call_loop_None: "call_loop fn hs = None \<longleftrightarrow> (\<forall>h\<in>set hs. fn h = None)"
  by (induction hs) (auto split: option.split)

lemma call_loop_Some:
  "call_loop fn hs = Some e \<longleftrightarrow> (\<exists>pre h post. hs = pre @ h # post \<and> (\<forall>x\<in>set pre. fn x = None) \<and> fn h = Some e)"
proof
  assume "call_loop fn hs = Some e"
  then show "\<exists>pre h post. hs = pre @ h # post \<and> (\<forall>x\<in>set pre. fn x = None) \<and> fn h = Some e"
  proof (induction hs)
    case (Cons h hs)
    show ?case
    proof (cases "fn h")
      case None
      with Cons obtain pre h' post where "hs = pre @ h' # post" "\<forall>x\<in>set pre. fn x = None" "fn h' = Some e"
        by auto
      with None have "h # hs = (h # pre) @ h' # post" "\<forall>x\<in>set (h # pre). fn x = None" "fn h' = Some e"
        by simp_all
      then show ?thesis
        by blast
    next
      case (Some e')
      with Cons.prems show ?thesis
        by (intro exI [of _ "[]"]) simp
    qed
  qed simp
next
  assume "\<exists>pre h post. hs = pre @ h # post \<and> (\<forall>x\<in>set pre. fn x = None) \<and> fn h = Some e"
  then show "call_loop fn hs = Some e"
    by (auto simp: call_loop_append call_loop_None [THEN iffD2])
qed

section \<open>Properties\<close>


end
