(* ===== verification/Storage.thy ===== *)
theory Storage
  imports Prelude
begin

text \<open>
  What the broker exchanges with its storage (\<open>internal/storage/storage.go\<close>): the records, and the
  requests the broker makes of Redis and PostgreSQL. The servers are outside the sources: a
  request is kept in a log, and an answer is an argument of the code that waits for it.
\<close>

record ClientInfo =
  ci_ClientID :: string
  ci_Username :: string
  ci_BrokerID :: string
  ci_RemoteAddr :: string
  ci_ConnectedAt :: time
  ci_Protocol :: byte

record RetainedRecord =
  rr_Topic :: string
  rr_Payload :: bytes
  rr_QoS :: byte
  rr_Timestamp :: time

record ClusterMsg =
  cg_Ver :: int
  cg_SourceBroker :: string
  cg_Partition :: int
  cg_Sequence :: uint64
  cg_Topic :: string
  cg_Payload :: bytes
  cg_QoS :: byte
  cg_Retain :: bool
  cg_TimestampUnix :: int

record APIPublishMsg =
  ap_Topic :: string
  ap_Payload :: string
  ap_QoS :: byte
  ap_Retain :: bool
  ap_Publisher :: string

record SubRecord =
  sr_Filter :: string
  sr_QoS :: byte

datatype storage_call =
    SetClient ClientInfo
  | DelClient string
  | SetDeviceStatus string bool
  | IncrMsgRate
  | Redis_SetRetained string bytes byte
  | LogMsg string bytes byte bool string
  | PublishCluster ClusterMsg
  | SaveSub string string byte
  | DeleteSub string string
  | DeleteAllSubs string

end
