(* ===== verification/Effects.thy ===== *)
theory Effects
  imports Main
begin

text \<open>
  Code that changes a shared state and may end with an error: a function from the state to a result
  (\<open>Inl\<close> the error) and the state at that point. Go keeps the effects made before an error, and so does
  the model. \<open>avoids P E m\<close> says that \<open>m\<close> preserves \<open>P\<close> whether it fails or not, and does not fail with
  an error in \<open>E\<close>; its rules are introduction rules, so that the preservation of an invariant follows
  the structure of the code.
\<close>

named_theorems safe \<open>preservation of an invariant by the effects of a program\<close>

type_synonym ('s, 'e, 'a) eff = "'s \<Rightarrow> ('e + 'a) \<times> 's"

definition ret :: "'a \<Rightarrow> ('s, 'e, 'a) eff" where
  "ret x s = (Inr x, s)"

definition throw :: "'e \<Rightarrow> ('s, 'e, 'a) eff" where
  "throw e s = (Inl e, s)"

definition bindM :: "('s, 'e, 'a) eff \<Rightarrow> ('a \<Rightarrow> ('s, 'e, 'b) eff) \<Rightarrow> ('s, 'e, 'b) eff" where
  "bindM m k s = (case m s of (Inl e, s') \<Rightarrow> (Inl e, s') | (Inr x, s') \<Rightarrow> k x s')"

definition thenM :: "('s, 'e, 'a) eff \<Rightarrow> ('s, 'e, 'b) eff \<Rightarrow> ('s, 'e, 'b) eff" where
  "thenM m k = bindM m (\<lambda>_. k)"

definition gets :: "('s \<Rightarrow> 'a) \<Rightarrow> ('s, 'e, 'a) eff" where
  "gets f s = (Inr (f s), s)"

definition modify :: "('s \<Rightarrow> 's) \<Rightarrow> ('s, 'e, unit) eff" where
  "modify f s = (Inr (), f s)"

definition liftE :: "('f \<Rightarrow> 'e) \<Rightarrow> 'f + 'a \<Rightarrow> ('s, 'e, 'a) eff" where
  "liftE f r s = (case r of Inl e \<Rightarrow> (Inl (f e), s) | Inr x \<Rightarrow> (Inr x, s))"

primrec forM :: "('b \<Rightarrow> ('s, 'e, unit) eff) \<Rightarrow> 'b list \<Rightarrow> ('s, 'e, unit) eff" where
  "forM f [] = ret ()"
| "forM f (x # xs) = thenM (f x) (forM f xs)"

text \<open>A loop that collects what its turns return.\<close>

primrec mapM :: "('b \<Rightarrow> ('s, 'e, 'a) eff) \<Rightarrow> 'b list \<Rightarrow> ('s, 'e, 'a list) eff" where
  "mapM f [] = ret []"
| "mapM f (x # xs) = bindM (f x) (\<lambda>y. bindM (mapM f xs) (\<lambda>ys. ret (y # ys)))"

lemmas eff_defs = ret_def throw_def bindM_def thenM_def gets_def modify_def liftE_def

section \<open>Weakest preconditions\<close>

text \<open>
  \<open>wp m Q R s\<close>: run from \<open>s\<close>, the program ends with a result and a state in \<open>Q\<close>, or with an error and a
  state in \<open>R\<close>. The equations compute the precondition of a program from its text.
\<close>

definition wp :: "('s, 'e, 'a) eff \<Rightarrow> ('a \<Rightarrow> 's \<Rightarrow> bool) \<Rightarrow> ('e \<Rightarrow> 's \<Rightarrow> bool) \<Rightarrow> 's \<Rightarrow> bool" where
  "wp m Q R s = (case m s of (Inl e, s') \<Rightarrow> R e s' | (Inr x, s') \<Rightarrow> Q x s')"

lemma wp_ret [simp]: "wp (ret x) Q R = Q x"
  by (simp add: fun_eq_iff wp_def ret_def)

lemma wp_throw [simp]: "wp (throw e) Q R = R e"
  by (simp add: fun_eq_iff wp_def throw_def)

lemma wp_gets [simp]: "wp (gets f) Q R = (\<lambda>s. Q (f s) s)"
  by (simp add: fun_eq_iff wp_def gets_def)

lemma wp_modify [simp]: "wp (modify f) Q R = (\<lambda>s. Q () (f s))"
  by (simp add: fun_eq_iff wp_def modify_def)

lemma wp_bind [simp]: "wp (bindM m k) Q R = wp m (\<lambda>x. wp (k x) Q R) R"
  by (auto simp: fun_eq_iff wp_def bindM_def split: prod.split sum.split)

lemma wp_then [simp]: "wp (thenM m n) Q R = wp m (\<lambda>_. wp n Q R) R"
  by (simp add: thenM_def)

lemma wp_liftE: "wp (liftE f r) Q R s = (case r of Inl e \<Rightarrow> R (f e) s | Inr y \<Rightarrow> Q y s)"
  by (simp add: wp_def liftE_def split: sum.split)

lemma wp_if: "wp (if c then m else n) Q R s = (if c then wp m Q R s else wp n Q R s)"
  by simp

lemma wp_mono:
  "wp m Q R s \<Longrightarrow> (\<And>x s'. Q x s' \<Longrightarrow> Q' x s') \<Longrightarrow> (\<And>e s'. R e s' \<Longrightarrow> R' e s') \<Longrightarrow> wp m Q' R' s"
  by (auto simp: wp_def split: prod.splits sum.splits)

lemma wp_forM:
  assumes "I s" "\<And>x s. x \<in> set xs \<Longrightarrow> I s \<Longrightarrow> wp (f x) (\<lambda>_. I) R s"
  shows "wp (forM f xs) (\<lambda>_. I) R s"
  using assms
proof (induction xs arbitrary: s)
  case (Cons x xs)
  have "wp (f x) (\<lambda>_. I) R s"
    using Cons.prems by simp
  then show ?case
    using Cons.IH Cons.prems(2) by (auto elim: wp_mono)
qed simp

lemma wp_mapM:
  assumes "I s" "\<And>x s. x \<in> set xs \<Longrightarrow> I s \<Longrightarrow> wp (f x) (\<lambda>_. I) R s"
  shows "wp (mapM f xs) (\<lambda>_. I) R s"
  using assms
proof (induction xs arbitrary: s)
  case (Cons x xs)
  have "wp (f x) (\<lambda>_. I) R s"
    using Cons.prems by simp
  moreover have "wp (mapM f xs) (\<lambda>_. I) R s'" if "I s'" for s'
    using Cons.IH Cons.prems(2) that by simp
  ultimately show ?case
    by (auto elim!: wp_mono)
qed simp

section \<open>Preservation and absence of errors\<close>

text \<open>
  \<open>avoids P E m\<close>: from a state in \<open>P\<close> the program preserves \<open>P\<close> and does not fail with an error in \<open>E\<close>.
\<close>

definition avoids :: "('s \<Rightarrow> bool) \<Rightarrow> 'e set \<Rightarrow> ('s, 'e, 'a) eff \<Rightarrow> bool" where
  "avoids P E m \<longleftrightarrow> (\<forall>s. P s \<longrightarrow> wp m (\<lambda>_. P) (\<lambda>e s. P s \<and> e \<notin> E) s)"

abbreviation keeps :: "('s \<Rightarrow> bool) \<Rightarrow> ('s, 'e, 'a) eff \<Rightarrow> bool" where
  "keeps P \<equiv> avoids P {}"

lemma avoidsI: "(\<And>s. P s \<Longrightarrow> wp m (\<lambda>_. P) (\<lambda>e s. P s \<and> e \<notin> E) s) \<Longrightarrow> avoids P E m"
  by (simp add: avoids_def)

lemma avoids_wp: "avoids P E m \<Longrightarrow> P s \<Longrightarrow> wp m (\<lambda>_. P) (\<lambda>e s. P s \<and> e \<notin> E) s"
  by (simp add: avoids_def)

lemma wp_cases: "wp m Q R s = (case fst (m s) of Inl e \<Rightarrow> R e (snd (m s)) | Inr x \<Rightarrow> Q x (snd (m s)))"
  by (simp add: wp_def split: prod.split sum.split)

lemma avoidsD: "avoids P E m \<Longrightarrow> P s \<Longrightarrow> P (snd (m s))"
  by (cases "fst (m s)") (auto simp: avoids_def wp_cases dest!: spec [of _ s])

lemma avoids_error: "avoids P E m \<Longrightarrow> P s \<Longrightarrow> e \<in> E \<Longrightarrow> fst (m s) \<noteq> Inl e"
  by (auto simp: avoids_def wp_cases dest!: spec [of _ s])

lemma avoids_ret [safe, intro!, simp]: "avoids P E (ret x)"
  by (simp add: avoids_def)

lemma avoids_throw [safe, intro]: "e \<notin> E \<Longrightarrow> avoids P E (throw e)"
  by (simp add: avoids_def)

lemma avoids_gets [safe, intro!, simp]: "avoids P E (gets f)"
  by (simp add: avoids_def)

lemma avoids_modify [safe]: "(\<And>s. P s \<Longrightarrow> P (f s)) \<Longrightarrow> avoids P E (modify f)"
  by (simp add: avoids_def)

lemma avoids_liftE [safe, intro]: "(\<And>e. r = Inl e \<Longrightarrow> f e \<notin> E) \<Longrightarrow> avoids P E (liftE f r)"
  by (simp add: avoids_def wp_liftE split: sum.split)

lemma avoids_bind [safe, intro]: "avoids P E m \<Longrightarrow> (\<And>x. avoids P E (k x)) \<Longrightarrow> avoids P E (bindM m k)"
  by (auto simp: avoids_def elim!: wp_mono)

lemma avoids_then [safe, intro]: "avoids P E m \<Longrightarrow> avoids P E k \<Longrightarrow> avoids P E (thenM m k)"
  by (auto simp: avoids_def elim!: wp_mono)

lemma avoids_forM [safe, intro]: "(\<And>x. x \<in> set xs \<Longrightarrow> avoids P E (f x)) \<Longrightarrow> avoids P E (forM f xs)"
  by (simp add: avoids_def wp_forM)

lemma avoids_mapM [safe, intro]: "(\<And>x. x \<in> set xs \<Longrightarrow> avoids P E (f x)) \<Longrightarrow> avoids P E (mapM f xs)"
  by (simp add: avoids_def wp_mapM)

text \<open>A read whose result matters for the rest, and a stronger invariant for a part of a program.\<close>

lemma avoids_bind_gets:
  "(\<And>s. P s \<Longrightarrow> wp (k (f s)) (\<lambda>_. P) (\<lambda>e s. P s \<and> e \<notin> E) s) \<Longrightarrow> avoids P E (bindM (gets f) k)"
  by (simp add: avoids_def)

lemma avoids_weaken:
  "avoids P' E m \<Longrightarrow> P' s \<Longrightarrow> (\<And>s. P' s \<Longrightarrow> P s) \<Longrightarrow> wp m (\<lambda>_. P) (\<lambda>e s. P s \<and> e \<notin> E) s"
  by (auto simp: avoids_def elim!: wp_mono)

lemma avoids_if [safe, intro]: "(b \<Longrightarrow> avoids P E m) \<Longrightarrow> (\<not> b \<Longrightarrow> avoids P E m') \<Longrightarrow> avoids P E (if b then m else m')"
  by simp

lemma avoids_option [safe, intro]:
  "(x = None \<Longrightarrow> avoids P E m) \<Longrightarrow> (\<And>y. x = Some y \<Longrightarrow> avoids P E (k y)) \<Longrightarrow>
     avoids P E (case x of None \<Rightarrow> m | Some y \<Rightarrow> k y)"
  by (cases x) auto

lemma avoids_sum [safe, intro]:
  "(\<And>e. x = Inl e \<Longrightarrow> avoids P E (m e)) \<Longrightarrow> (\<And>y. x = Inr y \<Longrightarrow> avoids P E (k y)) \<Longrightarrow>
     avoids P E (case x of Inl e \<Rightarrow> m e | Inr y \<Rightarrow> k y)"
  by (cases x) auto

lemma avoids_prod [safe, intro]:
  "(\<And>a b. x = (a, b) \<Longrightarrow> avoids P E (k a b)) \<Longrightarrow> avoids P E (case x of (a, b) \<Rightarrow> k a b)"
  by (cases x) auto

end
