(* ===== verification/Connection.thy ===== *)
theory Connection
  imports Packets Router Session Auth Cluster Plugin Config Storage Effects
begin

text \<open>
  The connections of the broker (\<open>internal/broker/client.go\<close>) and the operations of the broker they
  call (\<open>internal/broker/server.go\<close>). A connection is a record at an address; the pointers of the source
  (the registry of the broker, the delivery function of a subscription, the session of a connection)
  are addresses, so that aliasing is explicit. A handler of one packet is one atomic effect on the
  broker. A goroutine that a handler starts is a task in the list \<open>bk_tasks\<close>, to be run later.
\<close>

section \<open>State\<close>

datatype connState = stateHandshaking | stateConnected | stateClosing | stateClosed

text \<open>
  \<open>cl_peerCert\<close> is the first certificate of a TLS peer, \<open>cl_connClosed\<close> tells that \<open>conn.Close\<close> was called,
  \<open>cl_running\<close> and \<open>cl_writing\<close> that the read and the write loop have not returned, \<open>cl_cleaned\<close> that the
  body of \<open>closeOnce\<close> has run, \<open>cl_slot\<close> that the goroutine of the connection holds a slot of \<open>connSem\<close>.
\<close>

record Client =
  cl_clientID :: string
  cl_username :: string
  cl_remoteAddr :: string
  cl_version :: byte
  cl_state :: connState
  cl_sess :: "addr option"
  cl_writeQ :: "bytes list"
  cl_keepAlive :: time
  cl_topicAliases :: "(uint16, string) gomap"
  cl_peerRecvMax :: uint16
  cl_peerMaxPacketSize :: uint32
  cl_negotiatedTopicAliasMax :: uint16
  cl_rxPackets :: uint64
  cl_txPackets :: uint64
  cl_rxBytes :: uint64
  cl_txBytes :: uint64
  cl_peerCert :: "Certificate option"
  cl_connClosed :: bool
  cl_running :: bool
  cl_writing :: bool
  cl_cleaned :: bool
  cl_slot :: bool

text \<open>The goroutines, with the variables they capture.\<close>

datatype task =
    GoRegister addr string
  | GoUnregister string
  | GoPublished addr string PublishPacket
  | GoSaveSub string string byte
  | GoDeleteSub string string
  | GoDeleteAllSubs string
  | GoSendRetained string Subscriber
  | GoRestore addr
  | GoDrain addr
  | GoDeliver addr "Queued list"

record Broker =
  bk_id :: string
  bk_cfg :: Config
  bk_router :: Router
  bk_sessions :: Store
  bk_authn :: Authenticator
  bk_rateLimiter :: RateLimiter
  bk_partitions :: ClusterManager
  bk_plugins :: PluginManager
  bk_clients :: "(string, addr) gomap"
  bk_conn :: "addr \<Rightarrow> Client"
  bk_nextConn :: addr
  bk_connSem :: nat
  bk_totalConns :: int
  bk_startTime :: time
  bk_clusterSeq :: uint64
  bk_metrics :: "metric_call list"
  bk_tasks :: "task list"
  bk_storage :: "storage_call list"

text \<open>
  How a handler can end other than normally. \<open>NilPointer\<close> is the run-time panic of a call on a missing
  session, \<open>NoReturn\<close> a call that never returns.
\<close>

datatype brokerr =
    ProtoErr goerr
  | AuthErr autherr
  | PluginErr goerr
  | RateLimited
  | GracefulDisconnect
  | UnexpectedPacket PacketType
  | NilPointer
  | NoReturn

type_synonym 'a act = "(Broker, brokerr, 'a) eff"

text \<open>Functions outside the sources: the password hash and the token library.\<close>

record Externals =
  ex_cmp :: "string \<Rightarrow> bytes \<Rightarrow> bool"
  ex_parse :: jwt_parser
  ex_pick :: "(string, cachedClaims) gomap \<Rightarrow> string"

section \<open>Access to the state\<close>

definition upd_client :: "addr \<Rightarrow> (Client \<Rightarrow> Client) \<Rightarrow> Broker \<Rightarrow> Broker" where
  "upd_client c f b = b\<lparr>bk_conn := (bk_conn b)(c := f (bk_conn b c))\<rparr>"

definition upd_router :: "(Router \<Rightarrow> Router) \<Rightarrow> Broker \<Rightarrow> Broker" where
  "upd_router f b = b\<lparr>bk_router := f (bk_router b)\<rparr>"

definition bk_count :: "metric_call list \<Rightarrow> Broker \<Rightarrow> Broker" where
  "bk_count cs b = b\<lparr>bk_metrics := bk_metrics b @ cs\<rparr>"

definition spawn :: "task \<Rightarrow> Broker \<Rightarrow> Broker" where
  "spawn t b = b\<lparr>bk_tasks := bk_tasks b @ [t]\<rparr>"

definition request :: "storage_call list \<Rightarrow> Broker \<Rightarrow> Broker" where
  "request cs b = b\<lparr>bk_storage := bk_storage b @ cs\<rparr>"

definition session_of :: "addr \<Rightarrow> Broker \<Rightarrow> Session option" where
  "session_of c b = Option.bind (cl_sess (bk_conn b c)) (st_heap (bk_sessions b))"

definition put_session :: "addr \<Rightarrow> Session \<Rightarrow> Broker \<Rightarrow> Broker" where
  "put_session c s b =
     (case cl_sess (bk_conn b c) of
        None \<Rightarrow> b
      | Some a \<Rightarrow> b\<lparr>bk_sessions := (bk_sessions b)\<lparr>st_heap := (st_heap (bk_sessions b))(a \<mapsto> s)\<rparr>\<rparr>)"

text \<open>A method call on the session of a connection; it panics if there is none.\<close>

definition on_session :: "addr \<Rightarrow> (Session \<Rightarrow> Session \<times> 'a) \<Rightarrow> 'a act" where
  "on_session c f b =
     (case session_of c b of
        None \<Rightarrow> (Inl NilPointer, b)
      | Some s \<Rightarrow> (case f s of (s', x) \<Rightarrow> (Inr x, put_session c s' b)))"

definition upd_session :: "addr \<Rightarrow> (Session \<Rightarrow> Session) \<Rightarrow> unit act" where
  "upd_session c f = on_session c (\<lambda>s. (f s, ()))"

definition the_session :: "addr \<Rightarrow> Session act" where
  "the_session c = on_session c (\<lambda>s. (s, s))"

definition next_packet :: "addr \<Rightarrow> uint16 act" where
  "next_packet c b =
     (case session_of c b of
        None \<Rightarrow> (Inl NilPointer, b)
      | Some s \<Rightarrow> (case NextPacketID s of
                     None \<Rightarrow> (Inl NoReturn, b)
                   | Some (pid, s') \<Rightarrow> (Inr pid, put_session c s' b)))"

section \<open>Writing to a connection\<close>

text \<open>The write queue is a channel of the configured capacity; a full queue drops the packet.\<close>

definition enqueue :: "addr \<Rightarrow> bytes \<Rightarrow> Broker \<Rightarrow> Broker" where
  "enqueue c data b =
     (if cl_state (bk_conn b c) = stateClosed then b
      else if int (length (cl_writeQ (bk_conn b c))) < bc_WriteQueueSize (cf_Broker (bk_cfg b))
      then upd_client c (\<lambda>cl. cl\<lparr>cl_writeQ := cl_writeQ cl @ [data]\<rparr>) b
      else bk_count [Inc (DroppedTotal ''write_queue_full'')] b)"

definition enqueue_enc :: "addr \<Rightarrow> goerr + bytes \<Rightarrow> unit act" where
  "enqueue_enc c enc = bindM (liftE ProtoErr enc) (\<lambda>data. modify (enqueue c data))"

definition enqueuePubAck :: "addr \<Rightarrow> PacketType \<Rightarrow> uint16 \<Rightarrow> unit act" where
  "enqueuePubAck c t packetID =
     bindM (gets (\<lambda>b. cl_version (bk_conn b c))) (\<lambda>version. enqueue_enc c (encode_ack version t packetID))"

section \<open>Delivery\<close>

definition qEnqueue :: "addr \<Rightarrow> string \<Rightarrow> bytes \<Rightarrow> byte \<Rightarrow> bool \<Rightarrow> unit act" where
  "qEnqueue c topic payload qos retain =
     bindM (gets (\<lambda>b. cl_sess (bk_conn b c))) (\<lambda>sess. case sess of
       None \<Rightarrow> ret ()
     | Some _ \<Rightarrow>
         bindM (the_session c) (\<lambda>s. if ss_CleanSession s then ret () else
           thenM (on_session c (Enqueue \<lparr>qd_Topic = topic, qd_Payload = payload, qd_QoS = qos, qd_Retain = retain\<rparr>))
             (modify (bk_count [Inc OfflineQueuedMessages]))))"

text \<open>
  The packet identifier of a message that is sent, 0 for QoS 0; \<^const>\<open>None\<close> if the receive maximum of the
  client is reached.
\<close>

definition reserve :: "time \<Rightarrow> addr \<Rightarrow> string \<Rightarrow> bytes \<Rightarrow> byte \<Rightarrow> bool \<Rightarrow> uint16 option act" where
  "reserve now c topic payload qos retain =
     (if qos > 0 then
        bindM (next_packet c) (\<lambda>pid.
        bindM (gets (\<lambda>b. bk_conn b c)) (\<lambda>cl.
          let msg = \<lparr>if_PacketID = pid, if_Topic = topic, if_Payload = payload, if_QoS = qos,
                     if_Retain = retain, if_SentAt = Some now, if_Retries = 0, if_QoS2Phase = QoS2Published\<rparr>;
              recvLim = (if cl_version cl = V50 then cl_peerRecvMax cl else 0)
          in bindM (on_session c (AddOutFlightLimited msg recvLim)) (\<lambda>ok. ret (if ok then Some pid else None))))
      else ret (Some 0))"

text \<open>The closure that \<open>makeDeliverFn\<close> returns; \<open>c\<close> is the connection it captures.\<close>

definition deliver :: "time \<Rightarrow> addr \<Rightarrow> string \<Rightarrow> bytes \<Rightarrow> byte \<Rightarrow> bool \<Rightarrow> unit act" where
  "deliver now c topic payload qos retain =
     bindM (gets (\<lambda>b. bk_conn b c)) (\<lambda>cl.
       if cl_state cl \<noteq> stateConnected then qEnqueue c topic payload qos retain
       else if cl_peerMaxPacketSize cl > 0
         \<and> of_nat (ApproxClientOutboundPublishBytes (cl_version cl) topic (length payload) qos) > cl_peerMaxPacketSize cl
       then thenM (modify (bk_count [Inc (DroppedTotal ''max_packet_size'')])) (qEnqueue c topic payload qos retain)
       else bindM (reserve now c topic payload qos retain) (\<lambda>pid. case pid of
              None \<Rightarrow> thenM (modify (bk_count [Inc (DroppedTotal ''receive_maximum'')])) (qEnqueue c topic payload qos retain)
            | Some pid \<Rightarrow> enqueue_enc c (encode_publish (cl_version cl) topic payload qos retain pid False)))"

definition deliver_all :: "time \<Rightarrow> Delivery list \<Rightarrow> unit act" where
  "deliver_all now = forM (\<lambda>d. deliver now (dv_Handle d) (dv_Topic d) (dv_Payload d) (dv_QoS d) (dv_Retain d))"

text \<open>\<open>router.Publish\<close> with the delivery functions it calls.\<close>

definition router_publish :: "time \<Rightarrow> string \<Rightarrow> bytes \<Rightarrow> byte \<Rightarrow> bool \<Rightarrow> nat act" where
  "router_publish now topic payload qos retain b =
     (case Publish now topic payload qos retain (bk_router b) of
        (r, ds, n) \<Rightarrow> thenM (deliver_all now ds) (ret n) (b\<lparr>bk_router := r\<rparr>))"

section \<open>The registry of connections\<close>

definition register :: "addr \<Rightarrow> Broker \<Rightarrow> Broker" where
  "register c b = b\<lparr>bk_clients := AList.update (cl_clientID (bk_conn b c)) c (bk_clients b)\<rparr>"

definition unregister :: "string \<Rightarrow> Broker \<Rightarrow> Broker" where
  "unregister clientID b = b\<lparr>bk_clients := AList.delete clientID (bk_clients b)\<rparr>"

definition GetClient :: "string \<Rightarrow> Broker \<Rightarrow> addr option" where
  "GetClient clientID b = map_of (bk_clients b) clientID"

definition takeover :: "string \<Rightarrow> unit act" where
  "takeover clientID =
     bindM (gets (GetClient clientID)) (\<lambda>existing. case existing of
       None \<Rightarrow> ret ()
     | Some c \<Rightarrow> thenM (upd_session c (\<lambda>s. s\<lparr>ss_WillSet := False\<rparr>))
                   (modify (upd_client c (\<lambda>cl. cl\<lparr>cl_connClosed := True\<rparr>))))"

definition PurgePersistentSession :: "string \<Rightarrow> Broker \<Rightarrow> Broker" where
  "PurgePersistentSession clientID b =
     (let b = upd_router (UnsubscribeAll clientID) b;
          b = b\<lparr>bk_sessions := Store_Delete clientID (bk_sessions b)\<rparr>;
          b = bk_count [Dec ActiveSessions] b
      in spawn (GoDeleteAllSubs clientID) b)"

section \<open>CONNECT\<close>

definition no_connack_options :: ConnackMQTT5Options where
  "no_connack_options = \<lparr>co_TopicAliasMax = 0, co_ReceiveMaximum = 0, co_MaximumQoS = 0, co_MaxPacketSize = 0,
     co_RetainAvailable = False, co_WildcardSubscriptionAvailable = False,
     co_SubscriptionIDAvailable = False, co_SharedSubscriptionAvailable = False\<rparr>"

definition sendConnackFailure :: "addr \<Rightarrow> byte \<Rightarrow> byte \<Rightarrow> bytes \<Rightarrow> unit act" where
  "sendConnackFailure c reasonV311 reasonV5 peekBody =
     bindM (gets (\<lambda>b. cl_version (bk_conn b c))) (\<lambda>version.
       if version = V50 \<or> (length peekBody > 0 \<and> PeekConnectProtocolLevel peekBody = Some V50)
       then enqueue_enc c (EncodeConnackV5 False reasonV5 no_connack_options)
       else modify (enqueue c (EncodeConnack False reasonV311)))"

text \<open>A refusal: count it, answer, and end the handler with the error.\<close>

definition refuse_credentials :: "addr \<Rightarrow> string \<Rightarrow> autherr \<Rightarrow> 'a act" where
  "refuse_credentials c label e =
     thenM (modify (bk_count [Inc (AuthFailTotal label)]))
       (thenM (sendConnackFailure c ConnRefusedBadCredentials
           (ConnackReasonV5FromV311 ConnRefusedBadCredentials) [])
         (throw (AuthErr e)))"

definition auth_certificate :: "addr \<Rightarrow> unit act" where
  "auth_certificate c =
     bindM (gets (\<lambda>b. (cl_peerCert (bk_conn b c), bk_authn b))) (\<lambda>(cert, a). case cert of
       None \<Rightarrow> ret ()
     | Some _ \<Rightarrow> (case AuthX509 cert a of
                    Inr identity \<Rightarrow> modify (upd_client c (\<lambda>cl. cl\<lparr>cl_username := identity\<rparr>))
                  | Inl e \<Rightarrow> refuse_credentials c ''bad_x509'' e))"

definition auth_password :: "Externals \<Rightarrow> time \<Rightarrow> addr \<Rightarrow> ConnectPacket \<Rightarrow> unit act" where
  "auth_password ex now c pkt =
     bindM (gets (\<lambda>b. (cl_username (bk_conn b c), bk_authn b))) (\<lambda>(username, a).
       if username = [] \<and> cp_HasUsername pkt then
         (case AuthPassword (ex_cmp ex) (cp_Username pkt) (cp_Password pkt) a of
            Inl e \<Rightarrow> refuse_credentials c ''bad_credentials'' e
          | Inr _ \<Rightarrow> modify (upd_client c (\<lambda>cl. cl\<lparr>cl_username := cp_Username pkt\<rparr>)))
       else if length (cp_Password pkt) > 0 then
         (case AuthJWT (ex_parse ex) (ex_pick ex) now (string_of_bytes (cp_Password pkt)) a of
            (Inl e, a') \<Rightarrow> thenM (modify (\<lambda>b. b\<lparr>bk_authn := a'\<rparr>)) (refuse_credentials c ''bad_token'' e)
          | (Inr claims, a') \<Rightarrow>
              modify (\<lambda>b. upd_client c (\<lambda>cl. cl\<lparr>cl_username := jc_Username claims\<rparr>) (b\<lparr>bk_authn := a'\<rparr>)))
       else ret ())"

definition authenticate :: "Externals \<Rightarrow> time \<Rightarrow> addr \<Rightarrow> ConnectPacket \<Rightarrow> unit act" where
  "authenticate ex now c pkt = thenM (auth_certificate c) (auth_password ex now c pkt)"

definition client_identity :: "time \<Rightarrow> addr \<Rightarrow> ConnectPacket \<Rightarrow> string act" where
  "client_identity now c pkt =
     (if cp_ClientID pkt \<noteq> [] then ret (cp_ClientID pkt)
      else if \<not> cp_CleanSession pkt then
        thenM (sendConnackFailure c ConnRefusedIDRejected ConnackReasonV5ClientIDNotValid [])
          (throw (ProtoErr ErrInvalidClientID))
      else bindM (gets (\<lambda>b. cl_remoteAddr (bk_conn b c))) (\<lambda>ra. ret (''auto-'' @ ra @ ''-'' @ Itoa now)))"

text \<open>The limits of an MQTT 5 client.\<close>

definition negotiate :: "BrokerConfig \<Rightarrow> ConnectPacket \<Rightarrow> Client \<Rightarrow> Client" where
  "negotiate cfg pkt cl =
     (let ta = word_of_int (bc_TopicAliasMax cfg) :: uint16 in
      if cp_Version pkt = V50 then
        cl\<lparr>cl_peerRecvMax := cp_ReceiveMaximum pkt, cl_peerMaxPacketSize := cp_MaximumPacketSize pkt,
           cl_negotiatedTopicAliasMax :=
             (if cp_TopicAliasMaximum pkt > 0 \<and> (ta = 0 \<or> cp_TopicAliasMaximum pkt < ta)
              then cp_TopicAliasMaximum pkt else ta)\<rparr>
      else cl\<lparr>cl_peerRecvMax := 0, cl_peerMaxPacketSize := 0, cl_negotiatedTopicAliasMax := ta\<rparr>)"

definition connect_session :: "time \<Rightarrow> ConnectPacket \<Rightarrow> Session \<Rightarrow> Session" where
  "connect_session now pkt s =
     (let s = ClearDisconnectExpiry s;
          expirySec = (if cp_Version pkt = V50 then cp_SessionExpiryInterval pkt else 0);
          s = SetProtocolAndExpiry (cp_Version pkt) (cp_CleanSession pkt) expirySec s;
          s = (if cp_WillFlag pkt then
                 s\<lparr>ss_WillTopic := cp_WillTopic pkt, ss_WillPayload := cp_WillPayload pkt,
                   ss_WillQoS := cp_WillQoS pkt, ss_WillRetain := cp_WillRetain pkt, ss_WillSet := True\<rparr>
               else s);
          s = (if cp_KeepAlive pkt > 0 then SetKeepAlive (cp_KeepAlive pkt) s else s)
      in SetConnected now True s)"

definition connackV5FromConfig :: "BrokerConfig \<Rightarrow> uint16 \<Rightarrow> ConnackMQTT5Options" where
  "connackV5FromConfig bc topicAliasMax =
     (let rm = (if bc_ServerReceiveMaximum bc > 0 then word_of_int (bc_ServerReceiveMaximum bc) else 0);
          mqos = word_of_int (bc_ServerMaximumQoS bc) :: byte;
          mqos = (if mqos > QoS2 then QoS2 else mqos)
      in \<lparr>co_TopicAliasMax = topicAliasMax, co_ReceiveMaximum = rm, co_MaximumQoS = mqos,
          co_MaxPacketSize = word_of_int (bc_MaxPacketSize bc),
          co_RetainAvailable = bc_RetainAvailable bc,
          co_WildcardSubscriptionAvailable = bc_WildcardSubscriptionAvailable bc,
          co_SubscriptionIDAvailable = bc_SubscriptionIdentifierAvailable bc,
          co_SharedSubscriptionAvailable = bc_SharedSubscriptionAvailable bc\<rparr>)"

text \<open>The session of an accepted client: takeover, lookup, limits, registration.\<close>

definition open_session :: "time \<Rightarrow> addr \<Rightarrow> string \<Rightarrow> ConnectPacket \<Rightarrow> bool act" where
  "open_session now c cid pkt =
     thenM (takeover cid)
       (bindM (gets (\<lambda>b. GetOrCreate now cid (cp_CleanSession pkt) (bk_sessions b))) (\<lambda>(st, a, present).
          thenM (modify (\<lambda>b. upd_client c (\<lambda>cl. cl\<lparr>cl_sess := Some a\<rparr>) (b\<lparr>bk_sessions := st\<rparr>)))
         (thenM (upd_session c (connect_session now pkt))
         (thenM (modify (\<lambda>b. upd_client c (\<lambda>cl.
            (negotiate (cf_Broker (bk_cfg b)) pkt cl)\<lparr>
              cl_keepAlive := (if cp_KeepAlive pkt > 0 then int (unat (cp_KeepAlive pkt)) * time_Second
                               else cl_keepAlive cl),
              cl_state := stateConnected\<rparr>) b))
         (thenM (modify (register c))
         (thenM (modify (\<lambda>b. bk_count [Inc ConnectTotal, Inc ActiveConnections, Inc ActiveSessions]
                   (spawn (GoRegister c cid) b)))
           (ret present)))))))"

text \<open>What follows once the client is accepted: the session, the answer, the stored subscriptions and messages.\<close>

definition sendConnack :: "addr \<Rightarrow> bool \<Rightarrow> unit act" where
  "sendConnack c present =
     bindM (gets (\<lambda>b. (bk_conn b c, bk_cfg b))) (\<lambda>(cl, cfg).
       if cl_version cl = V50
       then enqueue_enc c (EncodeConnackV5 present ConnAccepted
              (connackV5FromConfig (cf_Broker cfg) (cl_negotiatedTopicAliasMax cl)))
       else modify (enqueue c (EncodeConnack present ConnAccepted)))"

definition accept_connect :: "time \<Rightarrow> addr \<Rightarrow> string \<Rightarrow> ConnectPacket \<Rightarrow> unit act" where
  "accept_connect now c cid pkt =
     bindM (open_session now c cid pkt) (\<lambda>present.
       thenM (sendConnack c present)
      (thenM (if present \<and> \<not> cp_CleanSession pkt then modify (spawn (GoRestore c)) else ret ())
        (modify (spawn (GoDrain c)))))"

definition handleConnect :: "Externals \<Rightarrow> time \<Rightarrow> addr \<Rightarrow> bytes \<Rightarrow> unit act" where
  "handleConnect ex now c body =
     (case DecodeConnect body of
        Inl err \<Rightarrow>
          thenM (sendConnackFailure c ConnRefusedProtocol (ConnackReasonV5ForDecodeError err) body)
            (throw (ProtoErr err))
      | Inr pkt \<Rightarrow>
          thenM (modify (upd_client c (\<lambda>cl. cl\<lparr>cl_version := cp_Version pkt\<rparr>)))
         (thenM (authenticate ex now c pkt)
         (bindM (client_identity now c pkt) (\<lambda>cid.
          thenM (modify (upd_client c (\<lambda>cl. cl\<lparr>cl_clientID := cid\<rparr>)))
         (bindM (gets (\<lambda>b. OnClientConnect cid (cl_username (bk_conn b c)) (bk_plugins b))) (\<lambda>err. case err of
            Some e \<Rightarrow>
              thenM (sendConnackFailure c ConnRefusedNotAuthorized (ConnackReasonV5FromV311 ConnRefusedNotAuthorized) [])
                (throw (PluginErr e))
          | None \<Rightarrow> accept_connect now c cid pkt))))))"

section \<open>PUBLISH\<close>

text \<open>The topic of a packet, with the alias table of the connection after it.\<close>

definition resolvePublishTopic :: "PublishPacket \<Rightarrow> Client \<Rightarrow> goerr + string \<times> Client" where
  "resolvePublishTopic pkt cl =
     (let topic = pp_Topic pkt; max = cl_negotiatedTopicAliasMax cl; alias = pp_TopicAlias pkt in
      if cl_version cl \<noteq> V50 then Inr (topic, cl)
      else if alias > 0 \<and> max > 0 \<and> alias > max then Inl ErrProtocolViolation
      else if max = 0 \<and> alias > 0 then Inl ErrProtocolViolation
      else if topic = [] then
        (case map_of (cl_topicAliases cl) alias of
           None \<Rightarrow> Inl ErrProtocolViolation
         | Some prev \<Rightarrow> Inr (prev, cl))
      else if alias > 0 \<and> max > 0 then Inr (topic, cl\<lparr>cl_topicAliases := AList.update alias topic (cl_topicAliases cl)\<rparr>)
      else Inr (topic, cl))"

definition accept_publish :: "time \<Rightarrow> addr \<Rightarrow> string \<Rightarrow> PublishPacket \<Rightarrow> unit act" where
  "accept_publish now c topic pkt =
     (if pp_QoS pkt = QoS0 then
        thenM (router_publish now topic (pp_Payload pkt) (pp_QoS pkt) (pp_Retain pkt)) (ret ())
      else if pp_QoS pkt = QoS1 then
        thenM (router_publish now topic (pp_Payload pkt) (pp_QoS pkt) (pp_Retain pkt))
          (enqueuePubAck c PUBACK (pp_PacketID pkt))
      else if pp_QoS pkt = QoS2 then
        bindM (the_session c) (\<lambda>s.
          thenM (case GetInFlight (pp_PacketID pkt) s of
                   None \<Rightarrow> upd_session c (AddInFlight \<lparr>if_PacketID = pp_PacketID pkt, if_Topic = topic,
                     if_Payload = pp_Payload pkt, if_QoS = pp_QoS pkt, if_Retain = pp_Retain pkt,
                     if_SentAt = Some now, if_Retries = 0, if_QoS2Phase = QoS2Published\<rparr>)
                 | Some _ \<Rightarrow> ret ())
            (enqueuePubAck c PUBREC (pp_PacketID pkt)))
      else ret ())"

text \<open>
  The checks and the effects of a packet whose topic is known. \<open>t0\<close> is the time at which the packet is
  decoded, \<open>now\<close> the time of the later checks.
\<close>

definition publish_resolved :: "time \<Rightarrow> time \<Rightarrow> addr \<Rightarrow> string \<Rightarrow> string \<Rightarrow> PublishPacket \<Rightarrow> unit act" where
  "publish_resolved t0 now c clientID topic pkt =
     (if pp_MessageExpiryInterval pkt > 0
        \<and> now - pp_ReceivedAt pkt > int (unat (pp_MessageExpiryInterval pkt)) * time_Second
      then modify (bk_count [Inc (DroppedTotal ''message_expired'')])
      else bindM (gets (\<lambda>b. (bk_authn b, bk_plugins b))) (\<lambda>(authn, plugins).
        if \<not> CanPublish clientID topic authn then
          thenM (if pp_QoS pkt = QoS1 then enqueuePubAck c PUBACK (pp_PacketID pkt) else ret ())
            (modify (bk_count [Inc (DroppedTotal ''acl_denied'')]))
        else
          thenM (modify (bk_count [Inc (PublishTotal (Itoa (int (unat (pp_QoS pkt))))),
                                   AddTo PublishBytes (int (length (pp_Payload pkt)))]))
            (case OnPublish clientID topic (pp_Payload pkt) (pp_QoS pkt) (pp_Retain pkt) plugins of
               Some _ \<Rightarrow> modify (bk_count [Inc (DroppedTotal ''plugin_publish'')])
             | None \<Rightarrow>
                 thenM (accept_publish now c topic pkt)
                   (modify (\<lambda>b. spawn (GoPublished c topic pkt) (bk_count [Observe PublishLatency (now - t0)] b))))))"

definition handlePublish :: "time \<Rightarrow> time \<Rightarrow> addr \<Rightarrow> FixedHeader \<Rightarrow> bytes \<Rightarrow> unit act" where
  "handlePublish t0 now c fh body =
     bindM (gets (\<lambda>b. bk_conn b c)) (\<lambda>cl.
     bindM (liftE ProtoErr (DecodePublish t0 (cl_version cl) fh body)) (\<lambda>pkt.
     bindM (liftE ProtoErr (resolvePublishTopic pkt cl)) (\<lambda>(topic, cl').
       thenM (modify (upd_client c (\<lambda>_. cl'))) (publish_resolved t0 now c (cl_clientID cl) topic pkt))))"

section \<open>Acknowledgements\<close>

definition handlePuback :: "addr \<Rightarrow> bytes \<Rightarrow> unit act" where
  "handlePuback c body =
     bindM (liftE ProtoErr (DecodePacketID body)) (\<lambda>ident. thenM (on_session c (AckOutFlight ident)) (ret ()))"

definition handlePubrec :: "addr \<Rightarrow> bytes \<Rightarrow> unit act" where
  "handlePubrec c body =
     bindM (liftE ProtoErr (DecodePacketID body)) (\<lambda>ident.
       thenM (upd_session c (SetOutFlightPhase ident QoS2Received)) (enqueuePubAck c PUBREL ident))"

definition handlePubrel :: "time \<Rightarrow> addr \<Rightarrow> bytes \<Rightarrow> unit act" where
  "handlePubrel now c body =
     bindM (liftE ProtoErr (DecodePacketID body)) (\<lambda>ident.
     bindM (on_session c (AckInFlight ident)) (\<lambda>msg.
       thenM (case msg of
                None \<Rightarrow> ret ()
              | Some m \<Rightarrow> thenM (router_publish now (if_Topic m) (if_Payload m) (if_QoS m) (if_Retain m)) (ret ()))
         (enqueuePubAck c PUBCOMP ident)))"

definition handlePubcomp :: "addr \<Rightarrow> bytes \<Rightarrow> unit act" where
  "handlePubcomp c body =
     bindM (liftE ProtoErr (DecodePacketID body)) (\<lambda>ident. thenM (on_session c (AckOutFlight ident)) (ret ()))"

section \<open>SUBSCRIBE and UNSUBSCRIBE\<close>

definition srvMaxQoS :: "Config \<Rightarrow> byte" where
  "srvMaxQoS cfg =
     (let q = word_of_int (bc_ServerMaximumQoS (cf_Broker cfg)) in if q > QoS2 then QoS2 else q)"

definition aclFilter :: "string \<Rightarrow> string" where
  "aclFilter f = (case ParseSharedTopicFilter f of Some (_, inner) \<Rightarrow> inner | None \<Rightarrow> f)"

text \<open>The granted QoS, and why a subscription is denied if it is.\<close>

definition grantedQoS :: "Config \<Rightarrow> Subscription \<Rightarrow> byte" where
  "grantedQoS cfg sub =
     (let qos = sb_QoS sub AND 0x03 in if qos > srvMaxQoS cfg then srvMaxQoS cfg else qos)"

definition subscribe_deny :: "string \<Rightarrow> Subscription \<Rightarrow> Broker \<Rightarrow> SubackDenyReason" where
  "subscribe_deny clientID sub b =
     (if \<not> ValidTopicFilter (sb_Filter sub) then SubackDeniedInvalidTopicFilter
      else if \<not> CanSubscribe clientID (aclFilter (sb_Filter sub)) (bk_authn b) then SubackDeniedNotAuthorized
      else if OnSubscribe clientID (sb_Filter sub) (grantedQoS (bk_cfg b) sub) (bk_plugins b) \<noteq> None
      then SubackDeniedPlugin
      else SubackOK)"

text \<open>One turn of the loop over the subscriptions: its return code.\<close>

definition subscribe_one :: "addr \<Rightarrow> Subscription \<Rightarrow> byte act" where
  "subscribe_one c sub =
     bindM (gets (\<lambda>b. b)) (\<lambda>b.
       let cl = bk_conn b c; qos = grantedQoS (bk_cfg b) sub; deny = subscribe_deny (cl_clientID cl) sub b;
           s = \<lparr>ClientID = cl_clientID cl, QoS = qos, Deliver = Some c\<rparr>
       in if deny \<noteq> SubackOK then ret (SubackReasonByte (cl_version cl) qos deny)
          else
            thenM (modify (upd_router (Subscribe (sb_Filter sub) s)))
           (bindM (the_session c) (\<lambda>sess.
              thenM (if \<not> ss_CleanSession sess then modify (spawn (GoSaveSub (cl_clientID cl) (sb_Filter sub) qos))
                     else ret ())
                (thenM (modify (spawn (GoSendRetained (sb_Filter sub) s)))
                  (ret (SubackReasonByte (cl_version cl) qos SubackOK))))))"

definition handleSubscribe :: "addr \<Rightarrow> bytes \<Rightarrow> unit act" where
  "handleSubscribe c body =
     bindM (gets (\<lambda>b. cl_version (bk_conn b c))) (\<lambda>version.
     bindM (liftE ProtoErr (DecodeSubscribe version body)) (\<lambda>(packetID, subs).
     bindM (mapM (subscribe_one c) subs) (\<lambda>codes.
       if version = V50 then enqueue_enc c (EncodeSubackV5 packetID [] codes)
       else enqueue_enc c (EncodeSuback packetID codes))))"

definition unsubscribe_deny :: "string \<Rightarrow> string \<Rightarrow> Broker \<Rightarrow> UnsubackDenyReason" where
  "unsubscribe_deny clientID f b =
     (if \<not> ValidTopicFilter f then UnsubDeniedInvalidTopicFilter
      else if \<not> CanSubscribe clientID (aclFilter f) (bk_authn b) then UnsubDeniedNotAuthorized
      else UnsubOK)"

definition unsubscribe_one :: "addr \<Rightarrow> string \<Rightarrow> UnsubackDenyReason act" where
  "unsubscribe_one c f =
     bindM (gets (\<lambda>b. b)) (\<lambda>b.
       let clientID = cl_clientID (bk_conn b c); deny = unsubscribe_deny clientID f b
       in if deny \<noteq> UnsubOK then ret deny
          else
            thenM (modify (upd_router (Unsubscribe f clientID)))
           (bindM (the_session c) (\<lambda>sess.
              thenM (if \<not> ss_CleanSession sess then modify (spawn (GoDeleteSub clientID f)) else ret ())
                (ret deny))))"

definition handleUnsubscribe :: "addr \<Rightarrow> bytes \<Rightarrow> unit act" where
  "handleUnsubscribe c body =
     bindM (gets (\<lambda>b. cl_version (bk_conn b c))) (\<lambda>version.
     bindM (liftE ProtoErr (DecodeUnsubscribe version body)) (\<lambda>(packetID, filters).
     bindM (mapM (unsubscribe_one c) filters) (\<lambda>denies.
       if version = V50 then enqueue_enc c (EncodeUnsubackV5 packetID [] (map UnsubackReasonByte denies))
       else modify (enqueue c (EncodeUnsuback packetID)))))"

section \<open>DISCONNECT and dispatch\<close>

definition handleDisconnect :: "addr \<Rightarrow> bytes \<Rightarrow> unit act" where
  "handleDisconnect c body =
     bindM (gets (\<lambda>b. bk_conn b c)) (\<lambda>cl.
     bindM (liftE ProtoErr (DecodeDisconnect (cl_version cl) body)) (\<lambda>pkt.
       thenM (case cl_sess cl of
                None \<Rightarrow> ret ()
              | Some _ \<Rightarrow> upd_session c (\<lambda>s.
                  let s = s\<lparr>ss_WillSet := False\<rparr>
                  in if dp_HasSessionExpiryProp pkt
                     then UpdateSessionExpiryFromDisconnect (dp_SessionExpiryInterval pkt) s else s))
         (throw GracefulDisconnect)))"

definition dispatch :: "Externals \<Rightarrow> time \<Rightarrow> time \<Rightarrow> addr \<Rightarrow> FixedHeader \<Rightarrow> bytes \<Rightarrow> unit act" where
  "dispatch ex t0 now c fh body =
     (let t = fh_Type fh in
      if t = CONNECT then handleConnect ex now c body
      else if t = PUBLISH then handlePublish t0 now c fh body
      else if t = PUBACK then handlePuback c body
      else if t = PUBREC then handlePubrec c body
      else if t = PUBREL then handlePubrel now c body
      else if t = PUBCOMP then handlePubcomp c body
      else if t = SUBSCRIBE then handleSubscribe c body
      else if t = UNSUBSCRIBE then handleUnsubscribe c body
      else if t = PINGREQ then thenM (modify (enqueue c Pingresp)) (upd_session c (Touch now))
      else if t = DISCONNECT then handleDisconnect c body
      else throw (UnexpectedPacket t))"

definition handle :: "Externals \<Rightarrow> time \<Rightarrow> time \<Rightarrow> addr \<Rightarrow> FixedHeader \<Rightarrow> bytes \<Rightarrow> unit act" where
  "handle ex t0 now c fh body =
     bindM (gets (\<lambda>b. bk_conn b c)) (\<lambda>cl.
     bindM (if cl_clientID cl \<noteq> []
            then bindM (gets (\<lambda>b. Allow t0 (cl_clientID cl) (bk_rateLimiter b))) (\<lambda>(rl, ok).
                   thenM (modify (\<lambda>b. b\<lparr>bk_rateLimiter := rl\<rparr>)) (ret ok))
            else ret True) (\<lambda>allowed.
       if \<not> allowed then
         thenM (modify (bk_count [Inc (DroppedTotal ''rate_limit'')]))
        (thenM (if cl_version cl = V50 then enqueue_enc c (EncodeDisconnectV5 ReasonQuotaExceeded [])
                else modify (enqueue c EncodeDisconnectV311))
          (throw RateLimited))
       else dispatch ex t0 now c fh body))"

text \<open>What the read loop does with a frame; an error ends the loop.\<close>

definition readLoop_frame :: "Externals \<Rightarrow> time \<Rightarrow> time \<Rightarrow> addr \<Rightarrow> FixedHeader \<Rightarrow> bytes \<Rightarrow> unit act" where
  "readLoop_frame ex t0 now c fh body =
     bindM (gets (\<lambda>b. cl_state (bk_conn b c))) (\<lambda>st.
       if st = stateHandshaking \<and> fh_Type fh \<noteq> CONNECT then throw (UnexpectedPacket (fh_Type fh))
       else
         thenM (modify (upd_client c (\<lambda>cl. cl\<lparr>cl_rxPackets := cl_rxPackets cl + 1,
                  cl_rxBytes := cl_rxBytes cl + of_nat (2 + fh_RemainingLength fh)\<rparr>)))
           (handle ex t0 now c fh body))"

section \<open>End of a connection\<close>

definition close_session :: "time \<Rightarrow> addr \<Rightarrow> string \<Rightarrow> unit act" where
  "close_session now c cid =
     thenM (upd_session c (SetConnected now False))
    (bindM (the_session c) (\<lambda>s.
       thenM (if ss_CleanSession s then
                modify (\<lambda>b. let b = upd_router (UnsubscribeAll cid) b;
                                b = b\<lparr>bk_sessions := Store_Delete cid (bk_sessions b)\<rparr>
                            in bk_count [Dec ActiveSessions] b)
              else bindM (on_session c (PrepareDisconnectExpiry now)) (\<lambda>purge.
                     if purge then modify (PurgePersistentSession cid) else ret ()))
      (bindM (the_session c) (\<lambda>s.
         if ss_WillSet s
         then thenM (router_publish now (ss_WillTopic s) (ss_WillPayload s) (ss_WillQoS s) (ss_WillRetain s)) (ret ())
         else ret ()))))"

definition cleanup :: "time \<Rightarrow> addr \<Rightarrow> unit act" where
  "cleanup now c =
     bindM (gets (\<lambda>b. bk_conn b c)) (\<lambda>cl.
       if cl_cleaned cl then ret ()
       else
         thenM (modify (upd_client c (\<lambda>cl. cl\<lparr>cl_state := stateClosed, cl_connClosed := True, cl_cleaned := True\<rparr>)))
           (if cl_clientID cl = [] then ret ()
            else
              thenM (modify (\<lambda>b. spawn (GoUnregister (cl_clientID cl)) (unregister (cl_clientID cl) b)))
             (thenM (case cl_sess cl of None \<Rightarrow> ret () | Some _ \<Rightarrow> close_session now c (cl_clientID cl))
               (modify (bk_count [Dec ActiveConnections, Inc (DisconnectTotal ''closed'')])))))"

text \<open>\<open>ForceDisconnect\<close>, which the administrative interface calls.\<close>

definition ForceDisconnect :: "addr \<Rightarrow> unit act" where
  "ForceDisconnect c =
     thenM (upd_session c (\<lambda>s. s\<lparr>ss_WillSet := False\<rparr>))
       (modify (upd_client c (\<lambda>cl. cl\<lparr>cl_connClosed := True\<rparr>)))"

end
