(* ===== verification/Broker_Safety.thy ===== *)
theory Broker_Safety
  imports Connection
begin

text \<open>
  The invariant of the broker and its preservation by every operation of a connection. With it no
  handler calls a method of a missing session, whichever packets arrive in whichever order.
\<close>

section \<open>Invariant\<close>

text \<open>
  The parts are well formed; a connection that has a session was accepted and its session exists, and it has one if it
  is connected, registered or reading packets after the handshake; no write queue exceeds its capacity.
\<close>

definition queue_ok :: "int \<Rightarrow> bytes list \<Rightarrow> bool" where
  "queue_ok cap q \<longleftrightarrow> int (length q) \<le> max 0 cap"

definition needs_session :: "Client \<Rightarrow> bool" where
  "needs_session cl \<longleftrightarrow> cl_state cl = stateConnected \<or> cl_running cl \<and> cl_state cl \<noteq> stateHandshaking"

definition wf_conn :: "Broker \<Rightarrow> addr \<Rightarrow> bool" where
  "wf_conn b c \<longleftrightarrow>
     (\<forall>a. cl_sess (bk_conn b c) = Some a \<longrightarrow> st_heap (bk_sessions b) a \<noteq> None \<and> c < bk_nextConn b)
     \<and> (needs_session (bk_conn b c) \<longrightarrow> cl_sess (bk_conn b c) \<noteq> None)
     \<and> queue_ok (bc_WriteQueueSize (cf_Broker (bk_cfg b))) (cl_writeQ (bk_conn b c))"

text \<open>The connection semaphore counts the connections that hold a slot, at most the configured number.\<close>

definition wf_slots :: "Broker \<Rightarrow> bool" where
  "wf_slots b \<longleftrightarrow>
     finite {c. cl_slot (bk_conn b c)} \<and> bk_connSem b = card {c. cl_slot (bk_conn b c)}
     \<and> int (bk_connSem b) \<le> max 0 (bc_MaxConnections (cf_Broker (bk_cfg b)))
     \<and> (\<forall>c. cl_slot (bk_conn b c) \<or> cl_running (bk_conn b c) \<longrightarrow> c < bk_nextConn b)"

definition wf_broker :: "Broker \<Rightarrow> bool" where
  "wf_broker b \<longleftrightarrow>
     wf_router (bk_router b) \<and> wf_store (bk_sessions b) \<and> wf_map (bk_clients b)
     \<and> wf_slots b \<and> (\<forall>c. wf_conn b c)
     \<and> (\<forall>cid c. map_of (bk_clients b) cid = Some c \<longrightarrow> cl_sess (bk_conn b c) \<noteq> None)"

text \<open>
  The invariant with the number of connections so far and the configuration, which no handler changes,
  and that the connections in a set have a session.
\<close>

definition fixed :: "Broker \<Rightarrow> addr \<times> Config" where
  "fixed b = (bk_nextConn b, bk_cfg b)"

definition binv :: "addr \<times> Config \<Rightarrow> addr set \<Rightarrow> Broker \<Rightarrow> bool" where
  "binv N S b \<longleftrightarrow> wf_broker b \<and> N = fixed b \<and> (\<forall>c\<in>S. cl_sess (bk_conn b c) \<noteq> None)"

lemma inv_insert: "binv N (insert c S) b \<longleftrightarrow> binv N S b \<and> cl_sess (bk_conn b c) \<noteq> None"
  by (auto simp: binv_def)

lemma inv_wf: "binv N S b \<Longrightarrow> wf_broker b"
  by (simp add: binv_def)

lemma inv_empty: "wf_broker b \<longleftrightarrow> binv (fixed b) {} b"
  by (simp add: binv_def)

lemma inv_registered:
  "binv N S b \<Longrightarrow> map_of (bk_clients b) cid = Some c \<Longrightarrow> binv N (insert c S) b"
  by (auto simp: binv_def wf_broker_def)

lemma inv_connected:
  "binv N S b \<Longrightarrow> needs_session (bk_conn b c) \<Longrightarrow> binv N (insert c S) b"
  by (auto simp: binv_def wf_broker_def wf_conn_def wf_slots_def)

section \<open>Changes that the invariant does not see\<close>

lemma inv_count [simp]: "binv N S (bk_count cs b) = binv N S b"
  by (simp add: binv_def fixed_def wf_broker_def wf_conn_def wf_slots_def bk_count_def)

lemma inv_spawn [simp]: "binv N S (spawn t b) = binv N S b"
  by (simp add: binv_def fixed_def wf_broker_def wf_conn_def wf_slots_def spawn_def)

lemma inv_request [simp]: "binv N S (request cs b) = binv N S b"
  by (simp add: binv_def fixed_def wf_broker_def wf_conn_def wf_slots_def request_def)

lemma inv_authn [simp]: "binv N S (b\<lparr>bk_authn := a\<rparr>) = binv N S b"
  by (simp add: binv_def fixed_def wf_broker_def wf_conn_def wf_slots_def)

lemma inv_rateLimiter [simp]: "binv N S (b\<lparr>bk_rateLimiter := r\<rparr>) = binv N S b"
  by (simp add: binv_def fixed_def wf_broker_def wf_conn_def wf_slots_def)

lemma inv_clusterSeq [simp]: "binv N S (b\<lparr>bk_clusterSeq := n\<rparr>) = binv N S b"
  by (simp add: binv_def fixed_def wf_broker_def wf_conn_def wf_slots_def)

lemma inv_partitions [simp]: "binv N S (b\<lparr>bk_partitions := p\<rparr>) = binv N S b"
  by (simp add: binv_def fixed_def wf_broker_def wf_conn_def wf_slots_def)

lemma inv_tasks [simp]: "binv N S (b\<lparr>bk_tasks := ts\<rparr>) = binv N S b"
  by (simp add: binv_def fixed_def wf_broker_def wf_conn_def wf_slots_def)

lemma inv_router: "binv N S b \<Longrightarrow> wf_router r \<Longrightarrow> binv N S (b\<lparr>bk_router := r\<rparr>)"
  by (simp add: binv_def fixed_def wf_broker_def wf_conn_def wf_slots_def)

lemma inv_upd_router:
  "binv N S b \<Longrightarrow> (\<And>r. wf_router r \<Longrightarrow> wf_router (f r)) \<Longrightarrow> binv N S (upd_router f b)"
  by (simp add: binv_def fixed_def wf_broker_def wf_conn_def wf_slots_def upd_router_def)

lemma wf_slots_upd:
  assumes "cl_slot (f (bk_conn b c)) = cl_slot (bk_conn b c)"
    and "cl_running (f (bk_conn b c)) \<Longrightarrow> cl_running (bk_conn b c)"
    and "wf_slots b"
  shows "wf_slots (upd_client c f b)"
proof -
  have "(\<lambda>d. cl_slot (bk_conn (upd_client c f b) d)) = (\<lambda>d. cl_slot (bk_conn b d))"
    using assms by (auto simp: upd_client_def)
  with assms(2,3) show ?thesis
    unfolding wf_slots_def by (auto simp: upd_client_def fun_eq_iff)
qed

lemma wf_slots_sessions [simp]: "wf_slots (b\<lparr>bk_sessions := st\<rparr>) = wf_slots b"
  by (simp add: wf_slots_def)

lemma inv_upd_client:
  assumes "binv N S b"
    and "cl_sess (f (bk_conn b c)) = cl_sess (bk_conn b c)"
    and "needs_session (f (bk_conn b c)) \<Longrightarrow> needs_session (bk_conn b c)"
    and "queue_ok (bc_WriteQueueSize (cf_Broker (bk_cfg b))) (cl_writeQ (f (bk_conn b c)))"
    and "cl_slot (f (bk_conn b c)) = cl_slot (bk_conn b c)"
    and "cl_running (f (bk_conn b c)) \<Longrightarrow> cl_running (bk_conn b c)"
  shows "binv N S (upd_client c f b)"
  using assms(1-4) wf_slots_upd [of f b c, OF assms(5,6)]
  unfolding binv_def fixed_def wf_broker_def wf_conn_def by (auto simp: upd_client_def)

lemma inv_queue_ok: "binv N S b \<Longrightarrow> queue_ok (bc_WriteQueueSize (cf_Broker (bk_cfg b))) (cl_writeQ (bk_conn b c))"
  by (simp add: binv_def fixed_def wf_broker_def wf_conn_def wf_slots_def)

lemma inv_enqueue [simp]: "binv N S b \<Longrightarrow> binv N S (enqueue c data b)"
  by (auto simp: enqueue_def queue_ok_def needs_session_def intro!: inv_upd_client)

lemma inv_unregister: "binv N S b \<Longrightarrow> binv N S (unregister cid b)"
  by (auto simp: binv_def fixed_def wf_broker_def wf_conn_def wf_slots_def unregister_def)

lemma inv_register: "binv N S b \<Longrightarrow> c \<in> S \<Longrightarrow> binv N S (register c b)"
  by (auto simp: binv_def fixed_def wf_broker_def wf_conn_def wf_slots_def register_def)

lemma inv_Store_Delete: "binv N S b \<Longrightarrow> binv N S (b\<lparr>bk_sessions := Store_Delete cid (bk_sessions b)\<rparr>)"
  by (auto simp: binv_def fixed_def wf_broker_def wf_conn_def wf_slots_def) (simp_all add: Store_Delete_def)

lemma inv_Purge: "binv N S b \<Longrightarrow> binv N S (PurgePersistentSession cid b)"
  by (simp add: PurgePersistentSession_def Let_def inv_Store_Delete inv_upd_router wf_UnsubscribeAll)

section \<open>Methods of sessions\<close>

definition sess_ok :: "(Session \<Rightarrow> Session \<times> 'a) \<Rightarrow> bool" where
  "sess_ok f \<longleftrightarrow> (\<forall>s. wf_session s \<longrightarrow> wf_session (fst (f s)) \<and> ss_ClientID (fst (f s)) = ss_ClientID s)"

lemma wf_store_put:
  assumes "wf_store st" "st_heap st a = Some s" "wf_session s'" "ss_ClientID s' = ss_ClientID s"
  shows "wf_store (st\<lparr>st_heap := (st_heap st)(a \<mapsto> s')\<rparr>)"
proof -
  have "ss_ClientID s = c" if "map_of (st_data st) c = Some a" for c
    using wf_store_client [OF assms(1) that] assms(2) by simp
  with assms show ?thesis
    by (auto simp: wf_store_def)
qed

lemma inv_put_session:
  assumes "binv N S b" "session_of c b = Some s" "wf_session s'" "ss_ClientID s' = ss_ClientID s"
  shows "binv N S (put_session c s' b)"
proof -
  obtain a where a: "cl_sess (bk_conn b c) = Some a" "st_heap (bk_sessions b) a = Some s"
    using assms(2) by (auto simp: session_of_def split: bind_splits)
  have "wf_store ((bk_sessions b)\<lparr>st_heap := (st_heap (bk_sessions b))(a \<mapsto> s')\<rparr>)"
    using assms a(2) by (intro wf_store_put) (auto simp: binv_def fixed_def wf_broker_def)
  with assms(1) a show ?thesis
    by (simp add: put_session_def binv_def fixed_def wf_broker_def wf_conn_def wf_slots_def)
qed

lemma inv_session:
  assumes "binv N S b" "c \<in> S"
  obtains s where "session_of c b = Some s" "wf_session s"
proof -
  obtain a where a: "cl_sess (bk_conn b c) = Some a"
    using assms by (auto simp: binv_def fixed_def)
  then obtain s where "st_heap (bk_sessions b) a = Some s"
    using assms(1) unfolding binv_def fixed_def wf_broker_def wf_conn_def wf_slots_def by blast
  with a assms(1) that show ?thesis
    by (auto simp: session_of_def binv_def fixed_def wf_broker_def wf_store_def)
qed

lemma avoids_on_session [safe]:
  assumes "c \<in> S" "sess_ok f"
  shows "avoids (binv N S) {NilPointer} (on_session c f)"
proof (rule avoidsI)
  fix b assume b: "binv N S b"
  then obtain s where s: "session_of c b = Some s" "wf_session s"
    using assms(1) by (rule inv_session)
  with assms(2) have "wf_session (fst (f s))" "ss_ClientID (fst (f s)) = ss_ClientID s"
    by (auto simp: sess_ok_def)
  with inv_put_session [OF b s(1)] show "wp (on_session c f) (\<lambda>_. binv N S) (\<lambda>e s. binv N S s \<and> e \<notin> {NilPointer}) b"
    by (simp add: wp_cases on_session_def s(1) split_beta)
qed

lemma sess_ok_simps [safe]:
  "sess_ok (AckOutFlight ident)" "sess_ok (AckInFlight ident)" "sess_ok (AddOutFlightLimited m rm)"
  "sess_ok (Enqueue q)" "sess_ok DrainQueue" "sess_ok (PrepareDisconnectExpiry now)" "sess_ok (\<lambda>s. (s, x s))"
  by (simp_all add: sess_ok_def)
    (simp_all add: AckOutFlight_def AckInFlight_def AddOutFlightLimited_def Enqueue_def DrainQueue_def
      PrepareDisconnectExpiry_def Let_def)

lemma sess_ok_upd:
  "(\<And>s. wf_session s \<Longrightarrow> wf_session (f s)) \<Longrightarrow> (\<And>s. ss_ClientID (f s) = ss_ClientID s) \<Longrightarrow> sess_ok (\<lambda>s. (f s, x s))"
  by (simp add: sess_ok_def)

lemma session_ClientID [simp]:
  "ss_ClientID (SetConnected now x s) = ss_ClientID s" "ss_ClientID (Touch now s) = ss_ClientID s"
  "ss_ClientID (SetKeepAlive ka s) = ss_ClientID s" "ss_ClientID (ClearDisconnectExpiry s) = ss_ClientID s"
  "ss_ClientID (SetProtocolAndExpiry v cl e s) = ss_ClientID s"
  "ss_ClientID (UpdateSessionExpiryFromDisconnect sec s) = ss_ClientID s"
  "ss_ClientID (SetOutFlightPhase ident ph s) = ss_ClientID s" "ss_ClientID (AddInFlight m s) = ss_ClientID s"
  by (simp_all add: SetConnected_def Touch_def SetKeepAlive_def ClearDisconnectExpiry_def SetProtocolAndExpiry_def
      UpdateSessionExpiryFromDisconnect_def SetOutFlightPhase_def AddInFlight_def Let_def split: option.split)

lemma wf_session_will [simp]:
  "wf_session (s\<lparr>ss_WillSet := x\<rparr>) = wf_session s"
  "wf_session (s\<lparr>ss_WillTopic := t, ss_WillPayload := p, ss_WillQoS := q, ss_WillRetain := r\<rparr>)
     = wf_session s"
  by (simp_all add: wf_session_def)

lemma avoids_upd_session [safe]:
  assumes "c \<in> S" "\<And>s. wf_session s \<Longrightarrow> wf_session (f s)" "\<And>s. ss_ClientID (f s) = ss_ClientID s"
  shows "avoids (binv N S) {NilPointer} (upd_session c f)"
  unfolding upd_session_def by (intro avoids_on_session assms(1) sess_ok_upd assms(2,3))

lemma avoids_the_session [safe]: "c \<in> S \<Longrightarrow> avoids (binv N S) {NilPointer} (the_session c)"
  unfolding the_session_def by (intro avoids_on_session sess_ok_simps)

lemma avoids_next_packet [safe]:
  assumes "c \<in> S"
  shows "avoids (binv N S) {NilPointer} (next_packet c)"
proof (rule avoidsI)
  fix b assume b: "binv N S b"
  then obtain s where s: "session_of c b = Some s" "wf_session s"
    using assms by (rule inv_session)
  have "binv N S (put_session c s' b)" if "NextPacketID s = Some (pid, s')" for pid s'
  proof -
    have "ss_ClientID s' = ss_ClientID s"
      using that by (auto simp: NextPacketID_def)
    then show ?thesis
      by (intro inv_put_session [OF b s(1)] wf_session_NextPacketID [OF s(2) that])
  qed
  with b show "wp (next_packet c) (\<lambda>_. binv N S) (\<lambda>e s. binv N S s \<and> e \<notin> {NilPointer}) b"
    by (simp add: wp_cases next_packet_def s(1) split: option.split prod.split)
qed

section \<open>Delivery\<close>

lemma avoids_enqueue_enc [safe]: "avoids (binv N S) {NilPointer} (enqueue_enc c enc)"
  unfolding enqueue_enc_def by (intro safe) auto

lemma avoids_enqueuePubAck [safe]: "avoids (binv N S) {NilPointer} (enqueuePubAck c t pid)"
  unfolding enqueuePubAck_def by (intro safe)

lemma avoids_qEnqueue [safe]: "avoids (binv N S) {NilPointer} (qEnqueue c topic payload qos retain)"
  unfolding qEnqueue_def
proof (rule avoids_bind_gets)
  fix b assume b: "binv N S b"
  show "wp (case cl_sess (bk_conn b c) of None \<Rightarrow> ret () | Some _ \<Rightarrow>
      bindM (the_session c) (\<lambda>s. if ss_CleanSession s then ret () else
        thenM (on_session c (Enqueue \<lparr>qd_Topic = topic, qd_Payload = payload, qd_QoS = qos, qd_Retain = retain\<rparr>))
          (modify (bk_count [Inc OfflineQueuedMessages])))) (\<lambda>_. binv N S) (\<lambda>e s. binv N S s \<and> e \<notin> {NilPointer}) b"
  proof (cases "cl_sess (bk_conn b c)")
    case (Some a)
    have "avoids (binv N (insert c S)) {NilPointer} (bindM (the_session c) (\<lambda>s. if ss_CleanSession s then ret () else
        thenM (on_session c (Enqueue \<lparr>qd_Topic = topic, qd_Payload = payload, qd_QoS = qos, qd_Retain = retain\<rparr>))
          (modify (bk_count [Inc OfflineQueuedMessages]))))"
      by (intro safe insertI1) auto
    then show ?thesis
      unfolding Some option.case by (rule avoids_weaken) (use b Some in \<open>auto simp: inv_insert\<close>)
  qed (use b in simp)
qed

lemma avoids_reserve [safe]:
  assumes "c \<in> S"
  shows "avoids (binv N S) {NilPointer} (reserve now c topic payload qos retain)"
  unfolding reserve_def Let_def by (intro safe assms)

lemma avoids_deliver [safe]: "avoids (binv N S) {NilPointer} (deliver now c topic payload qos retain)"
proof -
  let ?rest = "\<lambda>cl. if cl_peerMaxPacketSize cl > 0
         \<and> of_nat (ApproxClientOutboundPublishBytes (cl_version cl) topic (length payload) qos) > cl_peerMaxPacketSize cl
       then thenM (modify (bk_count [Inc (DroppedTotal ''max_packet_size'')])) (qEnqueue c topic payload qos retain)
       else bindM (reserve now c topic payload qos retain) (\<lambda>pid. case pid of
              None \<Rightarrow> thenM (modify (bk_count [Inc (DroppedTotal ''receive_maximum'')])) (qEnqueue c topic payload qos retain)
            | Some pid \<Rightarrow> enqueue_enc c (encode_publish (cl_version cl) topic payload qos retain pid False))"
  have rest: "avoids (binv N (insert c S)) {NilPointer} (?rest cl)" for cl
    by (intro safe insertI1) auto
  show ?thesis
    unfolding deliver_def
  proof (rule avoids_bind_gets)
    fix b assume b: "binv N S b"
    show "wp (if cl_state (bk_conn b c) \<noteq> stateConnected then qEnqueue c topic payload qos retain
        else ?rest (bk_conn b c)) (\<lambda>_. binv N S) (\<lambda>e s. binv N S s \<and> e \<notin> {NilPointer}) b"
    proof (cases "cl_state (bk_conn b c) = stateConnected")
      case True
      have "wp (?rest (bk_conn b c)) (\<lambda>_. binv N S) (\<lambda>e s. binv N S s \<and> e \<notin> {NilPointer}) b"
        using inv_connected [OF b, of c] True by (intro avoids_weaken [OF rest]) (auto simp: inv_insert needs_session_def)
      with True show ?thesis
        by simp
    next
      case False
      with avoids_wp [OF avoids_qEnqueue b] show ?thesis
        by simp
    qed
  qed
qed

lemma avoids_deliver_all [safe]: "avoids (binv N S) {NilPointer} (deliver_all now ds)"
  unfolding deliver_all_def by (intro safe)

lemma avoids_router_publish [safe]: "avoids (binv N S) {NilPointer} (router_publish now topic payload qos retain)"
proof (rule avoidsI)
  fix b assume b: "binv N S b"
  obtain r ds n where p: "Publish now topic payload qos retain (bk_router b) = (r, ds, n)"
    by (rule prod_cases3)
  have "wf_router r"
    using b p by (intro wf_Publish [OF _ p]) (simp add: binv_def fixed_def wf_broker_def)
  then have "binv N S (b\<lparr>bk_router := r\<rparr>)"
    using b by (rule inv_router [rotated])
  then have "wp (thenM (deliver_all now ds) (ret n)) (\<lambda>_. binv N S) (\<lambda>e s. binv N S s \<and> e \<notin> {NilPointer})
      (b\<lparr>bk_router := r\<rparr>)"
    by (intro avoids_wp) (intro safe)
  then show "wp (router_publish now topic payload qos retain) (\<lambda>_. binv N S) (\<lambda>e s. binv N S s \<and> e \<notin> {NilPointer}) b"
    unfolding wp_def router_publish_def p prod.case .
qed

section \<open>Handlers\<close>

text \<open>Changes of a connection record that keep its session, its state and its queue.\<close>

definition harmless :: "(Client \<Rightarrow> Client) \<Rightarrow> bool" where
  "harmless f \<longleftrightarrow> (\<forall>cl. cl_sess (f cl) = cl_sess cl \<and> cl_state (f cl) = cl_state cl
     \<and> cl_running (f cl) = cl_running cl \<and> cl_writeQ (f cl) = cl_writeQ cl \<and> cl_slot (f cl) = cl_slot cl)"

lemma inv_harmless: "harmless f \<Longrightarrow> binv N S b \<Longrightarrow> binv N S (upd_client c f b)"
  by (intro inv_upd_client) (auto simp: harmless_def inv_queue_ok needs_session_def)

lemma avoids_harmless [safe]: "harmless f \<Longrightarrow> avoids (binv N S) E (modify (upd_client c f))"
  by (intro avoids_modify inv_harmless)

lemma harmless_simps [simp]:
  "harmless (\<lambda>cl. cl\<lparr>cl_username := u\<rparr>)" "harmless (\<lambda>cl. cl\<lparr>cl_version := v\<rparr>)"
  "harmless (\<lambda>cl. cl\<lparr>cl_clientID := i\<rparr>)" "harmless (\<lambda>cl. cl\<lparr>cl_connClosed := x\<rparr>)"
  "harmless (\<lambda>cl. cl\<lparr>cl_rxPackets := g cl, cl_rxBytes := h cl\<rparr>)"
  by (simp_all add: harmless_def)

lemma avoids_sendConnackFailure [safe]: "avoids (binv N S) {NilPointer} (sendConnackFailure c r3 r5 peek)"
  unfolding sendConnackFailure_def by (intro safe) auto

lemma avoids_refuse [safe]: "avoids (binv N S) {NilPointer} (refuse_credentials c label e)"
  unfolding refuse_credentials_def by (intro safe) auto

lemma avoids_authenticate [safe]: "avoids (binv N S) {NilPointer} (authenticate ex now c pkt)"
  unfolding authenticate_def auth_certificate_def auth_password_def by (intro safe) (auto intro!: inv_harmless)

lemma avoids_client_identity [safe]: "avoids (binv N S) {NilPointer} (client_identity now c pkt)"
  unfolding client_identity_def by (intro safe) auto

lemma avoids_takeover [safe]: "avoids (binv N S) {NilPointer} (takeover cid)"
  unfolding takeover_def
proof (rule avoids_bind_gets)
  fix b assume b: "binv N S b"
  show "wp (case GetClient cid b of None \<Rightarrow> ret () | Some c \<Rightarrow>
      thenM (upd_session c (\<lambda>s. s\<lparr>ss_WillSet := False\<rparr>)) (modify (upd_client c (\<lambda>cl. cl\<lparr>cl_connClosed := True\<rparr>))))
      (\<lambda>_. binv N S) (\<lambda>e s. binv N S s \<and> e \<notin> {NilPointer}) b"
  proof (cases "GetClient cid b")
    case (Some c)
    have "avoids (binv N (insert c S)) {NilPointer} (thenM (upd_session c (\<lambda>s. s\<lparr>ss_WillSet := False\<rparr>))
        (modify (upd_client c (\<lambda>cl. cl\<lparr>cl_connClosed := True\<rparr>))))"
      by (intro safe insertI1) auto
    moreover have "binv N (insert c S) b"
      using b Some by (auto simp: GetClient_def intro: inv_registered)
    ultimately show ?thesis
      unfolding Some option.case by (rule avoids_weaken) (simp add: inv_insert)
  qed (use b in simp)
qed

lemma wf_connect_session: "wf_session s \<Longrightarrow> wf_session (connect_session now pkt s)"
  by (simp add: connect_session_def Let_def)

lemma connect_session_ClientID: "ss_ClientID (connect_session now pkt s) = ss_ClientID s"
  by (simp add: connect_session_def Let_def)

lemma inv_new_session:
  assumes "binv N S b" "GetOrCreate now cid clean (bk_sessions b) = (st, a, present)" "c < fst N"
  shows "binv N (insert c S) (upd_client c (\<lambda>cl. cl\<lparr>cl_sess := Some a\<rparr>) (b\<lparr>bk_sessions := st\<rparr>))"
proof -
  have wf: "wf_store (bk_sessions b)"
    using assms(1) by (simp add: binv_def fixed_def wf_broker_def)
  have "get_or_create_post now cid clean (bk_sessions b) st a present"
    using wf assms(2) by (rule GetOrCreate_post)
  then have a: "st_heap st a \<noteq> None" and h: "\<And>x. x \<noteq> a \<Longrightarrow> st_heap st x = st_heap (bk_sessions b) x"
    by (auto simp: get_or_create_post_def)
  have "wf_store st"
    using wf_GetOrCreate [OF wf, of now cid clean] assms(2) by simp
  moreover have "st_heap st x \<noteq> None" if "st_heap (bk_sessions b) x \<noteq> None" for x
    using a h [of x] that by (cases "x = a") simp_all
  ultimately show ?thesis
    using assms(1,3) a wf_slots_upd [of "\<lambda>cl. cl\<lparr>cl_sess := Some a\<rparr>" "b\<lparr>bk_sessions := st\<rparr>" c]
    unfolding binv_def fixed_def wf_broker_def wf_conn_def by (auto simp: upd_client_def)
qed

lemma negotiate_sel [simp]:
  "cl_sess (negotiate cfg pkt cl) = cl_sess cl" "cl_slot (negotiate cfg pkt cl) = cl_slot cl"
  "cl_running (negotiate cfg pkt cl) = cl_running cl"
  "cl_writeQ (negotiate cfg pkt cl) = cl_writeQ cl" "cl_clientID (negotiate cfg pkt cl) = cl_clientID cl"
  "cl_version (negotiate cfg pkt cl) = cl_version cl"
  by (simp_all add: negotiate_def Let_def)

lemma inv_open:
  assumes "binv N S b" "c \<in> S"
  shows "binv N S (upd_client c (\<lambda>cl. (negotiate cfg pkt cl)\<lparr>cl_keepAlive := k cl, cl_state := stateConnected\<rparr>) b)"
  using assms wf_slots_upd [of "\<lambda>cl. (negotiate cfg pkt cl)\<lparr>cl_keepAlive := k cl, cl_state := stateConnected\<rparr>" b c]
  unfolding binv_def fixed_def wf_broker_def wf_conn_def by (auto simp: upd_client_def)

lemma avoids_open_session [safe]:
  assumes "c < fst N"
  shows "avoids (binv N S) {NilPointer} (open_session now c cid pkt)"
proof -
  let ?tail = "\<lambda>present. thenM (upd_session c (connect_session now pkt))
         (thenM (modify (\<lambda>b. upd_client c (\<lambda>cl.
            (negotiate (cf_Broker (bk_cfg b)) pkt cl)\<lparr>
              cl_keepAlive := (if cp_KeepAlive pkt > 0 then int (unat (cp_KeepAlive pkt)) * time_Second
                               else cl_keepAlive cl),
              cl_state := stateConnected\<rparr>) b))
         (thenM (modify (register c))
         (thenM (modify (\<lambda>b. bk_count [Inc ConnectTotal, Inc ActiveConnections, Inc ActiveSessions]
                   (spawn (GoRegister c cid) b)))
           (ret (present :: bool)))))"
  have tail: "avoids (binv N (insert c S)) {NilPointer} (?tail present)" for present
    by (intro safe insertI1 wf_connect_session connect_session_ClientID inv_open inv_register) auto
  have "avoids (binv N S) {NilPointer}
      (bindM (gets (\<lambda>b. GetOrCreate now cid (cp_CleanSession pkt) (bk_sessions b))) (\<lambda>(st, a, present).
        thenM (modify (\<lambda>b. upd_client c (\<lambda>cl. cl\<lparr>cl_sess := Some a\<rparr>) (b\<lparr>bk_sessions := st\<rparr>))) (?tail present)))"
  proof (rule avoids_bind_gets)
    fix b assume b: "binv N S b"
    obtain st a present where g: "GetOrCreate now cid (cp_CleanSession pkt) (bk_sessions b) = (st, a, present)"
      by (rule prod_cases3)
    have "wp (?tail present) (\<lambda>_. binv N S) (\<lambda>e s. binv N S s \<and> e \<notin> {NilPointer})
        (upd_client c (\<lambda>cl. cl\<lparr>cl_sess := Some a\<rparr>) (b\<lparr>bk_sessions := st\<rparr>))"
      by (rule avoids_weaken [OF tail inv_new_session [OF b g assms]]) (simp add: inv_insert)
    then show "wp (case GetOrCreate now cid (cp_CleanSession pkt) (bk_sessions b) of (st, a, present) \<Rightarrow>
        thenM (modify (\<lambda>b. upd_client c (\<lambda>cl. cl\<lparr>cl_sess := Some a\<rparr>) (b\<lparr>bk_sessions := st\<rparr>))) (?tail present))
        (\<lambda>_. binv N S) (\<lambda>e s. binv N S s \<and> e \<notin> {NilPointer}) b"
      unfolding g prod.case wp_then [of "modify _"] wp_modify .
  qed
  then show ?thesis
    unfolding open_session_def by (intro avoids_then avoids_takeover)
qed

lemma avoids_accept_connect [safe]: "c < fst N \<Longrightarrow> avoids (binv N S) {NilPointer} (accept_connect now c cid pkt)"
  unfolding accept_connect_def sendConnack_def by (intro safe) auto

lemma avoids_handleConnect [safe]: "c < fst N \<Longrightarrow> avoids (binv N S) {NilPointer} (handleConnect ex now c body)"
  unfolding handleConnect_def by (intro safe) auto

lemma resolvePublishTopic_client:
  "resolvePublishTopic pkt cl = Inr (topic, cl') \<Longrightarrow>
     cl_sess cl' = cl_sess cl \<and> cl_state cl' = cl_state cl \<and> cl_running cl' = cl_running cl \<and> cl_writeQ cl' = cl_writeQ cl
     \<and> cl_slot cl' = cl_slot cl \<and> cl_clientID cl' = cl_clientID cl \<and> cl_version cl' = cl_version cl"
  by (auto simp: resolvePublishTopic_def Let_def split: if_splits option.splits)

lemma avoids_accept_publish [safe]:
  "c \<in> S \<Longrightarrow> avoids (binv N S) {NilPointer} (accept_publish now c topic pkt)"
  unfolding accept_publish_def by (intro safe) auto

lemma avoids_publish_resolved [safe]:
  "c \<in> S \<Longrightarrow> avoids (binv N S) {NilPointer} (publish_resolved t0 now c clientID topic pkt)"
  unfolding publish_resolved_def by (intro safe) auto

lemma avoids_handlePublish [safe]:
  assumes "c \<in> S"
  shows "avoids (binv N S) {NilPointer} (handlePublish t0 now c fh body)"
  unfolding handlePublish_def
proof (rule avoids_bind_gets)
  fix b assume b: "binv N S b"
  have "wp (publish_resolved t0 now c clientID topic pkt) (\<lambda>_. binv N S) (\<lambda>e s. binv N S s \<and> e \<noteq> NilPointer)
      (upd_client c (\<lambda>_. cl') b)"
    if "resolvePublishTopic pkt (bk_conn b c) = Inr (topic, cl')" for clientID pkt topic cl'
  proof -
    have "binv N S (upd_client c (\<lambda>_. cl') b)"
      using resolvePublishTopic_client [OF that] b
      by (intro inv_upd_client) (auto simp: inv_queue_ok needs_session_def)
    from avoids_wp [OF avoids_publish_resolved [OF assms] this] show ?thesis
      by simp
  qed
  with b show "wp (bindM (liftE ProtoErr (DecodePublish t0 (cl_version (bk_conn b c)) fh body)) (\<lambda>pkt.
      bindM (liftE ProtoErr (resolvePublishTopic pkt (bk_conn b c))) (\<lambda>(topic, cl').
        thenM (modify (upd_client c (\<lambda>_. cl'))) (publish_resolved t0 now c (cl_clientID (bk_conn b c)) topic pkt))))
      (\<lambda>_. binv N S) (\<lambda>e s. binv N S s \<and> e \<notin> {NilPointer}) b"
    by (auto simp: wp_liftE split: sum.split)
qed

lemma avoids_acks [safe]:
  assumes "c \<in> S"
  shows "avoids (binv N S) {NilPointer} (handlePuback c body)"
    and "avoids (binv N S) {NilPointer} (handlePubrec c body)"
    and "avoids (binv N S) {NilPointer} (handlePubrel now c body)"
    and "avoids (binv N S) {NilPointer} (handlePubcomp c body)"
  unfolding handlePuback_def handlePubrec_def handlePubrel_def handlePubcomp_def
  by (intro safe assms; simp)+

lemma avoids_subscribe_one [safe]:
  "c \<in> S \<Longrightarrow> avoids (binv N S) {NilPointer} (subscribe_one c sub)"
  unfolding subscribe_one_def Let_def by (intro safe inv_upd_router wf_Subscribe) auto

lemma avoids_unsubscribe_one [safe]:
  "c \<in> S \<Longrightarrow> avoids (binv N S) {NilPointer} (unsubscribe_one c f)"
  unfolding unsubscribe_one_def Let_def by (intro safe inv_upd_router wf_Unsubscribe) auto

lemma avoids_handleSubscribe [safe]:
  "c \<in> S \<Longrightarrow> avoids (binv N S) {NilPointer} (handleSubscribe c body)"
  unfolding handleSubscribe_def by (intro safe) auto

lemma avoids_handleUnsubscribe [safe]:
  "c \<in> S \<Longrightarrow> avoids (binv N S) {NilPointer} (handleUnsubscribe c body)"
  unfolding handleUnsubscribe_def by (intro safe) auto

lemma avoids_handleDisconnect [safe]:
  "c \<in> S \<Longrightarrow> avoids (binv N S) {NilPointer} (handleDisconnect c body)"
  unfolding handleDisconnect_def by (intro safe) (auto simp: Let_def)

lemma avoids_dispatch:
  assumes "c < fst N" "fh_Type fh \<noteq> CONNECT \<Longrightarrow> c \<in> S"
  shows "avoids (binv N S) {NilPointer} (dispatch ex t0 now c fh body)"
  unfolding dispatch_def Let_def by (intro safe assms) auto

lemma avoids_handle:
  assumes "c < fst N" "fh_Type fh \<noteq> CONNECT \<Longrightarrow> c \<in> S"
  shows "avoids (binv N S) {NilPointer} (handle ex t0 now c fh body)"
  unfolding handle_def by (intro safe avoids_dispatch assms) auto

lemma avoids_readLoop_frame:
  assumes "binv N S b" "cl_running (bk_conn b c)"
  shows "wp (readLoop_frame ex t0 now c fh body) (\<lambda>_. binv N S) (\<lambda>e s. binv N S s \<and> e \<notin> {NilPointer}) b"
proof -
  have c: "c < fst N"
    using assms by (auto simp: binv_def fixed_def wf_broker_def wf_slots_def)
  let ?upd = "upd_client c (\<lambda>cl. cl\<lparr>cl_rxPackets := cl_rxPackets cl + 1,
      cl_rxBytes := cl_rxBytes cl + of_nat (2 + fh_RemainingLength fh)\<rparr>)"
  have "wp (handle ex t0 now c fh body) (\<lambda>_. binv N S) (\<lambda>e s. binv N S s \<and> e \<notin> {NilPointer}) (?upd b)"
    if ok: "\<not> (cl_state (bk_conn b c) = stateHandshaking \<and> fh_Type fh \<noteq> CONNECT)"
  proof (cases "fh_Type fh = CONNECT")
    case True
    with assms(1) c show ?thesis
      by (intro avoids_wp avoids_handle inv_harmless) simp_all
  next
    case False
    with ok assms have "binv N (insert c S) b"
      by (intro inv_connected) (simp_all add: needs_session_def)
    then have "binv N (insert c S) (?upd b)"
      by (intro inv_harmless) simp_all
    then show ?thesis
      by (intro avoids_weaken [where P' = "binv N (insert c S)"] avoids_handle c) (auto simp: inv_insert)
  qed
  with assms(1) show ?thesis
    by (simp add: readLoop_frame_def)
qed

section \<open>End of a connection\<close>

lemma avoids_close_session [safe]: "c \<in> S \<Longrightarrow> avoids (binv N S) {NilPointer} (close_session now c cid)"
  unfolding close_session_def Let_def
  by (intro safe) (auto intro!: inv_Store_Delete inv_Purge inv_upd_router wf_UnsubscribeAll)

lemma avoids_cleanup:
  assumes "binv N S b" "\<not> cl_running (bk_conn b c)"
  shows "wp (cleanup now c) (\<lambda>_. binv N S) (\<lambda>e s. binv N S s \<and> e \<notin> {NilPointer}) b"
proof -
  let ?upd = "upd_client c (\<lambda>cl. cl\<lparr>cl_state := stateClosed, cl_connClosed := True, cl_cleaned := True\<rparr>)"
  let ?cid = "cl_clientID (bk_conn b c)"
  have upd: "binv N S (?upd b)"
    using assms by (intro inv_upd_client) (auto simp: needs_session_def inv_queue_ok)
  have "wp (thenM (modify (\<lambda>b. spawn (GoUnregister ?cid) (unregister ?cid b)))
      (thenM (case cl_sess (bk_conn b c) of None \<Rightarrow> ret () | Some _ \<Rightarrow> close_session now c ?cid)
        (modify (bk_count [Dec ActiveConnections, Inc (DisconnectTotal ''closed'')]))))
      (\<lambda>_. binv N S) (\<lambda>e s. binv N S s \<and> e \<notin> {NilPointer}) (?upd b)"
  proof (cases "cl_sess (bk_conn b c)")
    case (Some a)
    have "binv N (insert c S) (?upd b)"
      using upd Some by (simp add: inv_insert upd_client_def)
    then show ?thesis
      unfolding Some option.case
      by (intro avoids_weaken [where P' = "binv N (insert c S)"] safe insertI1)
        (auto simp: inv_unregister, simp add: inv_insert)
  qed (use upd in \<open>simp add: inv_unregister\<close>)
  with assms(1) upd show ?thesis
    by (auto simp: cleanup_def)
qed

lemma avoids_ForceDisconnect [safe]: "c \<in> S \<Longrightarrow> avoids (binv N S) {NilPointer} (ForceDisconnect c)"
  unfolding ForceDisconnect_def by (intro safe) auto

end
