(* ===== verification/Frame.thy ===== *)
theory Frame
  imports Connection
begin

text \<open>
  What the delivery of messages leaves alone. A delivery function writes to the queue of its connection,
  to the messages in flight and the offline queue of its session, and to the metrics; everything else of
  the broker is its \<open>background\<close>, which no delivery changes, whether it succeeds or not.
\<close>

section \<open>What the elementary changes leave alone\<close>

lemma count_sel [simp]:
  "bk_id (bk_count cs b) = bk_id b" "bk_cfg (bk_count cs b) = bk_cfg b"
  "bk_router (bk_count cs b) = bk_router b" "bk_sessions (bk_count cs b) = bk_sessions b"
  "bk_authn (bk_count cs b) = bk_authn b" "bk_plugins (bk_count cs b) = bk_plugins b"
  "bk_clients (bk_count cs b) = bk_clients b" "bk_partitions (bk_count cs b) = bk_partitions b"
  "bk_conn (bk_count cs b) = bk_conn b" "bk_nextConn (bk_count cs b) = bk_nextConn b"
  "bk_connSem (bk_count cs b) = bk_connSem b" "bk_tasks (bk_count cs b) = bk_tasks b"
  "bk_storage (bk_count cs b) = bk_storage b"
  by (simp_all add: bk_count_def)

lemma spawn_sel [simp]:
  "bk_id (spawn t b) = bk_id b" "bk_cfg (spawn t b) = bk_cfg b" "bk_router (spawn t b) = bk_router b"
  "bk_sessions (spawn t b) = bk_sessions b" "bk_authn (spawn t b) = bk_authn b"
  "bk_plugins (spawn t b) = bk_plugins b" "bk_clients (spawn t b) = bk_clients b"
  "bk_partitions (spawn t b) = bk_partitions b" "bk_conn (spawn t b) = bk_conn b"
  "bk_nextConn (spawn t b) = bk_nextConn b" "bk_connSem (spawn t b) = bk_connSem b"
  "bk_storage (spawn t b) = bk_storage b" "bk_metrics (spawn t b) = bk_metrics b"
  by (simp_all add: spawn_def)

lemma upd_client_sel [simp]:
  "bk_id (upd_client c f b) = bk_id b" "bk_cfg (upd_client c f b) = bk_cfg b"
  "bk_router (upd_client c f b) = bk_router b" "bk_sessions (upd_client c f b) = bk_sessions b"
  "bk_authn (upd_client c f b) = bk_authn b" "bk_plugins (upd_client c f b) = bk_plugins b"
  "bk_clients (upd_client c f b) = bk_clients b" "bk_partitions (upd_client c f b) = bk_partitions b"
  "bk_nextConn (upd_client c f b) = bk_nextConn b" "bk_connSem (upd_client c f b) = bk_connSem b"
  "bk_tasks (upd_client c f b) = bk_tasks b" "bk_storage (upd_client c f b) = bk_storage b"
  "bk_metrics (upd_client c f b) = bk_metrics b"
  by (simp_all add: upd_client_def)

lemma upd_router_sel [simp]:
  "bk_id (upd_router f b) = bk_id b" "bk_cfg (upd_router f b) = bk_cfg b"
  "bk_sessions (upd_router f b) = bk_sessions b" "bk_authn (upd_router f b) = bk_authn b"
  "bk_plugins (upd_router f b) = bk_plugins b" "bk_clients (upd_router f b) = bk_clients b"
  "bk_partitions (upd_router f b) = bk_partitions b" "bk_conn (upd_router f b) = bk_conn b"
  "bk_nextConn (upd_router f b) = bk_nextConn b" "bk_connSem (upd_router f b) = bk_connSem b"
  "bk_tasks (upd_router f b) = bk_tasks b" "bk_storage (upd_router f b) = bk_storage b"
  "bk_metrics (upd_router f b) = bk_metrics b"
  by (simp_all add: upd_router_def)

lemma unregister_sel [simp]:
  "bk_id (unregister cid b) = bk_id b" "bk_cfg (unregister cid b) = bk_cfg b"
  "bk_router (unregister cid b) = bk_router b" "bk_sessions (unregister cid b) = bk_sessions b"
  "bk_authn (unregister cid b) = bk_authn b" "bk_plugins (unregister cid b) = bk_plugins b"
  "bk_partitions (unregister cid b) = bk_partitions b" "bk_conn (unregister cid b) = bk_conn b"
  "bk_nextConn (unregister cid b) = bk_nextConn b" "bk_connSem (unregister cid b) = bk_connSem b"
  "bk_tasks (unregister cid b) = bk_tasks b" "bk_storage (unregister cid b) = bk_storage b"
  "bk_metrics (unregister cid b) = bk_metrics b"
  by (simp_all add: unregister_def)

lemma register_sel [simp]:
  "bk_id (register c b) = bk_id b" "bk_cfg (register c b) = bk_cfg b"
  "bk_router (register c b) = bk_router b" "bk_sessions (register c b) = bk_sessions b"
  "bk_authn (register c b) = bk_authn b" "bk_plugins (register c b) = bk_plugins b"
  "bk_partitions (register c b) = bk_partitions b" "bk_conn (register c b) = bk_conn b"
  "bk_nextConn (register c b) = bk_nextConn b" "bk_connSem (register c b) = bk_connSem b"
  "bk_tasks (register c b) = bk_tasks b" "bk_storage (register c b) = bk_storage b"
  "bk_metrics (register c b) = bk_metrics b"
  by (simp_all add: register_def)

lemma enqueue_sel [simp]:
  "bk_id (enqueue c data b) = bk_id b" "bk_cfg (enqueue c data b) = bk_cfg b"
  "bk_router (enqueue c data b) = bk_router b" "bk_sessions (enqueue c data b) = bk_sessions b"
  "bk_authn (enqueue c data b) = bk_authn b" "bk_plugins (enqueue c data b) = bk_plugins b"
  "bk_clients (enqueue c data b) = bk_clients b" "bk_partitions (enqueue c data b) = bk_partitions b"
  "bk_nextConn (enqueue c data b) = bk_nextConn b" "bk_connSem (enqueue c data b) = bk_connSem b"
  "bk_tasks (enqueue c data b) = bk_tasks b" "bk_storage (enqueue c data b) = bk_storage b"
  by (simp_all add: enqueue_def)

lemma put_session_sel [simp]:
  "bk_id (put_session c s b) = bk_id b" "bk_cfg (put_session c s b) = bk_cfg b"
  "bk_router (put_session c s b) = bk_router b" "bk_authn (put_session c s b) = bk_authn b"
  "bk_plugins (put_session c s b) = bk_plugins b" "bk_clients (put_session c s b) = bk_clients b"
  "bk_partitions (put_session c s b) = bk_partitions b" "bk_conn (put_session c s b) = bk_conn b"
  "bk_nextConn (put_session c s b) = bk_nextConn b" "bk_connSem (put_session c s b) = bk_connSem b"
  "bk_tasks (put_session c s b) = bk_tasks b" "bk_storage (put_session c s b) = bk_storage b"
  "bk_metrics (put_session c s b) = bk_metrics b"
  by (simp_all add: put_session_def split: option.split)

lemma changes_sel [simp]:
  "bk_conn (upd_client c f b) = (bk_conn b)(c := f (bk_conn b c))" "bk_router (upd_router g b) = g (bk_router b)"
  "bk_tasks (spawn t b) = bk_tasks b @ [t]" "bk_clients (unregister cid b) = AList.delete cid (bk_clients b)"
  "bk_clients (register c b) = AList.update (cl_clientID (bk_conn b c)) c (bk_clients b)"
  "st_data (bk_sessions (put_session c s b)) = st_data (bk_sessions b)"
  by (simp_all add: upd_client_def upd_router_def spawn_def unregister_def register_def put_session_def split: option.split)

section \<open>Views of the state\<close>

lemma keeps_view: "(\<And>x. keeps (\<lambda>s. v s = x) m) \<Longrightarrow> v (snd (m s)) = v s"
  by (rule avoidsD [where P = "\<lambda>t. v t = v s"]) simp_all

lemma keeps_comp:
  assumes "\<And>x. keeps (\<lambda>s. v s = x) m"
  shows "keeps (\<lambda>s. f (v s) = y) m"
proof (rule avoidsI)
  fix s assume "f (v s) = y"
  with keeps_view [of v m s, OF assms] show "wp m (\<lambda>_ s. f (v s) = y) (\<lambda>e s. f (v s) = y \<and> e \<notin> {}) s"
    by (auto simp: wp_cases split: sum.split)
qed

definition settled :: "Session \<Rightarrow> Session" where
  "settled s = s\<lparr>nextPktID := 0, outFlight := [], queue := []\<rparr>"

definition background :: "Broker \<Rightarrow> Broker" where
  "background b = b\<lparr>bk_sessions := (bk_sessions b)\<lparr>st_heap := (\<lambda>a. map_option settled (st_heap (bk_sessions b) a))\<rparr>,
     bk_metrics := [], bk_conn := (\<lambda>c. (bk_conn b c)\<lparr>cl_writeQ := []\<rparr>)\<rparr>"

lemma settled_sel:
  "settled s = settled s' \<Longrightarrow> ss_ClientID s = ss_ClientID s' \<and> ss_CleanSession s = ss_CleanSession s'
     \<and> Session.connected s = Session.connected s' \<and> disconnectExpireAt s = disconnectExpireAt s' \<and> ss_WillSet s = ss_WillSet s'
     \<and> inFlight s = inFlight s'"
  by (cases s; cases s') (simp add: settled_def)

lemma background_sel [simp]:
  "bk_id (background b) = bk_id b" "bk_cfg (background b) = bk_cfg b" "bk_router (background b) = bk_router b"
  "bk_authn (background b) = bk_authn b" "bk_plugins (background b) = bk_plugins b"
  "bk_clients (background b) = bk_clients b" "bk_tasks (background b) = bk_tasks b"
  "bk_storage (background b) = bk_storage b" "bk_partitions (background b) = bk_partitions b"
  "bk_connSem (background b) = bk_connSem b" "bk_nextConn (background b) = bk_nextConn b"
  "st_data (bk_sessions (background b)) = st_data (bk_sessions b)"
  "st_heap (bk_sessions (background b)) a = map_option settled (st_heap (bk_sessions b) a)"
  "bk_conn (background b) c = (bk_conn b c)\<lparr>cl_writeQ := []\<rparr>"
  by (simp_all add: background_def)

lemma background_count [simp]: "background (bk_count cs b) = background b"
  by (simp add: background_def bk_count_def)

lemma background_enqueue [simp]: "background (enqueue c data b) = background b"
  by (simp add: enqueue_def) (simp add: background_def upd_client_def fun_eq_iff)

lemma background_router [simp]: "background (b\<lparr>bk_router := r\<rparr>) = (background b)\<lparr>bk_router := r\<rparr>"
  by (simp add: background_def)

lemma background_put_session:
  assumes "session_of c b = Some s" "settled s' = settled s"
  shows "background (put_session c s' b) = background b"
proof -
  obtain a where "cl_sess (bk_conn b c) = Some a" "st_heap (bk_sessions b) a = Some s"
    using assms(1) by (auto simp: session_of_def split: bind_splits)
  with assms(2) show ?thesis
    by (simp add: background_def put_session_def fun_upd_def if_distrib fun_eq_iff cong: if_cong)
qed

section \<open>Delivery\<close>

lemma on_session_background [safe]:
  assumes "\<And>s. settled (fst (f s)) = settled s"
  shows "keeps (\<lambda>b. background b = x) (on_session c f)"
proof (rule avoidsI)
  fix b assume "background b = x"
  with background_put_session [of c b _ "fst (f _)", OF _ assms]
  show "wp (on_session c f) (\<lambda>_ b. background b = x) (\<lambda>e b. background b = x \<and> e \<notin> {}) b"
    by (auto simp: wp_cases on_session_def split: option.split prod.split)
qed

lemma settled_simps [simp]:
  "settled (fst (Enqueue q s)) = settled s" "settled (fst (AddOutFlightLimited m rm s)) = settled s"
  "settled (s\<lparr>nextPktID := n\<rparr>) = settled s"
  by (simp_all add: Enqueue_def AddOutFlightLimited_def settled_def Let_def)

lemma next_packet_background [safe]: "keeps (\<lambda>b. background b = x) (next_packet c)"
proof (rule avoidsI)
  fix b assume "background b = x"
  then show "wp (next_packet c) (\<lambda>_ b. background b = x) (\<lambda>e b. background b = x \<and> e \<notin> {}) b"
    by (auto simp: wp_cases next_packet_def NextPacketID_def background_put_session split: option.split prod.split)
qed

lemma the_session_background [safe]: "keeps (\<lambda>b. background b = x) (the_session c)"
  unfolding the_session_def by (intro safe) simp

lemma enqueue_enc_background [safe]: "keeps (\<lambda>b. background b = x) (enqueue_enc c enc)"
  unfolding enqueue_enc_def by (intro safe) auto

lemma enqueuePubAck_background [safe]: "keeps (\<lambda>b. background b = x) (enqueuePubAck c t pid)"
  unfolding enqueuePubAck_def by (intro safe)

lemma qEnqueue_background [safe]: "keeps (\<lambda>b. background b = x) (qEnqueue c topic payload qos retain)"
  unfolding qEnqueue_def by (intro safe) auto

lemma reserve_background [safe]: "keeps (\<lambda>b. background b = x) (reserve now c topic payload qos retain)"
  unfolding reserve_def Let_def by (intro safe) auto

lemma deliver_background [safe]: "keeps (\<lambda>b. background b = x) (deliver now c topic payload qos retain)"
  unfolding deliver_def by (intro safe) auto

lemma deliver_all_background [safe]: "keeps (\<lambda>b. background b = x) (deliver_all now ds)"
  unfolding deliver_all_def by (intro safe)

text \<open>A publication changes the router as \<^const>\<open>Publish\<close> does, and delivers.\<close>

lemma router_publish_background:
  "background (snd (router_publish now topic payload qos retain b))
     = (background b)\<lparr>bk_router := fst (Publish now topic payload qos retain (bk_router b))\<rparr>"
proof -
  obtain r ds n where p: "Publish now topic payload qos retain (bk_router b) = (r, ds, n)"
    by (rule prod_cases3)
  have "background (snd (thenM (deliver_all now ds) (ret n) (b\<lparr>bk_router := r\<rparr>))) = background (b\<lparr>bk_router := r\<rparr>)"
    by (rule keeps_view) (intro safe)
  then show ?thesis
    by (simp add: router_publish_def p)
qed

lemma router_publish_router:
  "bk_router (snd (router_publish now topic payload qos retain b)) = fst (Publish now topic payload qos retain (bk_router b))"
  using router_publish_background [of now topic payload qos retain b, THEN arg_cong [where f = bk_router]] by simp

end
