(* ===== verification/Server.thy ===== *)
theory Server
  imports Broker_Safety Frame
begin

text \<open>
  The broker (\<open>internal/broker/server.go\<close>): construction, accepting connections, the goroutines that
  handlers start, and the background loops; then the broker as a transition system, whose steps are
  the packets of the connections, the tasks and the ticks of the loops in any order.
\<close>

section \<open>Construction and connections\<close>

text \<open>
  The broker after Redis and PostgreSQL answered; \<open>uuid\<close> is a fresh identifier, \<open>hashpw\<close> the password hash.
\<close>

definition blank_client :: Client where
  "blank_client = \<lparr>cl_clientID = [], cl_username = [], cl_remoteAddr = [], cl_version = 0,
     cl_state = stateHandshaking, cl_sess = None, cl_writeQ = [], cl_keepAlive = 0, cl_topicAliases = [],
     cl_peerRecvMax = 0, cl_peerMaxPacketSize = 0, cl_negotiatedTopicAliasMax = 0,
     cl_rxPackets = 0, cl_txPackets = 0, cl_rxBytes = 0, cl_txBytes = 0,
     cl_peerCert = None, cl_connClosed = False, cl_running = False, cl_writing = False, cl_cleaned = False,
     cl_slot = False\<rparr>"

definition newClient :: "string \<Rightarrow> Certificate option \<Rightarrow> Client" where
  "newClient remoteAddr peerCert =
     blank_client\<lparr>cl_remoteAddr := remoteAddr, cl_peerCert := peerCert, cl_state := stateHandshaking\<rparr>"

definition Broker_New ::
    "(bytes \<Rightarrow> int \<Rightarrow> string + string) \<Rightarrow> string \<Rightarrow> time \<Rightarrow> Config \<Rightarrow> Broker" where
  "Broker_New hashpw uuid now cfg =
     (let auth = cf_Auth cfg;
          authn = Authenticator_New (uc_JWTSecret auth) (uc_JWTIssuer auth) (uc_JWTDuration auth) (uc_BcryptCost auth);
          authn = SetRevokedSerials (tc_RevokedCerts (cf_TLS cfg)) authn;
          authn = (case AddUser hashpw ''admin'' (uc_DefaultPassword auth) [''admin''] authn of
                     Inl _ \<Rightarrow> authn | Inr a \<Rightarrow> a);
          brokerID = (if cc_BrokerID (cf_Cluster cfg) = [] then uuid else cc_BrokerID (cf_Cluster cfg))
      in \<lparr>bk_id = brokerID, bk_cfg = cfg, bk_router = Router_New, bk_sessions = NewStore, bk_authn = authn,
          bk_rateLimiter = NewRateLimiter (uc_RateLimit auth) (uc_RateBurst auth),
          bk_partitions = ClusterManager_New brokerID (cc_PartitionCount (cf_Cluster cfg)),
          bk_plugins = PluginManager_New, bk_clients = [], bk_conn = (\<lambda>_. blank_client), bk_nextConn = 0,
          bk_connSem = 0, bk_totalConns = 0, bk_startTime = now, bk_clusterSeq = 0,
          bk_metrics = [], bk_tasks = [], bk_storage = []\<rparr>)"

text \<open>A connection is accepted if the semaphore has a slot; its goroutine starts both loops.\<close>

definition acceptConn :: "string \<Rightarrow> Certificate option \<Rightarrow> Broker \<Rightarrow> Broker" where
  "acceptConn remoteAddr peerCert b =
     (if int (bk_connSem b) < bc_MaxConnections (cf_Broker (bk_cfg b)) then
        let c = bk_nextConn b
        in b\<lparr>bk_connSem := bk_connSem b + 1, bk_totalConns := bk_totalConns b + 1, bk_nextConn := Suc c,
             bk_conn := (bk_conn b)(c := (newClient remoteAddr peerCert)\<lparr>
               cl_running := True, cl_writing := True, cl_slot := True\<rparr>)\<rparr>
      else bk_count [Inc (DroppedTotal ''conn_limit'')] b)"

text \<open>An upgraded WebSocket connection is accepted in the same way, but one that finds no slot is not counted as dropped.\<close>

definition ws_acceptConn :: "string \<Rightarrow> Broker \<Rightarrow> Broker" where
  "ws_acceptConn remoteAddr b =
     (if int (bk_connSem b) < bc_MaxConnections (cf_Broker (bk_cfg b)) then acceptConn remoteAddr None b else b)"

text \<open>What runs when the read loop has returned: the cleanup, then the release of the slot.\<close>

definition run_exit :: "time \<Rightarrow> addr \<Rightarrow> unit act" where
  "run_exit now c =
     thenM (cleanup now c)
       (modify (\<lambda>b. upd_client c (\<lambda>cl. cl\<lparr>cl_slot := False\<rparr>) (b\<lparr>bk_connSem := bk_connSem b - 1\<rparr>)))"

text \<open>One turn of the write loop; \<open>written\<close> is the result of \<open>conn.Write\<close>, \<^const>\<open>None\<close> for an error.\<close>

definition writeLoop_write :: "nat option \<Rightarrow> addr \<Rightarrow> Broker \<Rightarrow> Broker" where
  "writeLoop_write written c b =
     (case cl_writeQ (bk_conn b c) of
        [] \<Rightarrow> b
      | d # q \<Rightarrow>
          (case written of
             None \<Rightarrow> upd_client c (\<lambda>cl. cl\<lparr>cl_writeQ := q, cl_writing := False\<rparr>) b
           | Some n \<Rightarrow> upd_client c (\<lambda>cl. cl\<lparr>cl_writeQ := q, cl_txPackets := cl_txPackets cl + 1,
                          cl_txBytes := cl_txBytes cl + of_nat n\<rparr>) b))"

section \<open>Tasks\<close>

definition go_published :: "time \<Rightarrow> addr \<Rightarrow> string \<Rightarrow> PublishPacket \<Rightarrow> unit act" where
  "go_published now c topic pkt =
     thenM (modify (\<lambda>b. request
              (IncrMsgRate # (if pp_Retain pkt then [Redis_SetRetained topic (pp_Payload pkt) (pp_QoS pkt)] else [])
               @ [LogMsg topic (pp_Payload pkt) (pp_QoS pkt) (pp_Retain pkt) (cl_clientID (bk_conn b c))]) b))
       (bindM (gets (\<lambda>b. b)) (\<lambda>b.
          if \<not> cc_Enabled (cf_Cluster (bk_cfg b)) then ret ()
          else bindM (liftE ProtoErr (PartitionForTopic topic (bk_partitions b))) (\<lambda>part.
            modify (\<lambda>b. request [PublishCluster \<lparr>cg_Ver = 1, cg_SourceBroker = bk_id b, cg_Partition = part,
                cg_Sequence = bk_clusterSeq b + 1, cg_Topic = topic, cg_Payload = pp_Payload pkt,
                cg_QoS = pp_QoS pkt, cg_Retain = pp_Retain pkt, cg_TimestampUnix = now div time_Second\<rparr>]
              (b\<lparr>bk_clusterSeq := bk_clusterSeq b + 1\<rparr>)))))"

text \<open>\<open>records\<close> is the answer of \<open>GetSubs\<close>, \<^const>\<open>None\<close> for an error.\<close>

definition restoreSession :: "SubRecord list option \<Rightarrow> addr \<Rightarrow> Broker \<Rightarrow> Broker" where
  "restoreSession records c b =
     (case records of
        None \<Rightarrow> b
      | Some rs \<Rightarrow> upd_router (fold (\<lambda>s. Subscribe (sr_Filter s)
                      \<lparr>ClientID = cl_clientID (bk_conn b c), QoS = sr_QoS s, Deliver = Some c\<rparr>) rs) b)"

text \<open>
  The offline queue is emptied at once; then its messages are delivered one after the other, each as a
  step of its own.
\<close>

definition drainOfflineQueue :: "addr \<Rightarrow> unit act" where
  "drainOfflineQueue c =
     bindM (gets (\<lambda>b. cl_sess (bk_conn b c))) (\<lambda>sess. case sess of
       None \<Rightarrow> ret ()
     | Some _ \<Rightarrow> bindM (on_session c DrainQueue) (\<lambda>msgs. modify (spawn (GoDeliver c msgs))))"

definition deliver_queued :: "time \<Rightarrow> addr \<Rightarrow> Queued list \<Rightarrow> unit act" where
  "deliver_queued now c msgs =
     (case msgs of
        [] \<Rightarrow> ret ()
      | m # ms \<Rightarrow>
          thenM (deliver now c (qd_Topic m) (qd_Payload m) (qd_QoS m) (qd_Retain m))
            (modify (\<lambda>b. spawn (GoDeliver c ms) (bk_count [Dec OfflineQueuedMessages] b))))"

definition run_task :: "(string \<Rightarrow> SubRecord list option) \<Rightarrow> time \<Rightarrow> task \<Rightarrow> unit act" where
  "run_task getSubs now t =
     (case t of
        GoRegister c cid \<Rightarrow>
          modify (\<lambda>b. request [SetClient \<lparr>ci_ClientID = cid, ci_Username = cl_username (bk_conn b c),
              ci_BrokerID = bk_id b, ci_RemoteAddr = cl_remoteAddr (bk_conn b c), ci_ConnectedAt = now,
              ci_Protocol = cl_version (bk_conn b c)\<rparr>, SetDeviceStatus cid True] b)
      | GoUnregister cid \<Rightarrow> modify (request [DelClient cid, SetDeviceStatus cid False])
      | GoPublished c topic pkt \<Rightarrow> go_published now c topic pkt
      | GoSaveSub cid f qos \<Rightarrow> modify (request [SaveSub cid f qos])
      | GoDeleteSub cid f \<Rightarrow> modify (request [DeleteSub cid f])
      | GoDeleteAllSubs cid \<Rightarrow> modify (request [DeleteAllSubs cid])
      | GoSendRetained f sub \<Rightarrow> bindM (gets (\<lambda>b. SendRetained f sub (bk_router b))) (deliver_all now)
      | GoRestore c \<Rightarrow> modify (\<lambda>b. restoreSession (getSubs (cl_clientID (bk_conn b c))) c b)
      | GoDrain c \<Rightarrow> drainOfflineQueue c
      | GoDeliver c msgs \<Rightarrow> deliver_queued now c msgs)"

section \<open>Background loops\<close>

definition sweep_sessions :: "time \<Rightarrow> Broker \<Rightarrow> Broker" where
  "sweep_sessions now b =
     fold (\<lambda>a b. case st_heap (bk_sessions b) a of
             Some s \<Rightarrow> if ShouldExpireDisconnected now s then PurgePersistentSession (ss_ClientID s) b else b
           | None \<Rightarrow> b) (Store_Each (bk_sessions b)) b"

definition maintenance :: "time \<Rightarrow> Broker \<Rightarrow> Broker" where
  "maintenance now b = b\<lparr>bk_rateLimiter := Cleanup now (5 * 60 * time_Second) (bk_rateLimiter b)\<rparr>"

text \<open>\<open>%.0f\<close> of a duration in seconds: the nearest integer, ties to even.\<close>

definition round_seconds :: "time \<Rightarrow> int" where
  "round_seconds d =
     (let q = d div time_Second; r = 2 * (d mod time_Second)
      in if r < time_Second then q else if r > time_Second then q + 1 else if even q then q else q + 1)"

definition publishSys :: "int \<Rightarrow> int \<Rightarrow> time \<Rightarrow> unit act" where
  "publishSys clientCount msgRate now =
     bindM (gets (\<lambda>b. (bk_startTime b, Store_Count (bk_sessions b)))) (\<lambda>(start, sessions).
       forM (\<lambda>(topic, v). thenM (router_publish now topic (bytes_of_string v) 0 True) (ret ()))
         [(''$SYS/broker/clients/connected'', Itoa clientCount),
          (''$SYS/broker/messages/rate'', Itoa msgRate),
          (''$SYS/broker/uptime'', Itoa (round_seconds (now - start))),
          (''$SYS/broker/version'', ''LUMA/2.0.0-go''),
          (''$SYS/broker/sessions'', Itoa (int sessions))])"

definition sync_partitions :: "string list option \<Rightarrow> Broker \<Rightarrow> Broker" where
  "sync_partitions alive b =
     b\<lparr>bk_partitions := reconcilePartitions alive (bk_id b) (cc_PartitionCount (cf_Cluster (bk_cfg b)))
         (bk_partitions b)\<rparr>"

definition clusterLoop_msg :: "time \<Rightarrow> ClusterMsg \<Rightarrow> unit act" where
  "clusterLoop_msg now msg =
     bindM (gets (\<lambda>b. b)) (\<lambda>b.
       if cg_SourceBroker msg = bk_id b then ret ()
       else if cg_Ver msg \<ge> 1 \<and> Owner (cg_Partition msg) (bk_partitions b) \<noteq> bk_id b then ret ()
       else thenM (router_publish now (cg_Topic msg) (cg_Payload msg) (cg_QoS msg) (cg_Retain msg)) (ret ()))"

definition apiPublishLoop_msg :: "time \<Rightarrow> APIPublishMsg \<Rightarrow> unit act" where
  "apiPublishLoop_msg now msg =
     thenM (router_publish now (ap_Topic msg) (bytes_of_string (ap_Payload msg)) (ap_QoS msg) (ap_Retain msg)) (ret ())"

definition loadRetained :: "RetainedRecord list option \<Rightarrow> Broker \<Rightarrow> Broker" where
  "loadRetained records b =
     (case records of
        None \<Rightarrow> b
      | Some rs \<Rightarrow> upd_router (fold (\<lambda>rec. SetRetained \<lparr>rm_Topic = rr_Topic rec, rm_Payload = rr_Payload rec,
                      rm_QoS = rr_QoS rec, rm_Timestamp = rr_Timestamp rec\<rparr>) rs) b)"

datatype stat = Count int | Text string | Duration time

definition Broker_Stats :: "int \<Rightarrow> int \<Rightarrow> time \<Rightarrow> Broker \<Rightarrow> (string, stat) gomap" where
  "Broker_Stats clientCount msgRate now b =
     [(''broker_id'', Text (bk_id b)),
      (''uptime_seconds'', Duration (now - bk_startTime b)),
      (''connected_clients'', Count clientCount),
      (''local_clients'', Count (int (length (bk_clients b)))),
      (''total_connections'', Count (bk_totalConns b)),
      (''messages_per_second'', Count msgRate),
      (''sessions'', Count (int (Store_Count (bk_sessions b)))),
      (''retained_messages'', Count (case map_of (Router_Stats (bk_router b)) ''retained_messages'' of
         Some n \<Rightarrow> n | None \<Rightarrow> 0))]"

section \<open>The broker as a transition system\<close>

text \<open>
  The read loop of a connection stops when a handler fails. A call that never returns is treated as one
  that fails, which only adds behaviours.
\<close>

definition stop_reading :: "addr \<Rightarrow> (brokerr + unit) \<times> Broker \<Rightarrow> Broker" where
  "stop_reading c p =
     (case fst p of
        Inr _ \<Rightarrow> snd p
      | Inl _ \<Rightarrow> upd_client c (\<lambda>cl. cl\<lparr>cl_running := False\<rparr>) (snd p))"

inductive step :: "Externals \<Rightarrow> Broker \<Rightarrow> Broker \<Rightarrow> bool" for ex where
  accept: "step ex b (acceptConn remoteAddr peerCert b)"
| ws_accept: "step ex b (ws_acceptConn remoteAddr b)"
| frame: "step ex b (stop_reading c (readLoop_frame ex t0 now c fh body b))"
    if "cl_running (bk_conn b c)" "frame_ok (nat (bc_MaxPacketSize (cf_Broker (bk_cfg b)))) (fh, body)" "t0 \<le> now"
| read_error: "step ex b (upd_client c (\<lambda>cl. cl\<lparr>cl_running := False\<rparr>) b)"
    if "cl_running (bk_conn b c)"
| exits: "step ex b (snd (run_exit now c b))"
    if "\<not> cl_running (bk_conn b c)" "cl_slot (bk_conn b c)"
| writes: "step ex b (writeLoop_write written c b)"
    if "cl_writing (bk_conn b c)"
| task: "step ex b (snd (run_task getSubs now (bk_tasks b ! i) (b\<lparr>bk_tasks := take i (bk_tasks b) @ drop (Suc i) (bk_tasks b)\<rparr>)))"
    if "i < length (bk_tasks b)"
| sweep: "step ex b (sweep_sessions now b)"
| maintain: "step ex b (maintenance now b)"
| sys: "step ex b (snd (publishSys clientCount msgRate now b))"
| sync: "step ex b (sync_partitions alive b)"
| cluster: "step ex b (snd (clusterLoop_msg now msg b))"
| api: "step ex b (snd (apiPublishLoop_msg now amsg b))"
| retained: "step ex b (loadRetained records b)"
| force: "step ex b (snd (ForceDisconnect c b))"
    if "GetClient clientID b = Some c"

inductive_cases stepE: "step ex b b'"

section \<open>The invariant is inductive\<close>

definition good_step :: "Broker \<Rightarrow> Broker \<Rightarrow> bool" where
  "good_step b b' \<longleftrightarrow> wf_broker b' \<and> bk_cfg b' = bk_cfg b"

lemma good_stepI: "binv (fixed b) {} b' \<Longrightarrow> good_step b b'"
  by (simp add: good_step_def binv_def fixed_def)

lemma wf_Broker_New: "wf_broker (Broker_New hashpw uuid now cfg)"
  by (simp add: Broker_New_def Let_def wf_broker_def wf_conn_def wf_slots_def blank_client_def needs_session_def
      queue_ok_def)

lemma inv_acceptConn:
  assumes "wf_broker b"
  shows "good_step b (acceptConn remoteAddr peerCert b)"
proof (cases "int (bk_connSem b) < bc_MaxConnections (cf_Broker (bk_cfg b))")
  case True
  let ?c = "bk_nextConn b" and ?new = "(newClient remoteAddr peerCert)\<lparr>cl_running := True, cl_writing := True, cl_slot := True\<rparr>"
  let ?b = "acceptConn remoteAddr peerCert b"
  have old: "\<not> cl_slot (bk_conn b ?c)" "cl_sess (bk_conn b ?c) = None"
    using assms unfolding wf_broker_def wf_slots_def wf_conn_def
    by (blast, metis not_None_eq order_less_irrefl)
  have b: "?b = b\<lparr>bk_connSem := bk_connSem b + 1, bk_totalConns := bk_totalConns b + 1, bk_nextConn := Suc ?c,
      bk_conn := (bk_conn b)(?c := ?new)\<rparr>"
    using True by (simp add: acceptConn_def Let_def)
  have "{c. cl_slot (bk_conn ?b c)} = insert ?c {c. cl_slot (bk_conn b c)}"
    by (auto simp: b)
  then have "wf_slots ?b"
    using assms True old(1) unfolding wf_broker_def wf_slots_def by (auto simp: b less_Suc_eq)
  moreover have "wf_conn ?b c" for c
    using assms unfolding wf_broker_def wf_conn_def
    by (auto simp: b newClient_def blank_client_def needs_session_def queue_ok_def less_Suc_eq)
  moreover have "c \<noteq> ?c" if "map_of (bk_clients b) cid = Some c" for c cid
    using assms old(2) that unfolding wf_broker_def by metis
  ultimately show ?thesis
    using assms unfolding wf_broker_def good_step_def by (auto simp: b)
next
  case False
  with assms show ?thesis
    by (auto simp: acceptConn_def inv_empty intro: good_stepI)
qed

lemma inv_ws_acceptConn: "wf_broker b \<Longrightarrow> good_step b (ws_acceptConn remoteAddr b)"
  using inv_acceptConn [of b remoteAddr None] by (simp add: ws_acceptConn_def good_step_def)

lemma inv_stop: "binv N S b \<Longrightarrow> binv N S (upd_client c (\<lambda>cl. cl\<lparr>cl_running := False\<rparr>) b)"
  by (intro inv_upd_client) (auto simp: needs_session_def inv_queue_ok)

lemma inv_writeLoop: "binv N S b \<Longrightarrow> binv N S (writeLoop_write written c b)"
  unfolding writeLoop_write_def
  using inv_queue_ok [of N S b c]
  by (auto split: list.split option.split simp: needs_session_def queue_ok_def intro!: inv_upd_client)

lemma inv_release:
  assumes "wf_broker b" "cl_slot (bk_conn b c)"
  shows "wf_broker (upd_client c (\<lambda>cl. cl\<lparr>cl_slot := False\<rparr>) (b\<lparr>bk_connSem := bk_connSem b - Suc 0\<rparr>))"
    (is "wf_broker ?b")
proof -
  have "{d. cl_slot (bk_conn ?b d)} = {d. cl_slot (bk_conn b d)} - {c}"
    by (auto simp: upd_client_def)
  moreover have "card ({d. cl_slot (bk_conn b d)} - {c}) = bk_connSem b - 1"
    using assms by (simp add: wf_broker_def wf_slots_def)
  ultimately have "wf_slots ?b"
    using assms(1) unfolding wf_broker_def wf_slots_def by (auto simp: upd_client_def)
  moreover have "wf_conn ?b d" for d
    using assms(1) unfolding wf_broker_def wf_conn_def by (auto simp: upd_client_def needs_session_def)
  ultimately show ?thesis
    using assms(1) unfolding wf_broker_def by (auto simp: upd_client_def)
qed

text \<open>The cleanup leaves the slots alone.\<close>

lemma slot_on_session [safe]: "keeps (\<lambda>b. cl_slot (bk_conn b d) = y) (on_session c f)"
  by (auto simp: avoids_def wp_cases on_session_def put_session_def split: option.split prod.split)

lemma slot_router_publish [safe]: "keeps (\<lambda>b. cl_slot (bk_conn b d) = y) (router_publish now topic payload qos retain)"
proof (rule avoidsI)
  fix b
  have "cl_slot (bk_conn (background (snd (router_publish now topic payload qos retain b))) d) = cl_slot (bk_conn b d)"
    unfolding router_publish_background by simp
  then show "cl_slot (bk_conn b d) = y \<Longrightarrow> wp (router_publish now topic payload qos retain)
      (\<lambda>_ b. cl_slot (bk_conn b d) = y) (\<lambda>e b. cl_slot (bk_conn b d) = y \<and> e \<notin> {}) b"
    by (auto simp: wp_cases split: sum.split)
qed

lemma slot_cleanup: "keeps (\<lambda>b. cl_slot (bk_conn b d) = y) (cleanup now c)"
  unfolding cleanup_def close_session_def upd_session_def the_session_def
  by (intro safe)
    (auto simp: upd_client_def spawn_def unregister_def bk_count_def PurgePersistentSession_def upd_router_def Let_def)

lemma inv_exit:
  assumes "wf_broker b" "\<not> cl_running (bk_conn b c)" "cl_slot (bk_conn b c)"
  shows "good_step b (snd (run_exit now c b)) \<and> fst (run_exit now c b) \<noteq> Inl NilPointer"
proof -
  have "cl_slot (bk_conn (snd (cleanup now c b)) c)"
    using avoidsD [OF slot_cleanup [of c True]] assms(3) by auto
  moreover have "wp (cleanup now c) (\<lambda>_. binv (fixed b) {}) (\<lambda>e s. binv (fixed b) {} s \<and> e \<notin> {NilPointer}) b"
    using assms by (intro avoids_cleanup) (simp_all add: inv_empty)
  ultimately show ?thesis
    by (auto simp: run_exit_def wp_cases good_step_def binv_def fixed_def thenM_def bindM_def modify_def
        split: prod.splits sum.splits intro!: inv_release)
qed

lemma inv_sweep: "binv N S b \<Longrightarrow> binv N S (sweep_sessions now b)"
proof -
  have "binv N S b \<Longrightarrow> binv N S (fold (\<lambda>a b. case st_heap (bk_sessions b) a of
      Some s \<Rightarrow> if ShouldExpireDisconnected now s then PurgePersistentSession (ss_ClientID s) b else b
    | None \<Rightarrow> b) as b)" for as
    by (induction as arbitrary: b) (auto simp: inv_Purge split: option.split)
  then show "binv N S b \<Longrightarrow> binv N S (sweep_sessions now b)"
    by (simp add: sweep_sessions_def)
qed

lemma wf_fold_Subscribe: "wf_router r \<Longrightarrow> wf_router (fold (\<lambda>s. Subscribe (f s) (g s)) ss r)"
  by (induction ss arbitrary: r) (simp_all add: wf_Subscribe)

lemma wf_fold_SetRetained: "wf_router r \<Longrightarrow> wf_router (fold (\<lambda>s. SetRetained (f s)) ss r)"
  by (induction ss arbitrary: r) (simp_all add: wf_SetRetained)

lemma inv_restoreSession: "binv N S b \<Longrightarrow> binv N S (restoreSession records c b)"
  by (auto simp: restoreSession_def wf_fold_Subscribe split: option.split intro: inv_upd_router)

lemma inv_loadRetained: "binv N S b \<Longrightarrow> binv N S (loadRetained records b)"
  by (auto simp: loadRetained_def wf_fold_SetRetained split: option.split intro: inv_upd_router)

lemma avoids_go_published [safe]: "avoids (binv N S) {NilPointer} (go_published now c topic pkt)"
  unfolding go_published_def by (intro safe) auto

lemma avoids_drain [safe]: "avoids (binv N S) {NilPointer} (drainOfflineQueue c)"
  unfolding drainOfflineQueue_def
proof (rule avoids_bind_gets)
  fix b assume b: "binv N S b"
  show "wp (case cl_sess (bk_conn b c) of None \<Rightarrow> ret ()
      | Some _ \<Rightarrow> bindM (on_session c DrainQueue) (\<lambda>msgs. modify (spawn (GoDeliver c msgs))))
      (\<lambda>_. binv N S) (\<lambda>e s. binv N S s \<and> e \<notin> {NilPointer}) b"
  proof (cases "cl_sess (bk_conn b c)")
    case (Some a)
    then have "binv N (insert c S) b"
      using b by (simp add: inv_insert)
    then show ?thesis
      unfolding Some option.case
      by (intro avoids_weaken [where P' = "binv N (insert c S)"] safe insertI1) (auto simp: inv_insert)
  qed (use b in simp)
qed

lemma avoids_deliver_queued [safe]: "avoids (binv N S) {NilPointer} (deliver_queued now c msgs)"
  unfolding deliver_queued_def by (cases msgs) (auto intro!: safe)

lemma avoids_run_task [safe]: "avoids (binv N S) {NilPointer} (run_task getSubs now t)"
  unfolding run_task_def by (cases t) (auto intro!: safe inv_restoreSession)

lemma avoids_loops [safe]:
  "avoids (binv N S) {NilPointer} (publishSys clientCount msgRate now)"
  "avoids (binv N S) {NilPointer} (clusterLoop_msg now msg)"
  "avoids (binv N S) {NilPointer} (apiPublishLoop_msg now amsg)"
  unfolding publishSys_def clusterLoop_msg_def apiPublishLoop_msg_def by (intro safe)+

text \<open>Every step preserves the invariant, so it holds in every reachable state.\<close>

lemma inv_run_task:
  assumes "wf_broker b"
  shows "good_step b (snd (run_task getSubs now t b)) \<and> fst (run_task getSubs now t b) \<noteq> Inl NilPointer"
proof -
  have b: "binv (fixed b) {} b"
    using assms by (simp add: inv_empty)
  then show ?thesis
    using avoidsD [OF avoids_run_task b] avoids_error [OF avoids_run_task b] by (auto intro: good_stepI)
qed

lemma inv_frame:
  assumes "wf_broker b" "cl_running (bk_conn b c)"
  shows "good_step b (stop_reading c (readLoop_frame ex t0 now c fh body b))
    \<and> fst (readLoop_frame ex t0 now c fh body b) \<noteq> Inl NilPointer"
proof -
  have "wp (readLoop_frame ex t0 now c fh body) (\<lambda>_. binv (fixed b) {})
      (\<lambda>e s. binv (fixed b) {} s \<and> e \<notin> {NilPointer}) b"
    using assms by (intro avoids_readLoop_frame) (simp_all add: inv_empty)
  then show ?thesis
    by (auto simp: wp_cases stop_reading_def split: sum.splits intro!: good_stepI inv_stop)
qed

lemma inv_ForceDisconnect:
  assumes "wf_broker b" "GetClient clientID b = Some c"
  shows "good_step b (snd (ForceDisconnect c b)) \<and> fst (ForceDisconnect c b) \<noteq> Inl NilPointer"
proof -
  have b: "binv (fixed b) {c} b"
    using assms by (auto simp: inv_empty GetClient_def intro: inv_registered)
  have "binv (fixed b) {c} (snd (ForceDisconnect c b))"
    by (rule avoidsD [OF avoids_ForceDisconnect b]) simp
  then show ?thesis
    using avoids_error [OF avoids_ForceDisconnect b] by (auto simp: inv_insert intro: good_stepI)
qed

lemma step_good:
  assumes "step ex b b'" "wf_broker b"
  shows "good_step b b'"
proof -
  have b: "binv (fixed b) {} b"
    using assms(2) by (simp add: inv_empty)
  show ?thesis
    using assms(1)
  proof (cases rule: step.cases)
    case (task i getSubs now)
    let ?b = "b\<lparr>bk_tasks := take i (bk_tasks b) @ drop (Suc i) (bk_tasks b)\<rparr>"
    have "wf_broker ?b"
      using b by (simp add: inv_wf)
    then have "good_step ?b b'"
      unfolding task(1) using inv_run_task by blast
    then show ?thesis
      by (simp add: good_step_def)
  qed (use assms(2) b in \<open>auto simp: inv_frame inv_exit inv_acceptConn inv_ws_acceptConn inv_ForceDisconnect maintenance_def sync_partitions_def
    intro!: good_stepI intro: inv_stop inv_writeLoop inv_sweep inv_loadRetained
      avoidsD [OF avoids_loops(1)] avoidsD [OF avoids_loops(2)] avoidsD [OF avoids_loops(3)]\<close>)
qed

lemma reachable_good:
  "(step ex)\<^sup>*\<^sup>* (Broker_New hashpw uuid now cfg) b \<Longrightarrow> wf_broker b \<and> bk_cfg b = cfg"
proof (induction rule: rtranclp_induct)
  case base
  show ?case
    by (simp add: wf_Broker_New) (simp add: Broker_New_def Let_def)
next
  case (step b b')
  with step_good [OF step.hyps(2)] show ?case
    by (simp add: good_step_def)
qed

section \<open>A broker with one connection\<close>

text \<open>The broker of the default configuration after it accepted its first connection.\<close>

definition default_broker :: Broker where
  "default_broker = Broker_New (\<lambda>_ _. Inr ''hash'') ''node-1'' 0 default_config"

definition one_connection :: Broker where
  "one_connection = acceptConn ''10.0.0.1'' None default_broker"

lemma default_broker_sel [simp]:
  "bk_connSem default_broker = 0" "bk_cfg default_broker = default_config" "bk_nextConn default_broker = 0"
  "bk_clients default_broker = []" "bk_sessions default_broker = NewStore" "bk_plugins default_broker = PluginManager_New"
  "bk_router default_broker = Router_New" "bk_tasks default_broker = []" "bk_conn default_broker = (\<lambda>_. blank_client)"
  by (simp_all add: default_broker_def Broker_New_def Let_def)

lemma one_connection_eq:
  "one_connection = default_broker\<lparr>bk_connSem := 1, bk_totalConns := bk_totalConns default_broker + 1, bk_nextConn := 1,
     bk_conn := (\<lambda>_. blank_client)(0 := (newClient ''10.0.0.1'' None)\<lparr>cl_running := True, cl_writing := True, cl_slot := True\<rparr>)\<rparr>"
  by (simp add: one_connection_def acceptConn_def)

lemma one_connection_sel [simp]:
  "bk_nextConn one_connection = 1" "bk_cfg one_connection = default_config" "bk_sessions one_connection = NewStore"
  "bk_router one_connection = Router_New" "bk_clients one_connection = []"
  by (simp_all add: one_connection_eq)

lemma wf_one_connection: "wf_broker one_connection"
  using inv_acceptConn [OF wf_Broker_New] by (simp add: one_connection_def default_broker_def good_step_def)

text \<open>The same broker once the connection is that of a client with a clean session.\<close>

definition one_client :: Broker where
  "one_client = (upd_client 0 (\<lambda>cl. cl\<lparr>cl_clientID := ''a'', cl_version := V311, cl_state := stateConnected, cl_sess := Some 0\<rparr>)
     one_connection)\<lparr>bk_clients := [(''a'', 0)],
       bk_sessions := \<lparr>st_data = [(''a'', 0)], st_heap = [0 \<mapsto> Session_New 0 ''a'' True], st_next = 1\<rparr>\<rparr>"

lemma one_client_sel [simp]:
  "session_of 0 one_client = Some (Session_New 0 ''a'' True)" "cl_version (bk_conn one_client 0) = V311"
  "cl_clientID (bk_conn one_client 0) = ''a''" "bk_router one_client = Router_New" "bk_cfg one_client = default_config"
  "bk_plugins one_client = PluginManager_New" "bk_authn one_client = bk_authn default_broker"
  by (simp_all add: one_client_def session_of_def) (simp_all add: one_connection_eq)

lemma one_client_conn:
  "cl_sess (bk_conn one_client c) = (if c = 0 then Some 0 else None)" "cl_writeQ (bk_conn one_client c) = []"
  "cl_state (bk_conn one_client c) = (if c = 0 then stateConnected else stateHandshaking)"
  "cl_slot (bk_conn one_client c) \<longleftrightarrow> c = 0" "cl_running (bk_conn one_client c) \<longleftrightarrow> c = 0"
  "bk_connSem one_client = 1" "bk_nextConn one_client = 1"
  "bk_sessions one_client = \<lparr>st_data = [(''a'', 0)], st_heap = [0 \<mapsto> Session_New 0 ''a'' True], st_next = 1\<rparr>"
  "bk_clients one_client = [(''a'', 0)]"
  by (simp_all add: one_client_def one_connection_eq newClient_def blank_client_def)

lemma wf_one_client: "wf_broker one_client"
proof -
  have "wf_slots one_client"
    by (simp add: wf_slots_def one_client_conn)
  moreover have "wf_conn one_client c" for c
    by (cases "c = 0") (simp_all add: wf_conn_def one_client_conn needs_session_def queue_ok_def)
  moreover have "wf_map [(''a'', 0 :: addr)]"
    by (simp add: wf_map_def)
  then have "wf_store (bk_sessions one_client)" "wf_map (bk_clients one_client)"
    by (simp_all add: wf_store_def one_client_conn)
  ultimately show ?thesis
    by (simp add: wf_broker_def one_client_conn)
qed

lemma default_authn_acl [simp]: "aclRules (bk_authn default_broker) = loadDefaultACL"
  by (simp add: default_broker_def Broker_New_def Let_def AddUser_def SetRevokedSerials_def Authenticator_New_def)

lemma default_plugins [simp]:
  "OnClientConnect cid u PluginManager_New = None" "OnSubscribe cid flt qos PluginManager_New = None"
  "OnPublish cid topic payload qos retain PluginManager_New = None"
  by (simp_all add: OnClientConnect_def OnSubscribe_def OnPublish_def PluginManager_New_def plugin_call_def noopHook_def)

section \<open>Properties\<close>

text \<open>
  C4: whatever packets, timers, tasks, cluster and API messages arrive in whatever order, the broker never has
  more connections than configured, a write queue never exceeds its capacity, the registry and the session
  store have no dangling pointers, the subscription tries stay well formed, and no handler, task or
  administrative disconnect calls a method of a missing session.
\<close>

theorem broker_safe:
  assumes "(step ex)\<^sup>*\<^sup>* (Broker_New hashpw uuid start cfg) b"
  shows "int (card {c. cl_slot (bk_conn b c)}) \<le> max 0 (bc_MaxConnections (cf_Broker cfg))
    \<and> (\<forall>c. int (length (cl_writeQ (bk_conn b c))) \<le> max 0 (bc_WriteQueueSize (cf_Broker cfg)))
    \<and> (\<forall>cid c. GetClient cid b = Some c \<longrightarrow> session_of c b \<noteq> None)
    \<and> (\<forall>cid a. Store_Get cid (bk_sessions b) = Some a \<longrightarrow> map_option ss_ClientID (st_heap (bk_sessions b) a) = Some cid)
    \<and> wf_router (bk_router b)
    \<and> (\<forall>c t0 now fh body. cl_running (bk_conn b c) \<longrightarrow> fst (readLoop_frame ex t0 now c fh body b) \<noteq> Inl NilPointer)
    \<and> (\<forall>c now. \<not> cl_running (bk_conn b c) \<longrightarrow> cl_slot (bk_conn b c) \<longrightarrow> fst (run_exit now c b) \<noteq> Inl NilPointer)
    \<and> (\<forall>t getSubs now. fst (run_task getSubs now t b) \<noteq> Inl NilPointer)
    \<and> (\<forall>cid c. GetClient cid b = Some c \<longrightarrow> fst (ForceDisconnect c b) \<noteq> Inl NilPointer)"
proof -
  have wf: "wf_broker b" and cfg: "bk_cfg b = cfg"
    using reachable_good [OF assms] by simp_all
  have "session_of c b \<noteq> None" if "GetClient cid b = Some c" for cid c
  proof -
    have "binv (fixed b) {c} b"
      using wf that by (auto simp: inv_empty GetClient_def intro: inv_registered)
    then show ?thesis
      by (rule inv_session) auto
  qed
  moreover have "map_option ss_ClientID (st_heap (bk_sessions b) a) = Some cid" if "Store_Get cid (bk_sessions b) = Some a" for cid a
    using wf that wf_store_client [of "bk_sessions b" cid a] by (auto simp: wf_broker_def Store_Get_def)
  moreover have "int (card {c. cl_slot (bk_conn b c)}) \<le> max 0 (bc_MaxConnections (cf_Broker cfg))" "wf_router (bk_router b)"
    using wf cfg by (simp_all add: wf_broker_def wf_slots_def)
  moreover have "int (length (cl_writeQ (bk_conn b c))) \<le> max 0 (bc_WriteQueueSize (cf_Broker cfg))" for c
    using wf cfg by (simp add: wf_broker_def wf_conn_def queue_ok_def)
  ultimately show ?thesis
    using inv_frame [OF wf] inv_exit [OF wf] inv_run_task [OF wf] inv_ForceDisconnect [OF wf] by simp
qed

theorem broker_safe_witness:
  "\<forall>ex t0 now fh body. {c. cl_slot (bk_conn one_connection c)} = {0}
    \<and> int (card {c. cl_slot (bk_conn one_connection c)}) \<le> 50000
    \<and> fst (readLoop_frame ex t0 now 0 fh body one_connection) \<noteq> Inl NilPointer"
proof (intro allI)
  fix ex t0 now fh body
  have "(step ex)\<^sup>*\<^sup>* default_broker one_connection"
    unfolding one_connection_def by (rule r_into_rtranclp, rule step.accept)
  note safe = broker_safe [OF this [unfolded default_broker_def]]
  have "{c. cl_slot (bk_conn one_connection c)} = {0}" "cl_running (bk_conn one_connection 0)"
    by (auto simp: one_connection_eq blank_client_def)
  with safe show "{c. cl_slot (bk_conn one_connection c)} = {0}
    \<and> int (card {c. cl_slot (bk_conn one_connection c)}) \<le> 50000
    \<and> fst (readLoop_frame ex t0 now 0 fh body one_connection) \<noteq> Inl NilPointer"
    by simp
qed

end
