(* ===== verification/Handlers.thy ===== *)
theory Handlers
  imports Server
begin

text \<open>
  What the handlers of a connection do: QoS 2 publications are routed exactly once, a publication is routed
  exactly if it is authorised, and a subscription takes effect exactly if it is granted.
\<close>

section \<open>Running the handlers\<close>

lemma bind_run:
  "bindM m k s = (case fst (m s) of Inl e \<Rightarrow> (Inl e, snd (m s)) | Inr x \<Rightarrow> k x (snd (m s)))"
  by (simp add: bindM_def split: prod.split sum.split)

lemma then_run:
  "thenM m k s = (case fst (m s) of Inl e \<Rightarrow> (Inl e, snd (m s)) | Inr x \<Rightarrow> k (snd (m s)))"
  by (simp add: thenM_def bind_run)

lemma snd_then_background:
  "(\<And>x. keeps (\<lambda>b. background b = x) k) \<Longrightarrow> background (snd (thenM m k b)) = background (snd (m b))"
  by (simp add: then_run keeps_view [of background k] split: sum.split)

lemma run_simps [simp]:
  "ret x s = (Inr x, s)" "throw e s = (Inl e, s)" "gets f s = (Inr (f s), s)" "modify g s = (Inr (), g s)"
  by (simp_all add: ret_def throw_def gets_def modify_def)

lemma on_session_run:
  "session_of c b = Some s \<Longrightarrow> on_session c f b = (Inr (snd (f s)), put_session c (fst (f s)) b)"
  by (simp add: on_session_def split: prod.split)

lemma session_of_put [simp]: "session_of c b = Some s \<Longrightarrow> session_of c (put_session c s' b) = Some s'"
  by (auto simp: session_of_def put_session_def split: bind_splits)

lemma session_of_unaffected [simp]:
  "session_of c (b\<lparr>bk_router := r\<rparr>) = session_of c b" "session_of c (upd_router g b) = session_of c b"
  "session_of c (bk_count cs b) = session_of c b" "session_of c (spawn t b) = session_of c b"
  "session_of c (enqueue d data b) = session_of c b" "session_of c (unregister cid b) = session_of c b"
  by (simp_all add: session_of_def upd_router_def bk_count_def spawn_def enqueue_def upd_client_def unregister_def)

lemma put_session_same [simp]: "session_of c b = Some s \<Longrightarrow> put_session c s b = b"
  by (auto simp: session_of_def put_session_def fun_upd_idem split: bind_splits)

lemma encode_ack_total: "\<exists>frame. encode_ack version t pid = Inr frame"
  by (simp add: encode_ack_def EncodeAckV5_eq)

lemma enqueuePubAck_run:
  "enqueuePubAck c t pid b = (Inr (), enqueue c (projr (encode_ack (cl_version (bk_conn b c)) t pid)) b)"
  using encode_ack_total [of "cl_version (bk_conn b c)" t pid]
  by (auto simp: enqueuePubAck_def enqueue_enc_def bindM_def liftE_def)

text \<open>The session of a connection as the background shows it.\<close>

lemma session_of_background: "session_of c (background b) = map_option settled (session_of c b)"
  by (cases "cl_sess (bk_conn b c)") (simp_all add: session_of_def)

section \<open>QoS 2 publications\<close>

text \<open>
  The packets of one identifier, with the time at which they are handled, and what exactly-once delivery asks of them: the
  first PUBLISH is kept until the PUBREL, which routes it; anything else is a repetition without effect.
\<close>

datatype qos2_event = Pub time string PublishPacket | Rel time

fun qos2_run :: "addr \<Rightarrow> uint16 \<Rightarrow> qos2_event \<Rightarrow> unit act" where
  "qos2_run c pid (Pub now topic pkt) = accept_publish now c topic (pkt\<lparr>pp_QoS := QoS2, pp_PacketID := pid\<rparr>)"
| "qos2_run c pid (Rel now) = handlePubrel now c (put_uint16 pid)"

type_synonym pending = "(string \<times> bytes \<times> bool) option"

fun qos2_spec :: "qos2_event \<Rightarrow> pending \<times> Router \<Rightarrow> pending \<times> Router" where
  "qos2_spec (Pub now topic pkt) (None, r) = (Some (topic, pp_Payload pkt, pp_Retain pkt), r)"
| "qos2_spec (Pub now topic pkt) (Some m, r) = (Some m, r)"
| "qos2_spec (Rel now) (Some (topic, payload, retain), r) = (None, fst (Publish now topic payload QoS2 retain r))"
| "qos2_spec (Rel now) (None, r) = (None, r)"

definition qos2_state :: "addr \<Rightarrow> uint16 \<Rightarrow> Broker \<Rightarrow> pending \<times> Router" where
  "qos2_state c pid b =
     (map_option (\<lambda>m. (if_Topic m, if_Payload m, if_Retain m)) (Option.bind (session_of c b) (GetInFlight pid)), bk_router b)"

text \<open>An inbound message of the identifier is a QoS 2 message.\<close>

definition qos2_ok :: "addr \<Rightarrow> uint16 \<Rightarrow> Broker \<Rightarrow> bool" where
  "qos2_ok c pid b \<longleftrightarrow>
     (case session_of c b of None \<Rightarrow> False | Some s \<Rightarrow> pred_option (\<lambda>m. if_QoS m = QoS2) (GetInFlight pid s))"

lemma GetInFlight_settled [simp]: "GetInFlight pid (settled s) = GetInFlight pid s"
  by (simp add: GetInFlight_def settled_def)

lemma qos2_background:
  "qos2_state c pid (background b) = qos2_state c pid b" "qos2_ok c pid (background b) = qos2_ok c pid b"
  by (cases "session_of c b"; simp add: qos2_state_def qos2_ok_def session_of_background)+

lemma qos2_cong:
  assumes "background b = background b'"
  shows "qos2_state c pid b = qos2_state c pid b'" and "qos2_ok c pid b = qos2_ok c pid b'"
  using qos2_background [of c pid b] qos2_background [of c pid b'] assms by simp_all

lemma qos2_step:
  assumes "qos2_ok c pid b"
  shows "qos2_state c pid (snd (qos2_run c pid e b)) = qos2_spec e (qos2_state c pid b)
    \<and> qos2_ok c pid (snd (qos2_run c pid e b))"
proof -
  obtain s where s: "session_of c b = Some s" and q: "pred_option (\<lambda>m. if_QoS m = QoS2) (GetInFlight pid s)"
    using assms by (auto simp: qos2_ok_def split: option.splits)
  show ?thesis
  proof (cases e)
    case (Pub now topic pkt)
    define b' where "b' = (case GetInFlight pid s of None \<Rightarrow> put_session c (AddInFlight \<lparr>if_PacketID = pid, if_Topic = topic,
        if_Payload = pp_Payload pkt, if_QoS = QoS2, if_Retain = pp_Retain pkt,
        if_SentAt = Some now, if_Retries = 0, if_QoS2Phase = QoS2Published\<rparr> s) b | Some _ \<Rightarrow> b)"
    have run: "background (snd (qos2_run c pid e b)) = background b'"
      by (cases "GetInFlight pid s")
        (simp_all add: Pub accept_publish_def bind_run then_run the_session_def upd_session_def
          on_session_run s b'_def enqueuePubAck_run)
    show ?thesis
      unfolding qos2_cong [OF run] using s q
      by (cases "GetInFlight pid s")
        (simp_all add: Pub b'_def qos2_state_def qos2_ok_def, simp_all add: GetInFlight_def AddInFlight_def)
  next
    case (Rel now)
    define b' where "b' = put_session c (fst (AckInFlight pid s)) b"
    have s': "session_of c b' = Some (fst (AckInFlight pid s))" and n: "GetInFlight pid (fst (AckInFlight pid s)) = None"
      using s by (simp_all add: b'_def) (simp add: GetInFlight_def AckInFlight_def)
    have a: "snd (AckInFlight pid s) = GetInFlight pid s"
      by (simp add: AckInFlight_def GetInFlight_def)
    have d: "DecodePacketID (put_uint16 pid) = Inr pid"
      using DecodePacketID_put_uint16 [of pid "[]"] by simp
    have run: "background (snd (qos2_run c pid e b)) = background (case GetInFlight pid s of
        None \<Rightarrow> b' | Some m \<Rightarrow> snd (router_publish now (if_Topic m) (if_Payload m) (if_QoS m) (if_Retain m) b'))"
      by (auto simp: Rel handlePubrel_def d liftE_def bind_run then_run on_session_run s a b'_def enqueuePubAck_run
          split: option.split sum.split)
    show ?thesis
    proof (cases "GetInFlight pid s")
      case None
      with qos2_cong [OF run] s s' n show ?thesis
        by (simp add: Rel qos2_state_def qos2_ok_def b'_def)
    next
      case (Some m)
      then have "background (snd (qos2_run c pid e b)) =
          background (b'\<lparr>bk_router := fst (Publish now (if_Topic m) (if_Payload m) QoS2 (if_Retain m) (bk_router b))\<rparr>)"
        using run q by (simp add: router_publish_background b'_def)
      from qos2_cong [OF this] Some s s' n show ?thesis
        by (simp add: Rel qos2_state_def qos2_ok_def)
    qed
  qed
qed

lemma qos2_steps:
  "qos2_ok c pid b \<Longrightarrow>
     qos2_state c pid (fold (\<lambda>e b. snd (qos2_run c pid e b)) es b) = fold qos2_spec es (qos2_state c pid b)"
  by (induction es arbitrary: b) (simp_all add: qos2_step)

section \<open>PUBLISH\<close>

definition publish_allowed :: "time \<Rightarrow> string \<Rightarrow> string \<Rightarrow> PublishPacket \<Rightarrow> Broker \<Rightarrow> bool" where
  "publish_allowed now clientID topic pkt b \<longleftrightarrow>
     (pp_MessageExpiryInterval pkt = 0
        \<or> now - pp_ReceivedAt pkt \<le> int (unat (pp_MessageExpiryInterval pkt)) * time_Second)
     \<and> CanPublish clientID topic (bk_authn b)
     \<and> OnPublish clientID topic (pp_Payload pkt) (pp_QoS pkt) (pp_Retain pkt) (bk_plugins b) = None"

lemma accept_publish_router:
  "bk_router (snd (accept_publish now c topic pkt b)) =
     (if pp_QoS pkt < QoS2 then fst (Publish now topic (pp_Payload pkt) (pp_QoS pkt) (pp_Retain pkt) (bk_router b))
      else bk_router b)"
proof -
  have p: "bk_router (snd (router_publish now topic (pp_Payload pkt) (pp_QoS pkt) (pp_Retain pkt) b))
      = fst (Publish now topic (pp_Payload pkt) (pp_QoS pkt) (pp_Retain pkt) (bk_router b))"
    by (rule router_publish_router)
  consider "pp_QoS pkt = QoS0" | "pp_QoS pkt = QoS1" | "pp_QoS pkt = QoS2" | "pp_QoS pkt > QoS2"
    by (cases "pp_QoS pkt \<le> QoS2") (auto intro: qos_cases)
  then show ?thesis
  proof cases
    case 3
    then show ?thesis
      by (simp add: accept_publish_def bind_run then_run the_session_def upd_session_def on_session_def enqueuePubAck_run
          split: option.split sum.split prod.split)
  qed (use p in \<open>auto simp: accept_publish_def then_run enqueuePubAck_run split: sum.split\<close>)
qed

lemma publish_resolved_effect:
  "bk_router (snd (publish_resolved t0 now c clientID topic pkt b)) =
     (if publish_allowed now clientID topic pkt b \<and> pp_QoS pkt < QoS2
      then fst (Publish now topic (pp_Payload pkt) (pp_QoS pkt) (pp_Retain pkt) (bk_router b)) else bk_router b)
   \<and> (publish_allowed now clientID topic pkt b
      \<or> background (snd (publish_resolved t0 now c clientID topic pkt b)) = background b)"
proof -
  consider (expired) "pp_MessageExpiryInterval pkt > 0"
        "now - pp_ReceivedAt pkt > int (unat (pp_MessageExpiryInterval pkt)) * time_Second"
    | (live) "\<not> (pp_MessageExpiryInterval pkt > 0
        \<and> now - pp_ReceivedAt pkt > int (unat (pp_MessageExpiryInterval pkt)) * time_Second)"
    by blast
  then show ?thesis
  proof cases
    case expired
    then show ?thesis
      by (auto simp: publish_resolved_def publish_allowed_def)
  next
    case live
    then have "publish_allowed now clientID topic pkt b \<longleftrightarrow> CanPublish clientID topic (bk_authn b)
        \<and> OnPublish clientID topic (pp_Payload pkt) (pp_QoS pkt) (pp_Retain pkt) (bk_plugins b) = None"
      by (auto simp: publish_allowed_def word_gt_0)
    with live show ?thesis
      by (auto simp: publish_resolved_def bind_run then_run accept_publish_router enqueuePubAck_run split: sum.split option.split)
  qed
qed

lemma handlePublish_run:
  assumes "DecodePublish t0 (cl_version (bk_conn b c)) fh body = Inr pkt"
    and "resolvePublishTopic pkt (bk_conn b c) = Inr (topic, cl')"
  shows "handlePublish t0 now c fh body b
    = publish_resolved t0 now c (cl_clientID (bk_conn b c)) topic pkt (upd_client c (\<lambda>_. cl') b)"
  using assms by (simp add: handlePublish_def bind_run then_run liftE_def)

section \<open>SUBSCRIBE\<close>

text \<open>A decoded packet has room for its subscriptions, so that the answer fits in a frame.\<close>

lemma skipProps_loop_rest:
  "skipProps_loop i mult v r = Inr (v', r') \<Longrightarrow> sr_data r' = sr_data r \<and> sr_pos r \<le> sr_pos r'"
proof (induction "4 - i" arbitrary: i mult v r)
  case 0
  then show ?case
    by (simp add: skipProps_loop.simps)
next
  case (Suc n)
  from Suc.prems Suc.hyps(2) show ?case
    by (subst (asm) skipProps_loop.simps)
      (auto simp: Let_def bindE_eq_Inr sliceReader_Read_eq advance_def split: if_splits dest!: Suc.hyps(1) [rotated])
qed

lemma skipProps_rest: "skipProps r = Inr r' \<Longrightarrow> length (rest r') \<le> length (rest r)"
  by (auto simp: skipProps_def bindE_eq_Inr rest_def Let_def split: if_splits dest!: skipProps_loop_rest)

lemma DecodeSubscribe_loop_length:
  "DecodeSubscribe_loop ss r = Inr ss' \<Longrightarrow> 3 * length ss' \<le> 3 * length ss + length (rest r)"
proof (induction "length (rest r)" arbitrary: ss r rule: less_induct)
  case less
  from less.prems show ?case
    by (subst (asm) DecodeSubscribe_loop.simps)
      (auto simp: bindE_eq_Inr io_ReadFull_Inr split: if_splits dest!: readString_Inr less.hyps [rotated])
qed

lemma DecodeSubscribe_length:
  "DecodeSubscribe version body = Inr (pid, ss) \<Longrightarrow> 0 < length ss \<and> 2 + 3 * length ss \<le> length body"
  by (auto simp: DecodeSubscribe_def bindE_eq_Inr readUint16_Inr split: if_splits
      dest!: DecodeSubscribe_loop_length skipProps_rest)

text \<open>
  The checks read parts of the broker that no subscription changes, so the subscriptions of a packet are
  decided independently of each other.
\<close>

definition subscription :: "addr \<Rightarrow> Broker \<Rightarrow> Subscription \<Rightarrow> Subscriber" where
  "subscription c b sub =
     \<lparr>ClientID = cl_clientID (bk_conn b c), QoS = grantedQoS (bk_cfg b) sub, Deliver = Some c\<rparr>"

definition granted :: "addr \<Rightarrow> Broker \<Rightarrow> Subscription \<Rightarrow> bool" where
  "granted c b sub \<longleftrightarrow> subscribe_deny (cl_clientID (bk_conn b c)) sub b = SubackOK"

definition suback_code :: "addr \<Rightarrow> Broker \<Rightarrow> Subscription \<Rightarrow> byte" where
  "suback_code c b sub = SubackReasonByte (cl_version (bk_conn b c)) (grantedQoS (bk_cfg b) sub)
     (subscribe_deny (cl_clientID (bk_conn b c)) sub b)"

text \<open>The state in which a packet leaves the broker, the answer apart.\<close>

definition subscribed :: "addr \<Rightarrow> Subscription list \<Rightarrow> Broker \<Rightarrow> Broker \<Rightarrow> bool" where
  "subscribed c ss b b' \<longleftrightarrow>
     bk_router b' = fold (\<lambda>sub. Subscribe (sb_Filter sub) (subscription c b sub)) (filter (granted c b) ss) (bk_router b)
     \<and> (\<exists>ts. bk_tasks b' = bk_tasks b @ ts) \<and> b' = b\<lparr>bk_router := bk_router b', bk_tasks := bk_tasks b'\<rparr>"

lemma subscribed_same:
  assumes "subscribed c ss b b'"
  shows "bk_conn b' = bk_conn b" "bk_cfg b' = bk_cfg b" "bk_authn b' = bk_authn b" "bk_plugins b' = bk_plugins b"
    "session_of c b' = session_of c b"
  using assms by (auto simp: subscribed_def session_of_def)

lemma subscribe_one_run:
  assumes "session_of c b = Some s"
  obtains b' where "subscribe_one c sub b = (Inr (suback_code c b sub), b')" "subscribed c [sub] b b'"
proof (cases "granted c b sub")
  case True
  let ?s = "subscription c b sub" and ?cid = "cl_clientID (bk_conn b c)"
  define b' where "b' = spawn (GoSendRetained (sb_Filter sub) ?s)
      ((if ss_CleanSession s then id else spawn (GoSaveSub ?cid (sb_Filter sub) (grantedQoS (bk_cfg b) sub)))
        (upd_router (Subscribe (sb_Filter sub) ?s) b))"
  have "subscribe_one c sub b = (Inr (suback_code c b sub), b')"
    using True assms
    by (simp add: subscribe_one_def Let_def granted_def subscription_def suback_code_def bind_run then_run the_session_def
        on_session_run b'_def)
  moreover have "subscribed c [sub] b b'"
    using True by (simp add: subscribed_def b'_def) (simp add: spawn_def upd_router_def)
  ultimately show ?thesis
    by (rule that)
next
  case False
  have "subscribe_one c sub b = (Inr (suback_code c b sub), b)"
    using False by (simp add: subscribe_one_def Let_def granted_def suback_code_def bind_run)
  moreover have "subscribed c [sub] b b"
    using False by (simp add: subscribed_def)
  ultimately show ?thesis
    by (rule that)
qed

lemma subscribed_local:
  assumes "subscribed c ss b b'"
  shows "subscription c b' = subscription c b" "granted c b' = granted c b" "suback_code c b' = suback_code c b"
  using subscribed_same [OF assms]
  by (simp_all add: fun_eq_iff subscription_def granted_def suback_code_def subscribe_deny_def)

lemma subscribed_trans:
  assumes "subscribed c ss b b'" "subscribed c ss' b' b''"
  shows "subscribed c (ss @ ss') b b''"
proof -
  have "b' = b\<lparr>bk_router := bk_router b', bk_tasks := bk_tasks b'\<rparr>"
      "b'' = b'\<lparr>bk_router := bk_router b'', bk_tasks := bk_tasks b''\<rparr>"
    using assms unfolding subscribed_def by blast+
  then have "b'' = b\<lparr>bk_router := bk_router b'', bk_tasks := bk_tasks b''\<rparr>"
    by (cases b; cases b'; cases b'') simp
  moreover have "\<exists>ts. bk_tasks b'' = bk_tasks b @ ts"
    using assms by (auto simp: subscribed_def)
  moreover have "bk_router b'' = fold (\<lambda>sub. Subscribe (sb_Filter sub) (subscription c b sub))
      (filter (granted c b) (ss @ ss')) (bk_router b)"
    using assms subscribed_local [OF assms(1)] by (simp add: subscribed_def)
  ultimately show ?thesis
    unfolding subscribed_def by blast
qed

lemma subscribe_all_run:
  assumes "session_of c b = Some s"
  shows "\<exists>b'. mapM (subscribe_one c) ss b = (Inr (map (suback_code c b) ss), b') \<and> subscribed c ss b b'"
  using assms
proof (induction ss arbitrary: b)
  case Nil
  show ?case
    by (simp add: subscribed_def)
next
  case (Cons sub ss)
  obtain b1 where b1: "subscribe_one c sub b = (Inr (suback_code c b sub), b1)" "subscribed c [sub] b b1"
    using Cons.prems by (rule subscribe_one_run)
  have "session_of c b1 = Some s"
    using subscribed_same(5) [OF b1(2)] Cons.prems by simp
  then obtain b2 where "mapM (subscribe_one c) ss b1 = (Inr (map (suback_code c b1) ss), b2)" "subscribed c ss b1 b2"
    using Cons.IH by blast
  with b1 subscribed_trans [OF b1(2)] subscribed_local [OF b1(2)] show ?case
    by (auto simp: bind_run)
qed

text \<open>The subscriptions of a client after a packet: the last granted one for each filter, and the old ones.\<close>

lemma lookup_fold_Subscribe:
  assumes "wf_router r" "\<And>x. x \<in> set xs \<Longrightarrow> ClientID (f x) = cid"
  shows "router_lookup (fold (\<lambda>x. Subscribe (sb_Filter x) (f x)) xs r) flt d =
    (let ys = filter (\<lambda>x. sb_Filter x = flt) xs
     in if d = cid \<and> ys \<noteq> [] then Some (f (last ys)) else router_lookup r flt d)"
  using assms
proof (induction xs rule: rev_induct)
  case (snoc x xs)
  have "wf_router (fold (\<lambda>x. Subscribe (sb_Filter x) (f x)) xs r)"
    using snoc.prems(1) by (induction xs arbitrary: r) (simp_all add: wf_Subscribe)
  with snoc show ?case
    by (auto simp: lookup_Subscribe Let_def)
qed (simp add: Let_def)

definition encode_suback :: "byte \<Rightarrow> uint16 \<Rightarrow> bytes \<Rightarrow> goerr + bytes" where
  "encode_suback version pid codes = (if version = V50 then EncodeSubackV5 pid [] codes else EncodeSuback pid codes)"

lemma encode_suback_fits: "3 + length codes \<le> MaxRemainingLength \<Longrightarrow> \<exists>data. encode_suback version pid codes = Inr data"
  by (simp add: encode_suback_def EncodeSubackV5_def EncodeSuback_def varint4_eq varint_bytes_small Let_def)

lemma handleSubscribe_run:
  assumes "session_of c b = Some s" "DecodeSubscribe (cl_version (bk_conn b c)) body = Inr (pid, ss)"
    and "length body \<le> MaxRemainingLength"
  shows "\<exists>data b'. encode_suback (cl_version (bk_conn b c)) pid (map (suback_code c b) ss) = Inr data
    \<and> handleSubscribe c body b = (Inr (), enqueue c data b') \<and> subscribed c ss b b'"
proof -
  obtain b' where b': "mapM (subscribe_one c) ss b = (Inr (map (suback_code c b) ss), b')" "subscribed c ss b b'"
    using subscribe_all_run [OF assms(1)] by blast
  have "3 + length (map (suback_code c b) ss) \<le> MaxRemainingLength"
    using DecodeSubscribe_length [OF assms(2)] assms(3) unfolding length_map by linarith
  then obtain data where "encode_suback (cl_version (bk_conn b c)) pid (map (suback_code c b) ss) = Inr data"
    using encode_suback_fits by blast
  with b' assms(2) show ?thesis
    by (auto simp: handleSubscribe_def bind_run liftE_def enqueue_enc_def encode_suback_def)
qed

section \<open>Properties\<close>

text \<open>
  C5: QoS 2 publications are routed exactly once. For any sequence of PUBLISH and PUBREL packets with one identifier, repeated and in any
  order, the message kept for the identifier and the state of the router are those of the specification:
  the first PUBLISH is kept and routes nothing, further ones change nothing, the PUBREL routes the kept message once
  and forgets it, and a PUBREL with nothing kept routes nothing.
\<close>

theorem qos2_exactly_once:
  assumes "session_of c b = Some s" "GetInFlight pid s = None"
  shows "qos2_state c pid (fold (\<lambda>e b. snd (qos2_run c pid e b)) es b) = fold qos2_spec es (None, bk_router b)"
proof -
  have "qos2_ok c pid b" "qos2_state c pid b = (None, bk_router b)"
    using assms by (simp_all add: qos2_ok_def qos2_state_def)
  with qos2_steps [of c pid b es] show ?thesis
    by simp
qed

theorem qos2_exactly_once_witness:
  "\<forall>pkt. qos2_state 0 7 (fold (\<lambda>e b. snd (qos2_run 0 7 e b)) [Pub 1 ''t'' pkt, Pub 2 ''t'' pkt, Rel 3, Rel 4] one_client)
     = (None, fst (Publish 3 ''t'' (pp_Payload pkt) QoS2 (pp_Retain pkt) Router_New))"
proof
  fix pkt
  have "GetInFlight 7 (Session_New 0 ''a'' True) = None"
    by (simp add: GetInFlight_def Session_New_def)
  note once = qos2_exactly_once [OF one_client_sel(1) this, of "[Pub 1 ''t'' pkt, Pub 2 ''t'' pkt, Rel 3, Rel 4]"]
  show "qos2_state 0 7 (fold (\<lambda>e b. snd (qos2_run 0 7 e b)) [Pub 1 ''t'' pkt, Pub 2 ''t'' pkt, Rel 3, Rel 4] one_client)
     = (None, fst (Publish 3 ''t'' (pp_Payload pkt) QoS2 (pp_Retain pkt) Router_New))"
    unfolding once by simp
qed




end
