(* ===== verification/Connect.thy ===== *)
theory Connect
  imports Handlers
begin

text \<open>
  The handshake: which CONNECT packets are admitted, that a refused one leaves no trace outside its own
  connection, and that an admitted one opens the session of its client and registers the connection.
\<close>

section \<open>Admission\<close>

text \<open>The user name a CONNECT packet authenticates, \<^const>\<open>None\<close> if its credentials are refused.\<close>

definition certificate_user :: "Client \<Rightarrow> Authenticator \<Rightarrow> string option" where
  "certificate_user cl a =
     (case cl_peerCert cl of
        None \<Rightarrow> Some (cl_username cl)
      | Some cert \<Rightarrow> (case AuthX509 (Some cert) a of Inr identity \<Rightarrow> Some identity | Inl _ \<Rightarrow> None))"

definition password_user :: "Externals \<Rightarrow> time \<Rightarrow> string \<Rightarrow> ConnectPacket \<Rightarrow> Authenticator \<Rightarrow> string option" where
  "password_user ex now u pkt a =
     (if u = [] \<and> cp_HasUsername pkt then
        (case AuthPassword (ex_cmp ex) (cp_Username pkt) (cp_Password pkt) a of
           Inr _ \<Rightarrow> Some (cp_Username pkt) | Inl _ \<Rightarrow> None)
      else if cp_Password pkt \<noteq> [] then
        (case fst (AuthJWT (ex_parse ex) (ex_pick ex) now (string_of_bytes (cp_Password pkt)) a) of
           Inr claims \<Rightarrow> Some (jc_Username claims) | Inl _ \<Rightarrow> None)
      else Some u)"

definition connect_user :: "Externals \<Rightarrow> time \<Rightarrow> Client \<Rightarrow> ConnectPacket \<Rightarrow> Authenticator \<Rightarrow> string option" where
  "connect_user ex now cl pkt a = Option.bind (certificate_user cl a) (\<lambda>u. password_user ex now u pkt a)"

definition connect_id :: "time \<Rightarrow> Client \<Rightarrow> ConnectPacket \<Rightarrow> string" where
  "connect_id now cl pkt =
     (if cp_ClientID pkt \<noteq> [] then cp_ClientID pkt else ''auto-'' @ cl_remoteAddr cl @ ''-'' @ Itoa now)"

definition admitted :: "Externals \<Rightarrow> time \<Rightarrow> addr \<Rightarrow> ConnectPacket \<Rightarrow> Broker \<Rightarrow> bool" where
  "admitted ex now c pkt b \<longleftrightarrow>
     (case connect_user ex now (bk_conn b c) pkt (bk_authn b) of
        None \<Rightarrow> False
      | Some u \<Rightarrow> (cp_ClientID pkt \<noteq> [] \<or> cp_CleanSession pkt)
          \<and> OnClientConnect (connect_id now (bk_conn b c) pkt) u (bk_plugins b) = None)"

lemma connect_user_version [simp]: "connect_user ex now (cl\<lparr>cl_version := v\<rparr>) pkt a = connect_user ex now cl pkt a"
  by (simp add: connect_user_def certificate_user_def split: option.split)

lemma connect_id_cong [simp]:
  "connect_id now (cl\<lparr>cl_version := v, cl_username := u\<rparr>) pkt = connect_id now cl pkt"
  by (simp add: connect_id_def)

text \<open>What the rest of the broker can observe of the connections.\<close>

definition observable :: "Broker \<Rightarrow> Router \<times> Store \<times> (string, addr) gomap \<times> task list \<times> (addr \<Rightarrow> connState \<times> addr option)" where
  "observable b = (bk_router b, bk_sessions b, bk_clients b, bk_tasks b, (\<lambda>c. (cl_state (bk_conn b c), cl_sess (bk_conn b c))))"

lemma observable_simps [simp]:
  "observable (bk_count cs b) = observable b" "observable (enqueue c data b) = observable b"
  "observable (b\<lparr>bk_authn := a\<rparr>) = observable b" "observable (b\<lparr>bk_rateLimiter := rl\<rparr>) = observable b"
  by (simp_all add: observable_def enqueue_def fun_eq_iff)

lemma observable_upd_client [simp]:
  "observable (upd_client c (\<lambda>cl. cl\<lparr>cl_username := u\<rparr>) b) = observable b"
  "observable (upd_client c (\<lambda>cl. cl\<lparr>cl_version := v\<rparr>) b) = observable b"
  "observable (upd_client c (\<lambda>cl. cl\<lparr>cl_clientID := i\<rparr>) b) = observable b"
  "observable (upd_client c (\<lambda>cl. cl\<lparr>cl_rxPackets := g cl, cl_rxBytes := h cl\<rparr>) b) = observable b"
  by (simp_all add: observable_def fun_eq_iff)

lemma enqueue_enc_observable [safe]: "keeps (\<lambda>b. observable b = x) (enqueue_enc c enc)"
  unfolding enqueue_enc_def by (intro safe) auto

lemma sendConnackFailure_observable [safe]: "keeps (\<lambda>b. observable b = x) (sendConnackFailure c r3 r5 peek)"
  unfolding sendConnackFailure_def by (intro safe) auto

lemma refuse_observable [safe]: "keeps (\<lambda>b. observable b = x) (refuse_credentials c label e)"
  unfolding refuse_credentials_def by (intro safe) auto

lemma authenticate_observable [safe]: "keeps (\<lambda>b. observable b = x) (authenticate ex now c pkt)"
  unfolding authenticate_def auth_certificate_def auth_password_def by (intro safe) auto

lemma client_identity_observable [safe]: "keeps (\<lambda>b. observable b = x) (client_identity now c pkt)"
  unfolding client_identity_def by (intro safe) auto

section \<open>Credentials\<close>

lemma refuse_fails: "\<exists>e'. fst (refuse_credentials c label e b) = Inl e'"
  by (simp add: refuse_credentials_def then_run split: sum.split)

lemma upd_client_same: "f (bk_conn b c) = bk_conn b c \<Longrightarrow> upd_client c f b = b"
  by (simp add: upd_client_def)

lemma auth_certificate_run:
  "case certificate_user (bk_conn b c) (bk_authn b) of
     None \<Rightarrow> \<exists>e. fst (auth_certificate c b) = Inl e
   | Some u \<Rightarrow> auth_certificate c b = (Inr (), upd_client c (\<lambda>cl. cl\<lparr>cl_username := u\<rparr>) b)"
  using refuse_fails
  by (auto simp: certificate_user_def auth_certificate_def bind_run upd_client_same split: option.split sum.split)

lemma auth_password_run:
  assumes "cl_username (bk_conn b c) = u"
  shows "case password_user ex now u pkt (bk_authn b) of
     None \<Rightarrow> \<exists>e. fst (auth_password ex now c pkt b) = Inl e
   | Some u \<Rightarrow> \<exists>a. auth_password ex now c pkt b = (Inr (), upd_client c (\<lambda>cl. cl\<lparr>cl_username := u\<rparr>) (b\<lparr>bk_authn := a\<rparr>))"
proof -
  have same: "\<exists>a. b\<lparr>bk_authn := a\<rparr> = b"
    by (rule exI [of _ "bk_authn b"]) simp
  consider (password) "u = []" "cp_HasUsername pkt" | (token) "\<not> (u = [] \<and> cp_HasUsername pkt)" "cp_Password pkt \<noteq> []"
    | (none) "\<not> (u = [] \<and> cp_HasUsername pkt)" "cp_Password pkt = []"
    by blast
  then show ?thesis
  proof cases
    case password
    show ?thesis
    proof (cases "AuthPassword (ex_cmp ex) (cp_Username pkt) (cp_Password pkt) (bk_authn b)")
      case (Inl e)
      with assms password refuse_fails [of c "''bad_credentials''" e b] show ?thesis
        by (simp add: auth_password_def password_user_def bind_run)
    next
      case (Inr x)
      obtain a where "b\<lparr>bk_authn := a\<rparr> = b"
        using same by blast
      with assms password Inr show ?thesis
        by (simp add: auth_password_def password_user_def bind_run) (rule exI [of _ a], simp)
    qed
  next
    case token
    then show ?thesis
      using assms refuse_fails
      by (cases "AuthJWT (ex_parse ex) (ex_pick ex) now (string_of_bytes (cp_Password pkt)) (bk_authn b)")
        (auto simp: auth_password_def password_user_def bind_run then_run split: sum.split)
  next
    case none
    then have "auth_password ex now c pkt b = (Inr (), upd_client c (\<lambda>cl. cl\<lparr>cl_username := u\<rparr>) b)"
      using assms by (auto simp: auth_password_def bind_run upd_client_same)
    with none same show ?thesis
      by (simp add: password_user_def, metis)
  qed
qed

lemma authenticate_run:
  "case connect_user ex now (bk_conn b c) pkt (bk_authn b) of
     None \<Rightarrow> \<exists>e. fst (authenticate ex now c pkt b) = Inl e
   | Some u \<Rightarrow> \<exists>a. authenticate ex now c pkt b = (Inr (), upd_client c (\<lambda>cl. cl\<lparr>cl_username := u\<rparr>) (b\<lparr>bk_authn := a\<rparr>))"
proof (cases "certificate_user (bk_conn b c) (bk_authn b)")
  case None
  with auth_certificate_run [of c b] show ?thesis
    by (auto simp: connect_user_def authenticate_def then_run)
next
  case (Some v)
  let ?b = "upd_client c (\<lambda>cl. cl\<lparr>cl_username := v\<rparr>) b"
  have run: "authenticate ex now c pkt b = auth_password ex now c pkt ?b"
    using auth_certificate_run [of c b] Some by (simp add: authenticate_def then_run)
  have "upd_client c (\<lambda>cl. cl\<lparr>cl_username := u\<rparr>) (?b\<lparr>bk_authn := a\<rparr>)
      = upd_client c (\<lambda>cl. cl\<lparr>cl_username := u\<rparr>) (b\<lparr>bk_authn := a\<rparr>)" for u a
    by (simp add: upd_client_def)
  with auth_password_run [where b = ?b and c = c and u = v and pkt = pkt and ex = ex and now = now] Some show ?thesis
    unfolding run by (cases "password_user ex now v pkt (bk_authn b)") (simp_all add: connect_user_def)
qed

section \<open>Refused connections\<close>

lemma client_identity_run:
  "if cp_ClientID pkt \<noteq> [] \<or> cp_CleanSession pkt
   then client_identity now c pkt b = (Inr (connect_id now (bk_conn b c) pkt), b)
   else \<exists>e. fst (client_identity now c pkt b) = Inl e"
  by (auto simp: client_identity_def connect_id_def bind_run then_run split: sum.split)

text \<open>The state in which \<open>open_session\<close> starts.\<close>

definition identified :: "addr \<Rightarrow> ConnectPacket \<Rightarrow> string \<Rightarrow> string \<Rightarrow> Authenticator \<Rightarrow> Broker \<Rightarrow> Broker" where
  "identified c pkt u cid a b = upd_client c (\<lambda>cl. cl\<lparr>cl_version := cp_Version pkt, cl_username := u, cl_clientID := cid\<rparr>)
     (b\<lparr>bk_authn := a\<rparr>)"

lemma observable_identified [simp]: "observable (identified c pkt u cid a b) = observable b"
  by (simp add: identified_def observable_def fun_eq_iff)

lemma then_fails: "fst (m s) = Inl e \<Longrightarrow> thenM m k s = (Inl e, snd (m s))"
  by (simp add: then_run)

lemma bind_fails: "fst (m s) = Inl e \<Longrightarrow> bindM m k s = (Inl e, snd (m s))"
  by (simp add: bind_run)

lemma handleConnect_admitted:
  assumes "DecodeConnect body = Inr pkt" "admitted ex now c pkt b"
  shows "\<exists>u a. connect_user ex now (bk_conn b c) pkt (bk_authn b) = Some u
    \<and> handleConnect ex now c body b = accept_connect now c (connect_id now (bk_conn b c) pkt) pkt
        (identified c pkt u (connect_id now (bk_conn b c) pkt) a b)"
proof -
  let ?b = "upd_client c (\<lambda>cl. cl\<lparr>cl_version := cp_Version pkt\<rparr>) b" and ?cid = "connect_id now (bk_conn b c) pkt"
  obtain u where u: "connect_user ex now (bk_conn b c) pkt (bk_authn b) = Some u"
      "cp_ClientID pkt \<noteq> [] \<or> cp_CleanSession pkt" "OnClientConnect ?cid u (bk_plugins b) = None"
    using assms(2) by (auto simp: admitted_def split: option.splits)
  have "connect_user ex now (bk_conn ?b c) pkt (bk_authn ?b) = Some u"
    using u(1) by simp
  then obtain a where a: "authenticate ex now c pkt ?b = (Inr (), upd_client c (\<lambda>cl. cl\<lparr>cl_username := u\<rparr>) (?b\<lparr>bk_authn := a\<rparr>))"
    using authenticate_run [of ex now c pkt ?b] by auto
  have i: "client_identity now c pkt b' = (Inr (connect_id now (bk_conn b' c) pkt), b')" for b'
    using client_identity_run [of pkt now c b'] u(2) by simp
  have "handleConnect ex now c body b = accept_connect now c ?cid pkt (identified c pkt u ?cid a b)"
    using assms(1) u(3)
    by (simp add: handleConnect_def then_run bind_run a i identified_def)
      (simp add: upd_client_def)
  with u(1) show ?thesis
    by blast
qed

lemma handleConnect_refused:
  assumes "case DecodeConnect body of Inl e \<Rightarrow> True | Inr pkt \<Rightarrow> \<not> admitted ex now c pkt b"
  shows "\<exists>e. fst (handleConnect ex now c body b) = Inl e \<and> observable (snd (handleConnect ex now c body b)) = observable b"
proof (cases "DecodeConnect body")
  case (Inl e)
  then show ?thesis
    by (auto simp: handleConnect_def then_run keeps_view [OF sendConnackFailure_observable] split: sum.split)
next
  case (Inr pkt)
  let ?b = "upd_client c (\<lambda>cl. cl\<lparr>cl_version := cp_Version pkt\<rparr>) b"
  let ?cid = "connect_id now (bk_conn b c) pkt"
  have cu: "connect_user ex now (bk_conn ?b c) pkt (bk_authn ?b) = connect_user ex now (bk_conn b c) pkt (bk_authn b)"
    by simp
  have auth: "observable (snd (authenticate ex now c pkt ?b)) = observable b"
    by (simp add: keeps_view [OF authenticate_observable])
  have ident: "observable (snd (client_identity now c pkt b')) = observable b'" for b'
    by (rule keeps_view [OF client_identity_observable])
  show ?thesis
  proof (cases "connect_user ex now (bk_conn b c) pkt (bk_authn b)")
    case None
    with authenticate_run [of ex now c pkt ?b] cu obtain e where "fst (authenticate ex now c pkt ?b) = Inl e"
      by auto
    with Inr auth show ?thesis
      by (simp add: handleConnect_def then_run)
  next
    case (Some u)
    with authenticate_run [of ex now c pkt ?b] cu obtain a
      where a: "authenticate ex now c pkt ?b = (Inr (), upd_client c (\<lambda>cl. cl\<lparr>cl_username := u\<rparr>) (?b\<lparr>bk_authn := a\<rparr>))"
        (is "_ = (Inr (), ?b')")
      by auto
    have b': "observable ?b' = observable b"
      by simp
    show ?thesis
    proof (cases "cp_ClientID pkt \<noteq> [] \<or> cp_CleanSession pkt")
      case True
      then have "client_identity now c pkt ?b' = (Inr ?cid, ?b')"
        using client_identity_run [of pkt now c ?b'] by (simp add: connect_id_def)
      moreover obtain e where "OnClientConnect ?cid u (bk_plugins b) = Some e"
        using assms Inr Some True by (auto simp: admitted_def)
      ultimately show ?thesis
        using Inr a
        by (auto simp: handleConnect_def then_run bind_run keeps_view [OF sendConnackFailure_observable] split: sum.split)
    next
      case False
      then obtain e where "fst (client_identity now c pkt ?b') = Inl e"
        using client_identity_run [of pkt now c ?b'] by auto
      with Inr a ident [of ?b'] b' show ?thesis
        by (simp add: handleConnect_def then_run bind_run)
    qed
  qed
qed

section \<open>Admitted connections\<close>

definition kept :: "Session \<Rightarrow> (uint16, InFlight) gomap \<times> (uint16, InFlight) gomap \<times> Queued list" where
  "kept s = (outFlight s, inFlight s, queue s)"

text \<open>What a session that is opened starts from: the persistent session of the client, or nothing.\<close>

definition resumed :: "string \<Rightarrow> bool \<Rightarrow> Store \<Rightarrow> (uint16, InFlight) gomap \<times> (uint16, InFlight) gomap \<times> Queued list" where
  "resumed cid clean st =
     (case (if clean then None else Option.bind (resumable cid st) (st_heap st)) of
        Some s \<Rightarrow> kept s
      | None \<Rightarrow> ([], [], []))"

definition taken_over :: "Broker \<Rightarrow> Broker \<Rightarrow> bool" where
  "taken_over b b' \<longleftrightarrow>
     st_data (bk_sessions b') = st_data (bk_sessions b)
     \<and> (\<forall>a. map_option (\<lambda>s. (kept s, ss_CleanSession s)) (st_heap (bk_sessions b') a)
          = map_option (\<lambda>s. (kept s, ss_CleanSession s)) (st_heap (bk_sessions b) a))
     \<and> bk_clients b' = bk_clients b \<and> bk_cfg b' = bk_cfg b
     \<and> (\<forall>c. (bk_conn b' c)\<lparr>cl_connClosed := False\<rparr> = (bk_conn b c)\<lparr>cl_connClosed := False\<rparr>)"

lemma takeover_run:
  assumes "wf_broker b"
  shows "\<exists>b'. takeover cid b = (Inr (), b') \<and> wf_broker b' \<and> bk_nextConn b' = bk_nextConn b \<and> taken_over b b'"
proof (cases "GetClient cid b")
  case None
  with assms show ?thesis
    by (simp add: takeover_def bind_run taken_over_def)
next
  case (Some c)
  have b: "binv (fixed b) {c} b"
    using assms Some by (auto simp: inv_empty GetClient_def intro: inv_registered)
  obtain s where s: "session_of c b = Some s"
    using b by (rule inv_session) simp_all
  let ?b = "upd_client c (\<lambda>cl. cl\<lparr>cl_connClosed := True\<rparr>) (put_session c (s\<lparr>ss_WillSet := False\<rparr>) b)"
  have run: "takeover cid b = (Inr (), ?b)"
    by (simp add: takeover_def bind_run then_run Some upd_session_def on_session_run s)
  have "binv (fixed b) {} (snd (takeover cid b))"
    using avoidsD [OF avoids_takeover] assms by (simp add: inv_empty)
  then have "wf_broker ?b"
    by (simp add: run binv_def)
  moreover obtain a where "cl_sess (bk_conn b c) = Some a" "st_heap (bk_sessions b) a = Some s"
    using s by (auto simp: session_of_def split: bind_splits)
  then have "taken_over b ?b"
    by (simp add: taken_over_def put_session_def kept_def)
  ultimately show ?thesis
    using run by simp
qed

lemma resumed_cong:
  assumes "taken_over b b'"
  shows "resumed cid clean (bk_sessions b') = resumed cid clean (bk_sessions b)"
proof -
  have d: "st_data (bk_sessions b') = st_data (bk_sessions b)"
    and h: "map_option (\<lambda>s. (kept s, ss_CleanSession s)) (st_heap (bk_sessions b') a)
          = map_option (\<lambda>s. (kept s, ss_CleanSession s)) (st_heap (bk_sessions b) a)" for a
    using assms by (auto simp: taken_over_def)
  show ?thesis
  proof (cases "map_of (st_data (bk_sessions b)) cid")
    case (Some a)
    with d h [of a] show ?thesis
      by (cases "st_heap (bk_sessions b') a"; cases "st_heap (bk_sessions b) a") (auto simp: resumed_def resumable_def)
  qed (simp add: resumed_def resumable_def d)
qed

lemma GetOrCreate_resumed:
  assumes "wf_store st" "GetOrCreate now cid clean st = (st', a, present)"
  obtains s where "st_heap st' a = Some s" "ss_ClientID s = cid" "ss_CleanSession s = clean"
    "kept s = resumed cid clean st" "Store_Get cid st' = Some a"
proof -
  have post: "get_or_create_post now cid clean st st' a present"
    using assms by (rule GetOrCreate_post)
  then obtain s where s: "st_heap st' a = Some s" "ss_ClientID s = cid" "ss_CleanSession s = clean" "Store_Get cid st' = Some a"
    by (auto simp: get_or_create_post_def)
  have "kept s = resumed cid clean st"
  proof (cases present)
    case True
    with post s(1) show ?thesis
      by (auto simp: get_or_create_post_def resumed_def)
  next
    case False
    have "resumable cid st = None" if "\<not> clean"
    proof (rule ccontr)
      assume "resumable cid st \<noteq> None"
      then obtain a' where a': "resumable cid st = Some a'"
        by auto
      then have "map_of (st_data st) cid = Some a'" "st_heap st a' \<noteq> None"
        by (auto elim: resumable_SomeD)
      with that a' assms(2) False show False
        by (auto simp: GetOrCreate_eq)
    qed
    with False post s(1) show ?thesis
      by (auto simp: get_or_create_post_def resumed_def kept_def Session_New_def)
  qed
  with s show ?thesis
    using that by blast
qed

text \<open>The connection of a user and a client is open, with its session made from the store before.\<close>

definition opened :: "addr \<Rightarrow> string \<Rightarrow> string \<Rightarrow> ConnectPacket \<Rightarrow> time \<Rightarrow> Store \<Rightarrow> Broker \<Rightarrow> bool" where
  "opened c u cid pkt now st b' \<longleftrightarrow>
     GetClient cid b' = Some c \<and> cl_state (bk_conn b' c) = stateConnected \<and> cl_clientID (bk_conn b' c) = cid
     \<and> cl_username (bk_conn b' c) = u
     \<and> (\<exists>s a. cl_sess (bk_conn b' c) = Some a \<and> Store_Get cid (bk_sessions b') = Some a
          \<and> st_heap (bk_sessions b') a = Some (connect_session now pkt s)
          \<and> ss_ClientID s = cid \<and> ss_CleanSession s = cp_CleanSession pkt
          \<and> kept s = resumed cid (cp_CleanSession pkt) st)"

lemma opened_cong:
  "bk_clients b'' = bk_clients b' \<Longrightarrow> bk_sessions b'' = bk_sessions b' \<Longrightarrow>
   (bk_conn b'' c)\<lparr>cl_writeQ := []\<rparr> = (bk_conn b' c)\<lparr>cl_writeQ := []\<rparr> \<Longrightarrow> opened c u cid pkt now st b' \<Longrightarrow> opened c u cid pkt now st b''"
  by (cases "bk_conn b'' c"; cases "bk_conn b' c") (simp add: opened_def GetClient_def)

lemma open_session_run:
  assumes "wf_broker b" "cl_clientID (bk_conn b c) = cid"
  shows "\<exists>present b'. open_session now c cid pkt b = (Inr present, b') \<and> opened c (cl_username (bk_conn b c)) cid pkt now (bk_sessions b) b'"
proof -
  obtain b1 where b1: "takeover cid b = (Inr (), b1)" "wf_broker b1" "taken_over b b1"
    using takeover_run [OF assms(1)] by blast
  obtain st a present where g: "GetOrCreate now cid (cp_CleanSession pkt) (bk_sessions b1) = (st, a, present)"
    by (rule prod_cases3)
  have "wf_store (bk_sessions b1)"
    using b1(2) by (simp add: wf_broker_def)
  then obtain s where s: "st_heap st a = Some s" "ss_ClientID s = cid" "ss_CleanSession s = cp_CleanSession pkt"
      "kept s = resumed cid (cp_CleanSession pkt) (bk_sessions b1)" "Store_Get cid st = Some a"
    using g by (rule GetOrCreate_resumed)
  define b2 where "b2 = upd_client c (\<lambda>cl. cl\<lparr>cl_sess := Some a\<rparr>) (b1\<lparr>bk_sessions := st\<rparr>)"
  have s2: "session_of c b2 = Some s"
    using s(1) by (simp add: b2_def session_of_def)
  have conn: "(bk_conn b1 c)\<lparr>cl_connClosed := False\<rparr> = (bk_conn b c)\<lparr>cl_connClosed := False\<rparr>"
    using b1(3) by (simp add: taken_over_def)
  have ids: "cl_clientID (bk_conn b1 c) = cid" "cl_username (bk_conn b1 c) = cl_username (bk_conn b c)"
    using arg_cong [OF conn, of cl_clientID] arg_cong [OF conn, of cl_username] assms(2) by simp_all
  have "\<exists>b'. open_session now c cid pkt b = (Inr present, b') \<and> opened c (cl_username (bk_conn b c)) cid pkt now (bk_sessions b) b'"
    using ids s(1,2,3,5) resumed_cong [OF b1(3), of cid "cp_CleanSession pkt"] s(4)
    unfolding open_session_def opened_def
    by (simp add: then_run bind_run b1(1) g upd_session_def on_session_run s2 b2_def [symmetric])
      (auto simp: b2_def GetClient_def put_session_def Store_Get_def negotiate_def Let_def)
  then show ?thesis
    by blast
qed

lemma sendConnack_run: "\<exists>data. sendConnack c present b = (Inr (), enqueue c data b)"
  by (auto simp: sendConnack_def bind_run enqueue_enc_def EncodeConnackV5_eq liftE_def)

lemma accept_connect_run:
  assumes "wf_broker b" "cl_clientID (bk_conn b c) = cid"
  shows "\<exists>b'. accept_connect now c cid pkt b = (Inr (), b') \<and> opened c (cl_username (bk_conn b c)) cid pkt now (bk_sessions b) b'"
proof -
  obtain present b1 where b1: "open_session now c cid pkt b = (Inr present, b1)" "opened c (cl_username (bk_conn b c)) cid pkt now (bk_sessions b) b1"
    using open_session_run [OF assms] by blast
  obtain b' where run: "accept_connect now c cid pkt b = (Inr (), b')"
    and same: "bk_clients b' = bk_clients b1" "bk_sessions b' = bk_sessions b1"
      "(bk_conn b' c)\<lparr>cl_writeQ := []\<rparr> = (bk_conn b1 c)\<lparr>cl_writeQ := []\<rparr>"
  proof -
    obtain data where "sendConnack c present b1 = (Inr (), enqueue c data b1)"
      using sendConnack_run by blast
    then show thesis
      by (intro that [of "spawn (GoDrain c) ((if present \<and> \<not> cp_CleanSession pkt then spawn (GoRestore c) else id) (enqueue c data b1))"])
        (simp_all add: accept_connect_def bind_run then_run b1(1) enqueue_def)
  qed
  from opened_cong [OF same b1(2)] run show ?thesis
    by blast
qed

section \<open>The first packet of a connection\<close>

lemma readLoop_connect:
  assumes "cl_state (bk_conn b c) = stateHandshaking" "cl_clientID (bk_conn b c) = []"
  shows "readLoop_frame ex t0 now c fh body b =
    (if fh_Type fh = CONNECT then handleConnect ex now c body (upd_client c (\<lambda>cl. cl\<lparr>cl_rxPackets := cl_rxPackets cl + 1,
         cl_rxBytes := cl_rxBytes cl + of_nat (2 + fh_RemainingLength fh)\<rparr>) b)
     else (Inl (UnexpectedPacket (fh_Type fh)), b))"
  using assms by (simp add: readLoop_frame_def handle_def dispatch_def bind_run then_run)

lemma admitted_rx:
  "connect_user ex now (cl\<lparr>cl_rxPackets := x, cl_rxBytes := y\<rparr>) pkt a = connect_user ex now cl pkt a"
  "connect_id now (cl\<lparr>cl_rxPackets := x, cl_rxBytes := y\<rparr>) pkt = connect_id now cl pkt"
  by (simp_all add: connect_user_def certificate_user_def connect_id_def split: option.split)

text \<open>
  C6: a connection in the handshake gets nowhere without an admitted CONNECT packet. Any other packet, and a CONNECT packet
  that is malformed, has wrong credentials, no usable client identifier or is refused by a plugin, ends
  the connection and leaves the router, the sessions, the registry, the tasks and the state of every connection as they were.
  An admitted one succeeds: the connection is registered for its client and connected, under the user
  name that was authenticated, with a session of the requested kind, which holds the messages of the client's
  persistent session if it asked to resume it and none otherwise.
\<close>

theorem connect_admission:
  assumes "wf_broker b" "cl_state (bk_conn b c) = stateHandshaking" "cl_clientID (bk_conn b c) = []"
  shows "let (r, b') = readLoop_frame ex t0 now c fh body b in
    case (if fh_Type fh = CONNECT then DecodeConnect body else Inl ErrProtocolViolation) of
      Inl _ \<Rightarrow> r \<noteq> Inr () \<and> observable b' = observable b
    | Inr pkt \<Rightarrow>
        if admitted ex now c pkt b
        then r = Inr () \<and> opened c (the (connect_user ex now (bk_conn b c) pkt (bk_authn b))) (connect_id now (bk_conn b c) pkt)
               pkt now (bk_sessions b) b'
        else r \<noteq> Inr () \<and> observable b' = observable b"
proof (cases "fh_Type fh = CONNECT")
  case True
  let ?b = "upd_client c (\<lambda>cl. cl\<lparr>cl_rxPackets := cl_rxPackets cl + 1,
      cl_rxBytes := cl_rxBytes cl + of_nat (2 + fh_RemainingLength fh)\<rparr>) b"
  have run: "readLoop_frame ex t0 now c fh body b = handleConnect ex now c body ?b"
    using assms(2,3) True by (simp add: readLoop_connect)
  have adm: "admitted ex now c pkt ?b = admitted ex now c pkt b" for pkt
    by (simp add: admitted_def admitted_rx split: option.split)
  consider (ok) pkt where "DecodeConnect body = Inr pkt" "admitted ex now c pkt ?b"
    | (refused) "case DecodeConnect body of Inl e \<Rightarrow> True | Inr pkt \<Rightarrow> \<not> admitted ex now c pkt ?b"
    by (cases "DecodeConnect body") auto
  then show ?thesis
  proof cases
    case ok
    let ?cid = "connect_id now (bk_conn b c) pkt"
    obtain u a where u: "connect_user ex now (bk_conn b c) pkt (bk_authn b) = Some u"
      and h: "handleConnect ex now c body ?b = accept_connect now c ?cid pkt (identified c pkt u ?cid a ?b)"
      using handleConnect_admitted [OF ok] by (auto simp: admitted_rx)
    have "binv (fixed b) {} (identified c pkt u ?cid a ?b)"
      using assms(1) by (auto simp: identified_def inv_empty harmless_def intro!: inv_harmless)
    then have wf: "wf_broker (identified c pkt u ?cid a ?b)"
      by (rule inv_wf)
    have i: "cl_clientID (bk_conn (identified c pkt u ?cid a ?b) c) = ?cid"
        "cl_username (bk_conn (identified c pkt u ?cid a ?b) c) = u"
        "bk_sessions (identified c pkt u ?cid a ?b) = bk_sessions b"
      by (simp_all add: identified_def)
    obtain b' where "accept_connect now c ?cid pkt (identified c pkt u ?cid a ?b) = (Inr (), b')"
        "opened c u ?cid pkt now (bk_sessions b) b'"
      using accept_connect_run [OF wf i(1), of now pkt] unfolding i(2,3) by blast
    with run h u ok adm True show ?thesis
      by simp
  next
    case refused
    from handleConnect_refused [OF this] obtain e where "fst (handleConnect ex now c body ?b) = Inl e"
        "observable (snd (handleConnect ex now c body ?b)) = observable b"
      by auto
    with refused run adm True show ?thesis
      by (cases "handleConnect ex now c body ?b") (auto split: sum.splits)
  qed
qed (use assms in \<open>simp add: readLoop_connect\<close>)

theorem connect_admission_witness:
  "\<forall>ex. let body = [0, 4, 77, 81, 84, 84, 4, 2, 0, 60, 0, 1, 97];
       (r, b') = readLoop_frame ex 0 0 0 \<lparr>fh_Type = CONNECT, fh_Flags = 0, fh_RemainingLength = 13\<rparr> body one_connection
     in r = Inr () \<and> GetClient ''a'' b' = Some 0 \<and> cl_state (bk_conn b' 0) = stateConnected"
proof
  fix ex
  let ?pkt = "empty_ConnectPacket\<lparr>cp_Version := 4, cp_CleanSession := True, cp_KeepAlive := 60, cp_ClientID := ''a''\<rparr>"
  have d: "DecodeConnect [0, 4, 77, 81, 84, 84, 4, 2, 0, 60, 0, 1, 97] = Inr ?pkt"
    by code_simp
  have c: "cl_state (bk_conn one_connection 0) = stateHandshaking" "cl_clientID (bk_conn one_connection 0) = []"
    by (simp_all add: one_connection_eq newClient_def blank_client_def)
  have a: "admitted ex 0 0 ?pkt one_connection"
    by (simp add: admitted_def connect_user_def certificate_user_def password_user_def one_connection_eq newClient_def
        blank_client_def empty_ConnectPacket_def)
  show "let body = [0, 4, 77, 81, 84, 84, 4, 2, 0, 60, 0, 1, 97];
       (r, b') = readLoop_frame ex 0 0 0 \<lparr>fh_Type = CONNECT, fh_Flags = 0, fh_RemainingLength = 13\<rparr> body one_connection
     in r = Inr () \<and> GetClient ''a'' b' = Some 0 \<and> cl_state (bk_conn b' 0) = stateConnected"
    using connect_admission [OF wf_one_connection c, of ex 0 0 "\<lparr>fh_Type = CONNECT, fh_Flags = 0, fh_RemainingLength = 13\<rparr>"
        "[0, 4, 77, 81, 84, 84, 4, 2, 0, 60, 0, 1, 97]"] a
    by (auto simp: d opened_def connect_id_def empty_ConnectPacket_def Let_def split: prod.splits)
qed

end
