(* ===== verification/Lifecycle.thy ===== *)
theory Lifecycle
  imports Connect
begin

text \<open>
  Deliveries and the end of connections and sessions: a delivery sends, queues or drops a message in
  exactly the cases the limits of the client prescribe; the cleanup of a connection removes what its session
  asks to remove and publishes its will; the sweep removes exactly the expired sessions; a cluster
  message is routed by one broker. One theorem shows that the cleanup of a connection that was taken
  over removes the registration of its successor.
\<close>

section \<open>Delivery\<close>

definition queued :: "string \<Rightarrow> bytes \<Rightarrow> byte \<Rightarrow> bool \<Rightarrow> Queued" where
  "queued topic payload qos retain = \<lparr>qd_Topic = topic, qd_Payload = payload, qd_QoS = qos, qd_Retain = retain\<rparr>"

lemma qEnqueue_run:
  assumes "session_of c b = Some s"
  shows "qEnqueue c topic payload qos retain b =
    (Inr (), if ss_CleanSession s then b
             else bk_count [Inc OfflineQueuedMessages] (put_session c (fst (Enqueue (queued topic payload qos retain) s)) b))"
proof -
  have "cl_sess (bk_conn b c) \<noteq> None"
    using assms by (cases "cl_sess (bk_conn b c)") (simp_all add: session_of_def)
  with assms show ?thesis
    by (auto simp: qEnqueue_def bind_run then_run the_session_def on_session_run queued_def)
qed

lemma next_packet_run:
  assumes "session_of c b = Some s" "ident \<noteq> 0" "GetOutFlight ident s = None"
  obtains pid n where "next_packet c b = (Inr pid, put_session c (s\<lparr>nextPktID := n\<rparr>) b)" "pid \<noteq> 0" "GetOutFlight pid s = None"
proof -
  obtain k y where ky: "NextPacketID_loop (outFlight s) (nextPktID s) = Some (y, nextPktID s + of_nat k)"
    using NextPacketID_loop_returns [of ident "outFlight s" "nextPktID s"] assms(2,3) by (auto simp: GetOutFlight_def)
  then have "y \<noteq> 0" "GetOutFlight y s = None"
    using NextPacketID_loop_result [OF ky] by (simp_all add: GetOutFlight_def)
  moreover have "next_packet c b = (Inr y, put_session c (s\<lparr>nextPktID := nextPktID s + of_nat k\<rparr>) b)"
    using assms(1) ky by (simp add: next_packet_def NextPacketID_def)
  ultimately show ?thesis
    using that by blast
qed

text \<open>The receive maximum that applies to a connection, 0 for none, and the message that is kept until it is acknowledged.\<close>

definition receive_limit :: "Client \<Rightarrow> uint16" where
  "receive_limit cl = (if cl_version cl = V50 then cl_peerRecvMax cl else 0)"

definition in_flight :: "time \<Rightarrow> uint16 \<Rightarrow> string \<Rightarrow> bytes \<Rightarrow> byte \<Rightarrow> bool \<Rightarrow> InFlight" where
  "in_flight now pid topic payload qos retain =
     \<lparr>if_PacketID = pid, if_Topic = topic, if_Payload = payload, if_QoS = qos,
      if_Retain = retain, if_SentAt = Some now, if_Retries = 0, if_QoS2Phase = QoS2Published\<rparr>"

lemma reserve_run:
  assumes "session_of c b = Some s" "ident \<noteq> 0" "GetOutFlight ident s = None" "qos > 0"
  obtains pid n where "pid \<noteq> 0" "GetOutFlight pid s = None"
    "reserve now c topic payload qos retain b =
       (if receive_limit (bk_conn b c) > 0 \<and> tracked s \<ge> unat (receive_limit (bk_conn b c))
        then (Inr None, put_session c (s\<lparr>nextPktID := n\<rparr>) b)
        else (Inr (Some pid), put_session c (s\<lparr>nextPktID := n,
               outFlight := AList.update pid (in_flight now pid topic payload qos retain) (outFlight s)\<rparr>) b))"
proof -
  obtain pid n where p: "next_packet c b = (Inr pid, put_session c (s\<lparr>nextPktID := n\<rparr>) b)" "pid \<noteq> 0" "GetOutFlight pid s = None"
    using assms(1-3) by (rule next_packet_run)
  have twice: "put_session c y (put_session c x b) = put_session c y b" for x y
    by (simp add: put_session_def split: option.split)
  have qos: "qos \<noteq> 0"
    using assms(4) by auto
  have "session_of c (put_session c (s\<lparr>nextPktID := n\<rparr>) b) = Some (s\<lparr>nextPktID := n\<rparr>)"
    using assms(1) by simp
  with p assms(4) show ?thesis
    by (intro that [of pid n])
      (simp_all add: reserve_def bind_run on_session_run AddOutFlightLimited_def qos receive_limit_def in_flight_def
        tracked_def twice Let_def)
qed

text \<open>When a message is not sent: the client is not connected, or the message exceeds one of its limits.\<close>

definition too_large :: "Client \<Rightarrow> string \<Rightarrow> bytes \<Rightarrow> byte \<Rightarrow> bool" where
  "too_large cl topic payload qos \<longleftrightarrow> cl_peerMaxPacketSize cl > 0
     \<and> of_nat (ApproxClientOutboundPublishBytes (cl_version cl) topic (length payload) qos) > cl_peerMaxPacketSize cl"

definition window_full :: "Client \<Rightarrow> Session \<Rightarrow> bool" where
  "window_full cl s \<longleftrightarrow> receive_limit cl > 0 \<and> tracked s \<ge> unat (receive_limit cl)"

definition held_back :: "Client \<Rightarrow> Session \<Rightarrow> string \<Rightarrow> bytes \<Rightarrow> byte \<Rightarrow> bool" where
  "held_back cl s topic payload qos \<longleftrightarrow>
     cl_state cl \<noteq> stateConnected \<or> too_large cl topic payload qos \<or> qos > 0 \<and> window_full cl s"

text \<open>The state after the message was held back, and after it was sent under an identifier.\<close>

definition after_hold :: "addr \<Rightarrow> Session \<Rightarrow> Queued \<Rightarrow> Broker \<Rightarrow> Broker \<Rightarrow> bool" where
  "after_hold c s m b b' \<longleftrightarrow> bk_conn b' = bk_conn b
     \<and> (\<exists>s'. session_of c b' = Some s' \<and> outFlight s' = outFlight s
          \<and> queue s' = (if ss_CleanSession s then queue s
               else (if length (queue s) \<ge> maxQueue s then List.tl (queue s) else queue s) @ [m]))"

definition after_send :: "addr \<Rightarrow> Session \<Rightarrow> InFlight \<Rightarrow> bytes \<Rightarrow> Broker \<Rightarrow> Broker \<Rightarrow> bool" where
  "after_send c s m frame b b' \<longleftrightarrow> cl_writeQ (bk_conn b' c) = cl_writeQ (bk_conn (enqueue c frame b) c)
     \<and> (\<exists>s'. session_of c b' = Some s' \<and> queue s' = queue s
          \<and> outFlight s' = (if if_QoS m = 0 then outFlight s else AList.update (if_PacketID m) m (outFlight s)))"

lemma deliver_cases:
  "deliver now c topic payload qos retain b =
     (if cl_state (bk_conn b c) \<noteq> stateConnected then qEnqueue c topic payload qos retain b
      else if too_large (bk_conn b c) topic payload qos
      then qEnqueue c topic payload qos retain (bk_count [Inc (DroppedTotal ''max_packet_size'')] b)
      else bindM (reserve now c topic payload qos retain) (\<lambda>pid. case pid of
              None \<Rightarrow> thenM (modify (bk_count [Inc (DroppedTotal ''receive_maximum'')])) (qEnqueue c topic payload qos retain)
            | Some pid \<Rightarrow> enqueue_enc c (encode_publish (cl_version (bk_conn b c)) topic payload qos retain pid False)) b)"
  unfolding too_large_def deliver_def by (simp add: bind_run then_run)

lemma deliver_none:
  "cl_state (bk_conn b c) = stateConnected \<Longrightarrow> \<not> too_large (bk_conn b c) topic payload qos \<Longrightarrow>
   reserve now c topic payload qos retain b = (Inr None, b1) \<Longrightarrow>
   deliver now c topic payload qos retain b = qEnqueue c topic payload qos retain (bk_count [Inc (DroppedTotal ''receive_maximum'')] b1)"
  by (simp add: deliver_cases bind_run then_run)

lemma deliver_some:
  "cl_state (bk_conn b c) = stateConnected \<Longrightarrow> \<not> too_large (bk_conn b c) topic payload qos \<Longrightarrow>
   reserve now c topic payload qos retain b = (Inr (Some pid), b1) \<Longrightarrow>
   encode_publish (cl_version (bk_conn b c)) topic payload qos retain pid False = Inr frame \<Longrightarrow>
   deliver now c topic payload qos retain b = (Inr (), enqueue c frame b1)"
  by (simp add: deliver_cases bind_run enqueue_enc_def liftE_def)

lemma after_hold_qEnqueue:
  assumes "session_of c b0 = Some s0" "bk_conn b0 = bk_conn b"
    and "outFlight s0 = outFlight s" "queue s0 = queue s" "maxQueue s0 = maxQueue s" "ss_CleanSession s0 = ss_CleanSession s"
  shows "\<exists>b'. qEnqueue c topic payload qos retain b0 = (Inr (), b') \<and> after_hold c s (queued topic payload qos retain) b b'"
  using assms by (simp add: qEnqueue_run after_hold_def Enqueue_def Let_def)

lemma encode_publish_total:
  assumes "fits16 topic" "length topic + length payload + 5 \<le> MaxRemainingLength"
  obtains frame where "encode_publish version topic payload qos retain pid dup = Inr frame"
proof -
  have "length (publish_body version topic payload qos pid) \<le> length topic + length payload + 5"
    using assms(1) by (simp add: publish_body_def)
  with assms(2) have "length (publish_body version topic payload qos pid) \<le> MaxRemainingLength"
    by linarith
  with assms(1) that show thesis
    by (simp add: encode_publish_eq)
qed

lemma deliver_held:
  assumes s: "session_of c b = Some s" and ident: "ident \<noteq> 0" "GetOutFlight ident s = None"
    and held: "held_back (bk_conn b c) s topic payload qos"
  shows "\<exists>b'. deliver now c topic payload qos retain b = (Inr (), b') \<and> after_hold c s (queued topic payload qos retain) b b'"
proof -
  note hold = after_hold_qEnqueue [where b = b and s = s and topic = topic and payload = payload and qos = qos and retain = retain]
  consider (off) "cl_state (bk_conn b c) \<noteq> stateConnected"
    | (big) "cl_state (bk_conn b c) = stateConnected" "too_large (bk_conn b c) topic payload qos"
    | (full) "cl_state (bk_conn b c) = stateConnected" "\<not> too_large (bk_conn b c) topic payload qos" "qos > 0"
        "window_full (bk_conn b c) s"
    using held unfolding held_back_def by blast
  then show ?thesis
  proof cases
    case off
    then have d: "deliver now c topic payload qos retain b = qEnqueue c topic payload qos retain b"
      by (simp add: deliver_cases)
    show ?thesis
      unfolding d by (rule hold) (simp_all add: s)
  next
    case big
    then have d: "deliver now c topic payload qos retain b =
        qEnqueue c topic payload qos retain (bk_count [Inc (DroppedTotal ''max_packet_size'')] b)"
      by (simp add: deliver_cases)
    show ?thesis
      unfolding d by (rule hold) (simp_all add: s)
  next
    case full
    obtain n where "reserve now c topic payload qos retain b = (Inr None, put_session c (s\<lparr>nextPktID := n\<rparr>) b)"
      by (rule reserve_run [OF s ident full(3), of now topic payload retain]) (use full(4) in \<open>simp add: window_full_def\<close>)
    note d = deliver_none [OF full(1,2) this]
    show ?thesis
      unfolding d by (rule hold [where ?s0.0 = "s\<lparr>nextPktID := n\<rparr>"]) (simp_all add: s)
  qed
qed

lemma deliver_sent:
  assumes s: "session_of c b = Some s" and ident: "ident \<noteq> 0" "GetOutFlight ident s = None"
    and sent: "\<not> held_back (bk_conn b c) s topic payload qos"
    and fits: "fits16 topic" "length topic + length payload + 5 \<le> MaxRemainingLength"
  shows "\<exists>b' pid frame. deliver now c topic payload qos retain b = (Inr (), b')
    \<and> (if qos = 0 then pid = 0 else pid \<noteq> 0 \<and> GetOutFlight pid s = None)
    \<and> encode_publish (cl_version (bk_conn b c)) topic payload qos retain pid False = Inr frame
    \<and> after_send c s (in_flight now pid topic payload qos retain) frame b b'"
proof -
  have c: "cl_state (bk_conn b c) = stateConnected" "\<not> too_large (bk_conn b c) topic payload qos"
    and w: "qos > 0 \<Longrightarrow> \<not> window_full (bk_conn b c) s"
    using sent unfolding held_back_def by blast+
  show ?thesis
  proof (cases "qos = 0")
    case True
    obtain frame where f: "encode_publish (cl_version (bk_conn b c)) topic payload qos retain 0 False = Inr frame"
      using fits by (rule encode_publish_total)
    have "reserve now c topic payload qos retain b = (Inr (Some 0), b)"
      by (simp add: reserve_def True)
    note d = deliver_some [OF c this f]
    have "after_send c s (in_flight now 0 topic payload qos retain) frame b (enqueue c frame b)"
      using s True by (simp add: after_send_def in_flight_def)
    with d f True show ?thesis
      by (intro exI [of _ "enqueue c frame b"] exI [of _ 0] exI [of _ frame]) simp
  next
    case False
    then have qos: "qos > 0"
      by (simp add: word_gt_0)
    obtain pid n where p: "pid \<noteq> 0" "GetOutFlight pid s = None" "reserve now c topic payload qos retain b =
       (Inr (Some pid), put_session c (s\<lparr>nextPktID := n,
               outFlight := AList.update pid (in_flight now pid topic payload qos retain) (outFlight s)\<rparr>) b)"
      by (rule reserve_run [OF s ident qos, of now topic payload retain]) (use w [OF qos] in \<open>simp add: window_full_def del: not_less\<close>)
    obtain frame where f: "encode_publish (cl_version (bk_conn b c)) topic payload qos retain pid False = Inr frame"
      using fits by (rule encode_publish_total)
    note d = deliver_some [OF c p(3) f]
    have "after_send c s (in_flight now pid topic payload qos retain) frame b (enqueue c frame
        (put_session c (s\<lparr>nextPktID := n,
               outFlight := AList.update pid (in_flight now pid topic payload qos retain) (outFlight s)\<rparr>) b))"
      using s False by (simp add: after_send_def in_flight_def) (simp add: enqueue_def)
    with d f p(1,2) False show ?thesis
      by (intro exI conjI) simp_all
  qed
qed

section \<open>The offline queue\<close>

text \<open>
  The messages can all be sent: the client is connected, none of them is too large, and the receive maximum,
  the write queue and the packet identifiers have room for them.
\<close>

definition can_drain :: "Broker \<Rightarrow> addr \<Rightarrow> Session \<Rightarrow> Queued list \<Rightarrow> bool" where
  "can_drain b c s msgs \<longleftrightarrow> session_of c b = Some s \<and> cl_state (bk_conn b c) = stateConnected
     \<and> (\<forall>m\<in>set msgs. \<not> too_large (bk_conn b c) (qd_Topic m) (qd_Payload m) (qd_QoS m) \<and> fits16 (qd_Topic m)
          \<and> length (qd_Topic m) + length (qd_Payload m) + 5 \<le> MaxRemainingLength)
     \<and> (receive_limit (bk_conn b c) = 0 \<or> tracked s + length msgs \<le> unat (receive_limit (bk_conn b c)))
     \<and> int (length (cl_writeQ (bk_conn b c)) + length msgs) \<le> bc_WriteQueueSize (cf_Broker (bk_cfg b))
     \<and> length (outFlight s) + length msgs < 65535"

definition sent_frame :: "byte \<Rightarrow> Queued \<Rightarrow> bytes \<Rightarrow> bool" where
  "sent_frame version m frame \<longleftrightarrow> (\<exists>pid. (qd_QoS m = 0 \<longleftrightarrow> pid = 0)
     \<and> encode_publish version (qd_Topic m) (qd_Payload m) (qd_QoS m) (qd_Retain m) pid False = Inr frame)"

lemma free_identifier:
  assumes "length (outFlight s) < 65535"
  obtains ident where "ident \<noteq> 0" "GetOutFlight ident s = None"
proof -
  have "card (fst ` set (outFlight s)) \<le> length (outFlight s)"
    using card_image_le [of "set (outFlight s)" fst] card_length [of "outFlight s"] by simp
  then have "card (insert 0 (fst ` set (outFlight s))) \<le> Suc (length (outFlight s))"
    by (simp add: card_insert_if)
  then have "card (insert 0 (fst ` set (outFlight s))) < CARD(16 word)"
    using assms by (simp add: card_word)
  then obtain ident where "ident \<notin> insert 0 (fst ` set (outFlight s))"
    by (metis UNIV_eq_I less_irrefl)
  then show thesis
    by (intro that [of ident]) (simp_all add: GetOutFlight_def map_of_eq_None_iff)
qed

lemma tracked_update:
  assumes "outFlight s' = (if x then outFlight s else AList.update pid m (outFlight s))"
  shows "tracked s' \<le> Suc (tracked s)" "length (outFlight s') \<le> Suc (length (outFlight s))"
  using assms filter_update_le [of "\<lambda>(_, m). if_QoS m > 0" pid m "outFlight s"]
    filter_update_le [of "\<lambda>_. True" pid m "outFlight s"]
  by (simp_all add: tracked_def)

lemma deliver_conn:
  assumes "deliver now c topic payload qos retain b = (r, b')"
  shows "(bk_conn b' c)\<lparr>cl_writeQ := []\<rparr> = (bk_conn b c)\<lparr>cl_writeQ := []\<rparr>" "bk_cfg b' = bk_cfg b" "bk_tasks b' = bk_tasks b"
proof -
  have bg: "background b' = background b"
    using keeps_view [OF deliver_background, of now c topic payload qos retain b] assms by simp
  show "(bk_conn b' c)\<lparr>cl_writeQ := []\<rparr> = (bk_conn b c)\<lparr>cl_writeQ := []\<rparr>" "bk_cfg b' = bk_cfg b" "bk_tasks b' = bk_tasks b"
    using arg_cong [OF bg, of "\<lambda>x. bk_conn x c"] arg_cong [OF bg, of bk_cfg] arg_cong [OF bg, of bk_tasks] by simp_all
qed

lemma can_drain_cong:
  "bk_conn b' c = bk_conn b c \<Longrightarrow> bk_sessions b' = bk_sessions b \<Longrightarrow> bk_cfg b' = bk_cfg b \<Longrightarrow>
   can_drain b' c s msgs = can_drain b c s msgs"
  by (simp add: can_drain_def session_of_def)

lemma drain_one:
  assumes d: "can_drain b c s (m # ms)"
  obtains b' s' frame where
    "deliver now c (qd_Topic m) (qd_Payload m) (qd_QoS m) (qd_Retain m) b = (Inr (), b')"
    "sent_frame (cl_version (bk_conn b c)) m frame" "cl_writeQ (bk_conn b' c) = cl_writeQ (bk_conn b c) @ [frame]"
    "cl_version (bk_conn b' c) = cl_version (bk_conn b c)" "can_drain b' c s' ms" "queue s' = queue s" "bk_tasks b' = bk_tasks b"
proof -
  note D = d [unfolded can_drain_def]
  have "length (outFlight s) < 65535"
    using D by simp
  then obtain ident where ident: "ident \<noteq> 0" "GetOutFlight ident s = None"
    by (rule free_identifier)
  have s: "session_of c b = Some s" and fits: "fits16 (qd_Topic m)" "length (qd_Topic m) + length (qd_Payload m) + 5 \<le> MaxRemainingLength"
    and w: "int (length (cl_writeQ (bk_conn b c))) < bc_WriteQueueSize (cf_Broker (bk_cfg b))"
    using D by auto
  have "\<not> held_back (bk_conn b c) s (qd_Topic m) (qd_Payload m) (qd_QoS m)"
    using D by (auto simp: held_back_def window_full_def)
  from deliver_sent [OF s ident this fits, of now "qd_Retain m"] obtain b' pid frame where
      run: "deliver now c (qd_Topic m) (qd_Payload m) (qd_QoS m) (qd_Retain m) b = (Inr (), b')"
    and pid: "if qd_QoS m = 0 then pid = 0 else pid \<noteq> 0 \<and> GetOutFlight pid s = None"
    and f: "encode_publish (cl_version (bk_conn b c)) (qd_Topic m) (qd_Payload m) (qd_QoS m) (qd_Retain m) pid False = Inr frame"
    and a: "after_send c s (in_flight now pid (qd_Topic m) (qd_Payload m) (qd_QoS m) (qd_Retain m)) frame b b'"
    by blast
  have wq: "cl_writeQ (bk_conn b' c) = cl_writeQ (bk_conn b c) @ [frame]"
    using a w D by (simp add: after_send_def enqueue_def)
  obtain s' where s': "session_of c b' = Some s'" "queue s' = queue s"
      "outFlight s' = (if qd_QoS m = 0 then outFlight s
         else AList.update pid (in_flight now pid (qd_Topic m) (qd_Payload m) (qd_QoS m) (qd_Retain m)) (outFlight s))"
    using a by (auto simp: after_send_def in_flight_def)
  note t = tracked_update [OF s'(3)]
  note c = deliver_conn [OF run]
  have cl: "cl_state (bk_conn b' c) = cl_state (bk_conn b c)" "cl_version (bk_conn b' c) = cl_version (bk_conn b c)"
      "receive_limit (bk_conn b' c) = receive_limit (bk_conn b c)"
      "too_large (bk_conn b' c) topic payload qos = too_large (bk_conn b c) topic payload qos" for topic payload qos
    using arg_cong [OF c(1), of cl_state] arg_cong [OF c(1), of cl_version] arg_cong [OF c(1), of cl_peerRecvMax]
      arg_cong [OF c(1), of cl_peerMaxPacketSize] by (simp_all add: receive_limit_def too_large_def)
  have "can_drain b' c s' ms"
    using D s'(1) t wq unfolding can_drain_def cl c(2) by auto
  moreover have "sent_frame (cl_version (bk_conn b c)) m frame"
    using pid f by (auto simp: sent_frame_def split: if_splits)
  ultimately show thesis
    using that run wq cl(2) s'(2) c(3) by blast
qed

lemma deliver_tasks:
  assumes "can_drain b c s msgs" "GoDeliver c msgs \<in> set (bk_tasks b)"
  shows "\<exists>b' frames. (step ex)\<^sup>*\<^sup>* b b' \<and> list_all2 (sent_frame (cl_version (bk_conn b c))) msgs frames
    \<and> cl_writeQ (bk_conn b' c) = cl_writeQ (bk_conn b c) @ frames \<and> (\<exists>s'. session_of c b' = Some s' \<and> queue s' = queue s)"
  using assms
proof (induction msgs arbitrary: b s)
  case Nil
  then show ?case
    by (intro exI [of _ b] exI [of _ "[]"]) (simp add: can_drain_def)
next
  case (Cons m ms)
  obtain i where i: "i < length (bk_tasks b)" "bk_tasks b ! i = GoDeliver c (m # ms)"
    using Cons.prems(2) by (auto simp: in_set_conv_nth)
  define b1 where "b1 = b\<lparr>bk_tasks := take i (bk_tasks b) @ drop (Suc i) (bk_tasks b)\<rparr>"
  have "can_drain b1 c s (m # ms)"
    using Cons.prems(1) can_drain_cong [of b1 c b s "m # ms"] by (simp add: b1_def)
  then obtain b2 s2 f where b2: "deliver 0 c (qd_Topic m) (qd_Payload m) (qd_QoS m) (qd_Retain m) b1 = (Inr (), b2)"
      "sent_frame (cl_version (bk_conn b1 c)) m f" "cl_writeQ (bk_conn b2 c) = cl_writeQ (bk_conn b1 c) @ [f]"
      "cl_version (bk_conn b2 c) = cl_version (bk_conn b1 c)" "can_drain b2 c s2 ms" "queue s2 = queue s"
    by (rule drain_one)
  define b3 where "b3 = spawn (GoDeliver c ms) (bk_count [Dec OfflineQueuedMessages] b2)"
  have "snd (run_task (\<lambda>_. None) 0 (bk_tasks b ! i) b1) = b3"
    using b2(1) by (simp add: run_task_def i(2) deliver_queued_def then_run b3_def)
  then have step: "step ex b b3"
    using step.task [OF i(1), of ex "\<lambda>_. None" 0] by (simp add: b1_def)
  have conn: "bk_conn b3 = bk_conn b2" "bk_conn b1 = bk_conn b"
    by (simp_all add: b3_def b1_def)
  have "can_drain b3 c s2 ms"
    using b2(5) can_drain_cong [of b3 c b2 s2 ms] by (simp add: b3_def)
  moreover have "GoDeliver c ms \<in> set (bk_tasks b3)"
    by (simp add: b3_def)
  ultimately obtain b' frames where b': "(step ex)\<^sup>*\<^sup>* b3 b'" "list_all2 (sent_frame (cl_version (bk_conn b3 c))) ms frames"
      "cl_writeQ (bk_conn b' c) = cl_writeQ (bk_conn b3 c) @ frames" "\<exists>s'. session_of c b' = Some s' \<and> queue s' = queue s2"
    using Cons.IH by blast
  have "(step ex)\<^sup>*\<^sup>* b b'"
    using step b'(1) by (rule converse_rtranclp_into_rtranclp)
  with b' b2(2-4,6) show ?case
    by (intro exI [of _ b'] exI [of _ "f # frames"]) (simp add: conn)
qed

section \<open>The end of a connection\<close>

text \<open>Whether the session ends with its connection, and the session when its connection has ended.\<close>

definition ends_with_connection :: "Session \<Rightarrow> bool" where
  "ends_with_connection s \<longleftrightarrow> ss_CleanSession s \<or> protocolLevel s = mqttProtoV50 \<and> sessionExpirySec s = 0"

definition parted :: "time \<Rightarrow> Session \<Rightarrow> Session" where
  "parted now s = fst (PrepareDisconnectExpiry now (SetConnected now False s))"

definition last_will :: "time \<Rightarrow> Session \<Rightarrow> Broker \<Rightarrow> Broker" where
  "last_will now s b = (if ss_WillSet s
     then snd (router_publish now (ss_WillTopic s) (ss_WillPayload s) (ss_WillQoS s) (ss_WillRetain s) b) else b)"

definition discarded :: "string \<Rightarrow> Session \<Rightarrow> Broker \<Rightarrow> Broker" where
  "discarded cid s b =
     (if ss_CleanSession s
      then bk_count [Dec ActiveSessions] ((upd_router (UnsubscribeAll cid) b)\<lparr>bk_sessions := Store_Delete cid (bk_sessions b)\<rparr>)
      else if ends_with_connection s then PurgePersistentSession cid b else b)"

lemma SetConnected_sel [simp]:
  "ss_CleanSession (SetConnected now x s) = ss_CleanSession s" "protocolLevel (SetConnected now x s) = protocolLevel s"
  "sessionExpirySec (SetConnected now x s) = sessionExpirySec s" "Session.connected (SetConnected now x s) = x"
  "ss_WillSet (SetConnected now x s) = ss_WillSet s" "ss_WillTopic (SetConnected now x s) = ss_WillTopic s"
  "ss_WillPayload (SetConnected now x s) = ss_WillPayload s" "ss_WillQoS (SetConnected now x s) = ss_WillQoS s"
  "ss_WillRetain (SetConnected now x s) = ss_WillRetain s"
  by (simp_all add: SetConnected_def Let_def)

lemma parted_sel [simp]:
  "ss_CleanSession (parted now s) = ss_CleanSession s" "Session.connected (parted now s) = False"
  "ss_WillSet (parted now s) = ss_WillSet s" "ss_WillTopic (parted now s) = ss_WillTopic s"
  "ss_WillPayload (parted now s) = ss_WillPayload s" "ss_WillQoS (parted now s) = ss_WillQoS s"
  "ss_WillRetain (parted now s) = ss_WillRetain s"
  by (simp_all add: parted_def PrepareDisconnectExpiry_def)

lemma put_session_twice [simp]: "put_session c y (put_session c x b) = put_session c y b"
  by (simp add: put_session_def split: option.split)

lemma session_of_cong:
  "bk_conn b' c = bk_conn b c \<Longrightarrow> st_heap (bk_sessions b') = st_heap (bk_sessions b) \<Longrightarrow> session_of c b' = session_of c b"
  by (simp add: session_of_def)

lemma discarded_sel [simp]:
  "bk_conn (discarded cid s b) = bk_conn b" "bk_clients (discarded cid s b) = bk_clients b"
  "st_heap (bk_sessions (discarded cid s b)) = st_heap (bk_sessions b)"
  "Store_Get x (bk_sessions (discarded cid s b)) =
     (if ends_with_connection s \<and> x = cid then None else Store_Get x (bk_sessions b))"
  "bk_router (discarded cid s b) = (if ends_with_connection s then UnsubscribeAll cid (bk_router b) else bk_router b)"
  by (simp_all add: discarded_def PurgePersistentSession_def Let_def Store_Delete_def Store_Get_def
      ends_with_connection_def delete_conv' )

lemma last_will_background:
  "background (last_will now s b) = (background b)\<lparr>bk_router := (if ss_WillSet s
     then fst (Publish now (ss_WillTopic s) (ss_WillPayload s) (ss_WillQoS s) (ss_WillRetain s) (bk_router b)) else bk_router b)\<rparr>"
  by (simp add: last_will_def router_publish_background)

lemma close_session_run:
  assumes "session_of c b = Some s"
  shows "snd (close_session now c cid b) = last_will now s (discarded cid s (put_session c (parted now s) b))"
proof -
  let ?b = "put_session c (parted now s) b"
  have d: "session_of c (discarded cid s ?b) = Some (parted now s)"
    using assms session_of_cong [of "discarded cid s ?b" c ?b] by simp
  have p: "snd (PrepareDisconnectExpiry now (SetConnected now False s)) \<longleftrightarrow> \<not> ss_CleanSession s \<and> ends_with_connection s"
    by (auto simp: PrepareDisconnectExpiry_def ends_with_connection_def)
  have clean: "ss_CleanSession s \<Longrightarrow> parted now s = SetConnected now False s"
    by (simp add: parted_def PrepareDisconnectExpiry_def)
  have "close_session now c cid b = bindM (the_session c) (\<lambda>s.
         if ss_WillSet s
         then thenM (router_publish now (ss_WillTopic s) (ss_WillPayload s) (ss_WillQoS s) (ss_WillRetain s)) (ret ())
         else ret ()) (discarded cid s ?b)"
  proof (cases "ss_CleanSession s")
    case True
    with assms clean show ?thesis
      by (simp add: close_session_def upd_session_def the_session_def bind_run then_run on_session_run discarded_def Let_def)
  next
    case False
    with assms p show ?thesis
      by (cases "ends_with_connection s")
        (simp_all add: close_session_def upd_session_def the_session_def bind_run then_run on_session_run discarded_def
          parted_def Let_def)
  qed
  with d show ?thesis
    by (simp add: the_session_def bind_run on_session_run then_run last_will_def split: sum.split)
qed

definition closed_client :: "Client \<Rightarrow> Client" where
  "closed_client cl = cl\<lparr>cl_state := stateClosed, cl_connClosed := True, cl_cleaned := True\<rparr>"

lemma cleanup_run:
  assumes "session_of c b = Some s" "\<not> cl_cleaned (bk_conn b c)" "cl_clientID (bk_conn b c) = cid" "cid \<noteq> []"
  shows "background (snd (cleanup now c b)) = background (last_will now s (discarded cid s (put_session c (parted now s)
           (spawn (GoUnregister cid) (unregister cid (upd_client c closed_client b))))))"
proof -
  define b1 where "b1 = spawn (GoUnregister cid) (unregister cid (upd_client c closed_client b))"
  have "cl_sess (bk_conn b c) \<noteq> None"
    using assms(1) by (cases "cl_sess (bk_conn b c)") (simp_all add: session_of_def)
  moreover have "session_of c b1 = Some s"
    using assms(1) by (simp add: b1_def session_of_def closed_client_def)
  ultimately show ?thesis
    unfolding b1_def [symmetric] using assms(2-4)
    by (auto simp: cleanup_def bind_run then_run closed_client_def [abs_def] b1_def [unfolded closed_client_def [abs_def], symmetric]
        close_session_run split: sum.split)
qed

section \<open>Taken-over connections\<close>

text \<open>The connection that is taken over keeps its client identifier and, if it is clean, its own session.\<close>

lemma accept_connect_old:
  assumes wf: "wf_broker b" and old: "GetClient cid b = Some c" "c \<noteq> d" and s: "session_of c b = Some s"
    and clean: "cp_CleanSession pkt" and run: "accept_connect now d cid pkt b = (r, b')"
  shows "session_of c b' = Some (s\<lparr>ss_WillSet := False\<rparr>)" "cl_cleaned (bk_conn b' c) = cl_cleaned (bk_conn b c)"
    "cl_clientID (bk_conn b' c) = cl_clientID (bk_conn b c)"
proof -
  define b0 where "b0 = upd_client c (\<lambda>cl. cl\<lparr>cl_connClosed := True\<rparr>) (put_session c (s\<lparr>ss_WillSet := False\<rparr>) b)"
  have t: "takeover cid b = (Inr (), b0)"
    by (simp add: b0_def takeover_def bind_run then_run old upd_session_def on_session_run s)
  have wf0: "wf_broker b0"
    using takeover_run [OF wf, of cid] t by auto
  have s0: "session_of c b0 = Some (s\<lparr>ss_WillSet := False\<rparr>)"
    using s by (simp add: b0_def session_of_def) (auto simp: put_session_def split: bind_splits)
  obtain st a present where g: "GetOrCreate now cid (cp_CleanSession pkt) (bk_sessions b0) = (st, a, present)"
    by (rule prod_cases3)
  have post: "get_or_create_post now cid (cp_CleanSession pkt) (bk_sessions b0) st a present"
    using wf0 g by (intro GetOrCreate_post) (simp_all add: wf_broker_def)
  then obtain s' where s': "st_heap st a = Some s'" "st_heap (bk_sessions b0) a = None"
      "\<And>x. x \<noteq> a \<Longrightarrow> st_heap st x = st_heap (bk_sessions b0) x"
    using clean by (auto simp: get_or_create_post_def)
  define b2 where "b2 = upd_client d (\<lambda>cl. cl\<lparr>cl_sess := Some a\<rparr>) (b0\<lparr>bk_sessions := st\<rparr>)"
  have s2: "session_of d b2 = Some s'"
    using s'(1) by (simp add: b2_def session_of_def)
  obtain ac where ac: "cl_sess (bk_conn b0 c) = Some ac" "st_heap (bk_sessions b0) ac = Some (s\<lparr>ss_WillSet := False\<rparr>)"
    using s0 by (auto simp: session_of_def split: bind_splits)
  then have "ac \<noteq> a"
    using s'(2) by auto
  obtain b1 where o: "open_session now d cid pkt b = (Inr present, b1)"
      and b1: "bk_conn b1 c = bk_conn b0 c" "st_heap (bk_sessions b1) ac = st_heap (bk_sessions b0) ac"
    using old(2) \<open>ac \<noteq> a\<close> s'(3) [of ac]
    by (simp add: open_session_def then_run bind_run t g upd_session_def on_session_run s2 b2_def [symmetric])
      (simp add: b2_def put_session_def)
  obtain data where "sendConnack d present b1 = (Inr (), enqueue d data b1)"
    using sendConnack_run by blast
  then have "b' = spawn (GoDrain d) (enqueue d data b1)"
    using run clean by (simp add: accept_connect_def bind_run then_run o)
  then have "bk_conn b' c = bk_conn b1 c" "bk_sessions b' = bk_sessions b1"
    using old(2) by (simp_all add: enqueue_def)
  moreover have "cl_cleaned (bk_conn b0 c) = cl_cleaned (bk_conn b c)" "cl_clientID (bk_conn b0 c) = cl_clientID (bk_conn b c)"
    by (simp_all add: b0_def)
  ultimately show "session_of c b' = Some (s\<lparr>ss_WillSet := False\<rparr>)" "cl_cleaned (bk_conn b' c) = cl_cleaned (bk_conn b c)"
    "cl_clientID (bk_conn b' c) = cl_clientID (bk_conn b c)"
    using b1 ac by (simp_all add: session_of_def)
qed

section \<open>The sweep of expired sessions\<close>

lemma PurgePersistentSession_sel [simp]:
  "st_heap (bk_sessions (PurgePersistentSession cid b)) = st_heap (bk_sessions b)"
  "Store_Get x (bk_sessions (PurgePersistentSession cid b)) = (if x = cid then None else Store_Get x (bk_sessions b))"
  "bk_router (PurgePersistentSession cid b) = UnsubscribeAll cid (bk_router b)"
  "bk_conn (PurgePersistentSession cid b) = bk_conn b" "bk_clients (PurgePersistentSession cid b) = bk_clients b"
  by (simp_all add: PurgePersistentSession_def Let_def Store_Delete_def Store_Get_def delete_conv')

definition sweep_step :: "time \<Rightarrow> addr \<Rightarrow> Broker \<Rightarrow> Broker" where
  "sweep_step now a b = (case st_heap (bk_sessions b) a of
     Some s \<Rightarrow> if ShouldExpireDisconnected now s then PurgePersistentSession (ss_ClientID s) b else b
   | None \<Rightarrow> b)"

definition expired_at :: "time \<Rightarrow> Store \<Rightarrow> addr \<Rightarrow> string \<Rightarrow> bool" where
  "expired_at now st a cid \<longleftrightarrow> (\<exists>s. st_heap st a = Some s \<and> ShouldExpireDisconnected now s \<and> ss_ClientID s = cid)"

lemma sweep_step_sel:
  assumes "wf_router (bk_router b)"
  shows "st_heap (bk_sessions (sweep_step now a b)) = st_heap (bk_sessions b)"
    "Store_Get x (bk_sessions (sweep_step now a b)) = (if expired_at now (bk_sessions b) a x then None else Store_Get x (bk_sessions b))"
    "router_lookup (bk_router (sweep_step now a b)) flt x =
       (if expired_at now (bk_sessions b) a x then None else router_lookup (bk_router b) flt x)"
    "wf_router (bk_router (sweep_step now a b))" "bk_conn (sweep_step now a b) = bk_conn b"
    "bk_clients (sweep_step now a b) = bk_clients b"
  using assms
  by (auto simp: sweep_step_def expired_at_def lookup_UnsubscribeAll wf_UnsubscribeAll split: option.split)

lemma sweep_fold:
  assumes "wf_router (bk_router b)"
  shows "Store_Get x (bk_sessions (fold (sweep_step now) as b)) =
      (if \<exists>a\<in>set as. expired_at now (bk_sessions b) a x then None else Store_Get x (bk_sessions b))
    \<and> router_lookup (bk_router (fold (sweep_step now) as b)) flt x =
      (if \<exists>a\<in>set as. expired_at now (bk_sessions b) a x then None else router_lookup (bk_router b) flt x)
    \<and> bk_conn (fold (sweep_step now) as b) = bk_conn b \<and> bk_clients (fold (sweep_step now) as b) = bk_clients b"
  using assms
proof (induction as arbitrary: b)
  case (Cons a as)
  note step = sweep_step_sel [OF Cons.prems, where now = now and a = a]
  have "expired_at now (bk_sessions (sweep_step now a b)) a' x = expired_at now (bk_sessions b) a' x" for a'
    by (simp add: expired_at_def step(1))
  with Cons.IH [OF step(4)] step show ?case
    by simp
qed simp

section \<open>Properties\<close>

lemma cleanup_parts:
  assumes "session_of c b = Some s" "\<not> cl_cleaned (bk_conn b c)" "cl_clientID (bk_conn b c) = cid" "cid \<noteq> []"
    and run: "cleanup now c b = (r, b')"
  shows "cl_state (bk_conn b' d) = (if d = c then stateClosed else cl_state (bk_conn b d))"
    "GetClient x b' = (if x = cid then None else GetClient x b)"
    "Store_Get x (bk_sessions b') = (if ends_with_connection s \<and> x = cid then None else Store_Get x (bk_sessions b))"
    "bk_router b' = (let rt = if ends_with_connection s then UnsubscribeAll cid (bk_router b) else bk_router b
       in if ss_WillSet s then fst (Publish now (ss_WillTopic s) (ss_WillPayload s) (ss_WillQoS s) (ss_WillRetain s) rt) else rt)"
proof -
  let ?b1 = "put_session c (parted now s) (spawn (GoUnregister cid) (unregister cid (upd_client c closed_client b)))"
  have bg: "background b' = background (last_will now s (discarded cid s ?b1))"
    using cleanup_run [OF assms(1-4), of now] run by simp
  show "cl_state (bk_conn b' d) = (if d = c then stateClosed else cl_state (bk_conn b d))"
    using arg_cong [OF bg, of "\<lambda>x. cl_state (bk_conn x d)"] by (simp add: last_will_background closed_client_def)
  show "GetClient x b' = (if x = cid then None else GetClient x b)"
    using arg_cong [OF bg, of bk_clients] by (simp add: last_will_background GetClient_def delete_conv')
  have "st_data (bk_sessions b') = st_data (bk_sessions (discarded cid s ?b1))"
    using arg_cong [OF bg, of "\<lambda>x. st_data (bk_sessions x)"] by (simp add: last_will_background)
  then have "Store_Get x (bk_sessions b') = Store_Get x (bk_sessions (discarded cid s ?b1))"
    by (simp add: Store_Get_def)
  then show "Store_Get x (bk_sessions b') = (if ends_with_connection s \<and> x = cid then None else Store_Get x (bk_sessions b))"
    by (simp only: discarded_sel) (simp add: Store_Get_def)
  show "bk_router b' = (let rt = if ends_with_connection s then UnsubscribeAll cid (bk_router b) else bk_router b
       in if ss_WillSet s then fst (Publish now (ss_WillTopic s) (ss_WillPayload s) (ss_WillQoS s) (ss_WillRetain s) rt) else rt)"
    using arg_cong [OF bg, of bk_router] by (simp add: last_will_background Let_def)
qed

text \<open>
  C10: the end of a connection. The client leaves the registry and its connection is closed; its session is discarded
  with all its subscriptions exactly if it is a clean session or an MQTT 5 session with no expiry interval,
  and kept with them otherwise; no other session and no other client's subscription is touched. The
  will is published exactly if one is set, after the subscriptions were removed.
\<close>

theorem cleanup_effect:
  assumes "wf_broker b" "session_of c b = Some s" "\<not> cl_cleaned (bk_conn b c)"
    and "cl_clientID (bk_conn b c) = cid" "cid \<noteq> []" "cleanup now c b = (r, b')"
  shows "cl_state (bk_conn b' c) = stateClosed
    \<and> GetClient x b' = (if x = cid then None else GetClient x b)
    \<and> Store_Get x (bk_sessions b') = (if ends_with_connection s \<and> x = cid then None else Store_Get x (bk_sessions b))
    \<and> router_lookup (bk_router b') flt x =
         (if ends_with_connection s \<and> x = cid then None else router_lookup (bk_router b) flt x)
    \<and> bk_router b' = (let rt = if ends_with_connection s then UnsubscribeAll cid (bk_router b) else bk_router b
        in if ss_WillSet s then fst (Publish now (ss_WillTopic s) (ss_WillPayload s) (ss_WillQoS s) (ss_WillRetain s) rt) else rt)"
proof -
  note parts = cleanup_parts [OF assms(2-6)]
  let ?rt = "if ends_with_connection s then UnsubscribeAll cid (bk_router b) else bk_router b"
  have wf: "wf_router (bk_router b)" "wf_router ?rt"
    using assms(1) by (auto simp: wf_broker_def intro: wf_UnsubscribeAll)
  obtain r1 ds n where p: "Publish now (ss_WillTopic s) (ss_WillPayload s) (ss_WillQoS s) (ss_WillRetain s) ?rt = (r1, ds, n)"
    by (rule prod_cases3)
  have "router_lookup (bk_router b') flt x = router_lookup ?rt flt x"
    unfolding parts(4) Let_def using Publish_lookup [OF wf(2) p] p by (cases "ss_WillSet s") (simp_all del: if_split)
  also have "\<dots> = (if ends_with_connection s \<and> x = cid then None else router_lookup (bk_router b) flt x)"
    using wf(1) by (simp add: lookup_UnsubscribeAll)
  finally show ?thesis
    using parts(1) [of c] parts(2) [of x] parts(3) [of x] parts(4) by simp
qed

theorem cleanup_effect_witness:
  "let b' = snd (cleanup 5 0 one_client)
   in cl_state (bk_conn b' 0) = stateClosed \<and> GetClient ''a'' b' = None \<and> Store_Get ''a'' (bk_sessions b') = None"
proof -
  have e: "ends_with_connection (Session_New 0 ''a'' True)"
    by (simp add: ends_with_connection_def Session_New_def)
  have c: "\<not> cl_cleaned (bk_conn one_client 0)"
    by (simp add: one_client_def one_connection_eq newClient_def blank_client_def)
  obtain r b' where "cleanup 5 0 one_client = (r, b')"
    by fastforce
  with cleanup_effect [OF wf_one_client one_client_sel(1) c one_client_sel(3) _ this, of "''a''" "''t''"] e show ?thesis
    by (simp add: Let_def)
qed

text \<open>
  C12: a client that reconnects loses its new connection to the end of the old one. The CONNECT packet of the
  second connection succeeds and registers it under the client's identifier; when the read loop of the
  first connection then ends, its cleanup removes the registration, the session in the store and every subscription of
  that identifier, which by then are those of the second connection, although that connection is still open.
\<close>

theorem takeover_race:
  assumes "wf_broker b" "GetClient cid b = Some c" "c \<noteq> d" "cid \<noteq> []"
    and "cl_clientID (bk_conn b c) = cid" "cl_clientID (bk_conn b d) = cid" "\<not> cl_cleaned (bk_conn b c)"
    and "session_of c b = Some s" "ss_CleanSession s" "cp_CleanSession pkt"
  shows "\<exists>b1 r b2. accept_connect now d cid pkt b = (Inr (), b1)
    \<and> GetClient cid b1 = Some d \<and> Store_Get cid (bk_sessions b1) = cl_sess (bk_conn b1 d)
    \<and> cleanup now' c b1 = (r, b2)
    \<and> GetClient cid b2 = None \<and> Store_Get cid (bk_sessions b2) = None \<and> cl_state (bk_conn b2 d) = stateConnected"
proof -
  obtain b1 where run: "accept_connect now d cid pkt b = (Inr (), b1)"
    and o: "opened d (cl_username (bk_conn b d)) cid pkt now (bk_sessions b) b1"
    using accept_connect_run [OF assms(1,6)] by blast
  have old: "session_of c b1 = Some (s\<lparr>ss_WillSet := False\<rparr>)" "\<not> cl_cleaned (bk_conn b1 c)" "cl_clientID (bk_conn b1 c) = cid"
    using accept_connect_old [OF assms(1-3,8,10) run] assms(5,7) by simp_all
  obtain r b2 where cl: "cleanup now' c b1 = (r, b2)"
    by fastforce
  have e: "ends_with_connection (s\<lparr>ss_WillSet := False\<rparr>)"
    using assms(9) by (simp add: ends_with_connection_def)
  note parts = cleanup_parts [OF old assms(4) cl]
  have "GetClient cid b1 = Some d" "Store_Get cid (bk_sessions b1) = cl_sess (bk_conn b1 d)" "cl_state (bk_conn b1 d) = stateConnected"
    using o by (auto simp: opened_def)
  moreover have "GetClient cid b2 = None" "Store_Get cid (bk_sessions b2) = None" "cl_state (bk_conn b2 d) = cl_state (bk_conn b1 d)"
    using parts(1) [of d] parts(2) [of cid] parts(3) [of cid] e assms(3) by auto
  ultimately show ?thesis
    using run cl by auto
qed

text \<open>A second connection of the client of the sample state, past its authentication.\<close>

definition second_connection :: Broker where
  "second_connection = upd_client 1 (\<lambda>cl. cl\<lparr>cl_clientID := ''a''\<rparr>) one_client"

theorem takeover_race_witness:
  "\<exists>b1 r b2. accept_connect 7 1 ''a'' (empty_ConnectPacket\<lparr>cp_CleanSession := True\<rparr>) second_connection = (Inr (), b1)
    \<and> GetClient ''a'' b1 = Some 1 \<and> cleanup 8 0 b1 = (r, b2)
    \<and> GetClient ''a'' b2 = None \<and> cl_state (bk_conn b2 1) = stateConnected"
proof -
  let ?pkt = "empty_ConnectPacket\<lparr>cp_CleanSession := True\<rparr>"
  have "harmless (\<lambda>cl. cl\<lparr>cl_clientID := ''a''\<rparr>)"
    by (simp add: harmless_def)
  then have "binv (fixed one_client) {} second_connection"
    unfolding second_connection_def using wf_one_client by (intro inv_harmless) (simp_all add: inv_empty)
  then have wf: "wf_broker second_connection"
    by (rule inv_wf)
  have c: "GetClient ''a'' second_connection = Some 0" "cl_clientID (bk_conn second_connection 0) = ''a''"
      "cl_clientID (bk_conn second_connection 1) = ''a''" "session_of 0 second_connection = Some (Session_New 0 ''a'' True)"
    by (simp_all add: second_connection_def GetClient_def one_client_conn session_of_def)
  have n: "\<not> cl_cleaned (bk_conn second_connection 0)"
    by (simp add: second_connection_def one_client_def one_connection_eq newClient_def blank_client_def)
  have p: "ss_CleanSession (Session_New 0 ''a'' True)" "cp_CleanSession ?pkt"
    by (simp_all add: Session_New_def)
  have "(0 :: addr) \<noteq> 1" "''a'' \<noteq> []"
    by simp_all
  from takeover_race [OF wf c(1) this c(2,3) n c(4) p, where now = 7 and now' = 8] show ?thesis
    by blast
qed



text \<open>
  C17: the sweep removes exactly the sessions whose expiry interval has passed since their client disconnected, with
  their subscriptions; every other session, every other client's subscriptions and all connections stay.
\<close>

theorem sweep_expired:
  assumes "wf_broker b"
  shows "let gone = (\<exists>a s. Store_Get x (bk_sessions b) = Some a \<and> st_heap (bk_sessions b) a = Some s \<and> ShouldExpireDisconnected now s);
             b' = sweep_sessions now b
    in Store_Get x (bk_sessions b') = (if gone then None else Store_Get x (bk_sessions b))
       \<and> router_lookup (bk_router b') flt x = (if gone then None else router_lookup (bk_router b) flt x)
       \<and> bk_conn b' = bk_conn b \<and> bk_clients b' = bk_clients b"
proof -
  let ?st = "bk_sessions b"
  have wf: "wf_router (bk_router b)" "wf_store ?st"
    using assms by (simp_all add: wf_broker_def)
  have "sweep_sessions now b = fold (sweep_step now) (Store_Each ?st) b"
    by (simp add: sweep_sessions_def sweep_step_def [abs_def])
  moreover have "(\<exists>a\<in>set (Store_Each ?st). expired_at now ?st a x)
      \<longleftrightarrow> (\<exists>a s. Store_Get x ?st = Some a \<and> st_heap ?st a = Some s \<and> ShouldExpireDisconnected now s)"
  proof
    assume "\<exists>a\<in>set (Store_Each ?st). expired_at now ?st a x"
    then obtain cid a s where a: "(cid, a) \<in> set (st_data ?st)" "st_heap ?st a = Some s" "ShouldExpireDisconnected now s" "ss_ClientID s = x"
      by (auto simp: Store_Each_def expired_at_def)
    then have "map_of (st_data ?st) cid = Some a"
      using wf(2) by (simp add: wf_store_def wf_map_def)
    moreover from this a(2,4) wf(2) have "cid = x"
      by (fastforce simp: wf_store_def)
    ultimately have "Store_Get x ?st = Some a"
      by (simp add: Store_Get_def)
    with a show "\<exists>a s. Store_Get x ?st = Some a \<and> st_heap ?st a = Some s \<and> ShouldExpireDisconnected now s"
      by blast
  next
    assume "\<exists>a s. Store_Get x ?st = Some a \<and> st_heap ?st a = Some s \<and> ShouldExpireDisconnected now s"
    then obtain a s where a: "map_of (st_data ?st) x = Some a" "st_heap ?st a = Some s" "ShouldExpireDisconnected now s"
      by (auto simp: Store_Get_def)
    moreover from a(1,2) wf(2) have "ss_ClientID s = x"
      by (fastforce simp: wf_store_def)
    moreover from a(1) have "a \<in> set (Store_Each ?st)"
      by (auto simp: Store_Each_def dest: map_of_SomeD intro: rev_image_eqI)
    ultimately show "\<exists>a\<in>set (Store_Each ?st). expired_at now ?st a x"
      by (auto simp: expired_at_def)
  qed
  ultimately show ?thesis
    using sweep_fold [OF wf(1), of x now "Store_Each ?st" flt] by (simp add: Let_def)
qed

text \<open>The sample client, disconnected with a persistent session that expires at time 10.\<close>

definition leaving_client :: Broker where
  "leaving_client = one_client\<lparr>bk_sessions := \<lparr>st_data = [(''a'', 0)],
     st_heap = [0 \<mapsto> (Session_New 0 ''a'' False)\<lparr>disconnectExpireAt := Some 10\<rparr>], st_next = 1\<rparr>\<rparr>"

lemma leaving_client_sel:
  "bk_conn leaving_client = bk_conn one_client" "bk_clients leaving_client = bk_clients one_client"
  "bk_router leaving_client = bk_router one_client" "bk_connSem leaving_client = bk_connSem one_client"
  "bk_nextConn leaving_client = bk_nextConn one_client" "bk_cfg leaving_client = bk_cfg one_client"
  "bk_sessions leaving_client = \<lparr>st_data = [(''a'', 0)],
     st_heap = [0 \<mapsto> (Session_New 0 ''a'' False)\<lparr>disconnectExpireAt := Some 10\<rparr>], st_next = 1\<rparr>"
  by (simp_all add: leaving_client_def)

lemma wf_leaving_client: "wf_broker leaving_client"
proof -
  have "wf_slots leaving_client"
    by (simp add: wf_slots_def one_client_conn leaving_client_sel)
  moreover have "wf_conn leaving_client c" for c
    by (cases "c = 0") (simp_all add: wf_conn_def one_client_conn leaving_client_sel needs_session_def queue_ok_def)
  moreover have "wf_session ((Session_New 0 ''a'' False)\<lparr>disconnectExpireAt := Some 10\<rparr>)"
    by (simp add: wf_session_def Session_New_def defaultMaxQueue_def)
  then have "wf_store (bk_sessions leaving_client)" "wf_map (bk_clients leaving_client)"
    by (simp_all add: wf_store_def wf_map_def leaving_client_sel one_client_conn Session_New_def)
  ultimately show ?thesis
    by (simp add: wf_broker_def one_client_conn leaving_client_sel)
qed

theorem sweep_expired_witness:
  "Store_Get ''a'' (bk_sessions (sweep_sessions 9 leaving_client)) = Some 0
   \<and> Store_Get ''a'' (bk_sessions (sweep_sessions 10 leaving_client)) = None"
  using sweep_expired [OF wf_leaving_client, of "''a''" 9] sweep_expired [OF wf_leaving_client, of "''a''" 10]
  by (simp add: leaving_client_sel Store_Get_def ShouldExpireDisconnected_def Session_New_def Let_def)


text \<open>The sample client, back with a persistent session that holds a message.\<close>

definition returning_client :: Broker where
  "returning_client = one_client\<lparr>bk_tasks := [GoDrain 0], bk_sessions := \<lparr>st_data = [(''a'', 0)],
     st_heap = [0 \<mapsto> (Session_New 0 ''a'' False)\<lparr>queue := [queued ''t'' [1, 2] 0 False]\<rparr>], st_next = 1\<rparr>\<rparr>"




end
