(* ===== verification/Json.thy ===== *)
theory Json
  imports Config
begin

text \<open>
  The parts of Go's standard library that the HTTP interface uses: JSON values and how \<open>encoding/json\<close>
  stores them in the fields of a struct, \<open>fmt.Sscanf\<close> with \<open>%d\<close>, \<open>net.SplitHostPort\<close> and base64. A JSON text is
  represented by the value it denotes; a number keeps its literal.
\<close>

section \<open>JSON values\<close>

datatype json =
    JNull
  | JBool bool
  | JNum string
  | JStr string
  | JArr "json list"
  | JObj "(string \<times> json) list"

abbreviation JInt :: "int \<Rightarrow> json" where
  "JInt i \<equiv> JNum (Itoa i)"

abbreviation JByte :: "byte \<Rightarrow> json" where
  "JByte x \<equiv> JInt (uint x)"

section \<open>Decoding into a struct\<close>

text \<open>
  \<open>foldName\<close> of \<open>encoding/json\<close>, on the characters that fold to ASCII: the letters, and the long s and the
  Kelvin sign in UTF-8.
\<close>

definition upper_char :: "char \<Rightarrow> char" where
  "upper_char c = (let n = of_char c :: nat in if 97 \<le> n \<and> n \<le> 122 then char_of (n - 32) else c)"

function foldName :: "string \<Rightarrow> string" where
  "foldName s =
     (if s = [] then []
      else if take 2 s = [CHR 0xC5, CHR 0xBF] then CHR ''S'' # foldName (drop 2 s)
      else if take 3 s = [CHR 0xE2, CHR 0x84, CHR 0xAA] then CHR ''K'' # foldName (drop 3 s)
      else upper_char (hd s) # foldName (tl s))"
  by pat_completeness auto
termination
  by (relation "measure length") auto

declare foldName.simps [simp del]

text \<open>A key denotes the field with exactly that name, or else the first whose name folds to the same.\<close>

definition field_of :: "string list \<Rightarrow> string \<Rightarrow> string option" where
  "field_of names key = (if key \<in> set names then Some key else find (\<lambda>n. foldName n = foldName key) names)"

text \<open>
  The value of a field, given its old one; \<^const>\<open>None\<close> is a type error. A \<open>null\<close> leaves strings, booleans
  and numbers as they are and empties slices and maps.
\<close>

definition as_string :: "json \<Rightarrow> string \<Rightarrow> string option" where
  "as_string v old = (case v of JStr s \<Rightarrow> Some s | JNull \<Rightarrow> Some old | _ \<Rightarrow> None)"

definition as_bool :: "json \<Rightarrow> bool \<Rightarrow> bool option" where
  "as_bool v old = (case v of JBool x \<Rightarrow> Some x | JNull \<Rightarrow> Some old | _ \<Rightarrow> None)"

definition as_byte :: "json \<Rightarrow> byte \<Rightarrow> byte option" where
  "as_byte v old =
     (case v of
        JNum lit \<Rightarrow> (if lit = [] then None else case digits_value 0 lit of
           Some n \<Rightarrow> if n < 256 then Some (of_nat n) else None
         | None \<Rightarrow> None)
      | JNull \<Rightarrow> Some old
      | _ \<Rightarrow> None)"

fun as_elems :: "json list \<Rightarrow> string list \<Rightarrow> string list option" where
  "as_elems [] old = Some []"
| "as_elems (v # vs) old =
     (case as_string v (case old of [] \<Rightarrow> [] | x # _ \<Rightarrow> x) of
        None \<Rightarrow> None
      | Some s \<Rightarrow> map_option (Cons s) (as_elems vs (case old of [] \<Rightarrow> [] | _ # xs \<Rightarrow> xs)))"

definition as_strings :: "json \<Rightarrow> string list \<Rightarrow> string list option" where
  "as_strings v old = (case v of JArr vs \<Rightarrow> as_elems vs old | JNull \<Rightarrow> Some [] | _ \<Rightarrow> None)"

text \<open>
  Whether a value can be stored in an \<open>interface{}\<close>: its numbers must be in the range of \<open>float64\<close>;
  \<open>ParseFloat\<close> stands for \<open>strconv.ParseFloat\<close>.
\<close>

fun any_ok :: "(string \<Rightarrow> rat option) \<Rightarrow> json \<Rightarrow> bool" where
  "any_ok ParseFloat (JNum lit) = (ParseFloat lit \<noteq> None)"
| "any_ok ParseFloat (JArr vs) = list_all (any_ok ParseFloat) vs"
| "any_ok ParseFloat (JObj ms) = list_all (\<lambda>p. any_ok ParseFloat (snd p)) ms"
| "any_ok ParseFloat v = True"

definition as_map :: "(string \<Rightarrow> rat option) \<Rightarrow> json \<Rightarrow> (string, json) gomap \<Rightarrow> (string, json) gomap option" where
  "as_map ParseFloat v old =
     (case v of
        JObj ms \<Rightarrow> (if any_ok ParseFloat v then Some (fold (\<lambda>(k, x). AList.update k x) ms old) else None)
      | JNull \<Rightarrow> Some []
      | _ \<Rightarrow> None)"

fun decode_members :: "string list \<Rightarrow> (string \<Rightarrow> json \<Rightarrow> 'r \<Rightarrow> 'r option) \<Rightarrow> (string \<times> json) list \<Rightarrow> 'r \<Rightarrow> 'r option" where
  "decode_members names set_field [] r = Some r"
| "decode_members names set_field ((k, v) # ms) r =
     (case field_of names k of
        None \<Rightarrow> decode_members names set_field ms r
      | Some n \<Rightarrow> Option.bind (set_field n v r) (decode_members names set_field ms))"

text \<open>\<open>Decode\<close> into a struct that holds zero values; \<^const>\<open>None\<close> as argument is a text that is not JSON.\<close>

definition decode_struct :: "string list \<Rightarrow> (string \<Rightarrow> json \<Rightarrow> 'r \<Rightarrow> 'r option) \<Rightarrow> 'r \<Rightarrow> json option \<Rightarrow> 'r option" where
  "decode_struct names set_field zero body =
     (case body of
        Some (JObj ms) \<Rightarrow> decode_members names set_field ms zero
      | Some JNull \<Rightarrow> Some zero
      | _ \<Rightarrow> None)"

section \<open>Scanning integers\<close>

text \<open>
  \<open>fmt.Sscanf(v, "%d", &n)\<close> for an \<open>n\<close> that is 0: blanks, a sign and digits; a newline, a missing digit or an overflow leave
  it 0. The text is ASCII.
\<close>

definition is_digit :: "char \<Rightarrow> bool" where
  "is_digit c = (let n = of_char c :: nat in 48 \<le> n \<and> n \<le> 57)"

definition Sscanf_d :: "string \<Rightarrow> int" where
  "Sscanf_d v =
     (let s = dropWhile is_space v;
          sign = (case s of c # _ \<Rightarrow> if c = CHR ''+'' \<or> c = CHR ''-'' then [c] else [] | [] \<Rightarrow> []);
          digits = takeWhile is_digit (drop (length sign) s)
      in if CHR 0x0A \<in> set (takeWhile is_space v) then 0
         else case Atoi (sign @ digits) of Some n \<Rightarrow> n | None \<Rightarrow> 0)"

section \<open>Network addresses\<close>

definition last_index :: "string \<Rightarrow> char \<Rightarrow> int" where
  "last_index s c = (if c \<in> set s then int (length s) - 1 - IndexByte (rev s) c else -1)"

text \<open>The host of \<open>net.SplitHostPort\<close>, \<^const>\<open>None\<close> for an error.\<close>

definition SplitHostPort :: "string \<Rightarrow> string option" where
  "SplitHostPort hostport =
     (let i = last_index hostport CHR '':'' in
      if i < 0 then None
      else if hd hostport = CHR ''['' then
        let e = IndexByte hostport CHR '']'' in
        if e < 0 \<or> e + 1 \<noteq> i then None
        else if CHR ''['' \<in> set (drop 1 hostport) \<or> CHR '']'' \<in> set (drop (nat (e + 1)) hostport) then None
        else Some (drop 1 (take (nat e) hostport))
      else
        let host = take (nat i) hostport in
        if CHR '':'' \<in> set host then None
        else if CHR ''['' \<in> set hostport \<or> CHR '']'' \<in> set hostport then None
        else Some host)"

section \<open>Base64\<close>

definition base64_char :: "nat \<Rightarrow> char" where
  "base64_char n = (if n < 26 then char_of (65 + n) else if n < 52 then char_of (71 + n)
     else if n < 62 then char_of (n - 4) else if n = 62 then CHR ''+'' else CHR ''/'')"

fun base64 :: "bytes \<Rightarrow> string" where
  "base64 [] = []"
| "base64 [a] = (let x = unat a * 16 in [base64_char (x div 64), base64_char (x mod 64), CHR ''='', CHR ''=''])"
| "base64 [a, b] =
     (let x = (unat a * 256 + unat b) * 4
      in [base64_char (x div 4096), base64_char (x div 64 mod 64), base64_char (x mod 64), CHR ''=''])"
| "base64 (a # b # c # bs) =
     (let x = (unat a * 256 + unat b) * 256 + unat c
      in base64_char (x div 262144) # base64_char (x div 4096 mod 64) # base64_char (x div 64 mod 64)
         # base64_char (x mod 64) # base64 bs)"

section \<open>Facts\<close>

lemma decode_struct_obj:
  "field_of names k = Some n \<Longrightarrow>
   decode_struct names f zero (Some (JObj ((k, v) # ms))) =
     Option.bind (f n v zero) (\<lambda>r. decode_struct names f r (Some (JObj ms)))"
  by (simp add: decode_struct_def)

lemma field_of_exact [simp]: "key \<in> set names \<Longrightarrow> field_of names key = Some key"
  by (simp add: field_of_def)

end
