(* ===== verification/Database.thy ===== *)
theory Database
  imports Json Storage
begin

text \<open>
  The storage layer (\<open>internal/storage/storage.go\<close>): the queries to PostgreSQL and what the code makes of
  their rows, the commands to Redis, the channels of messages received through it, and the masking of the connection string in
  the log. The connection pool and the Redis client are library code: a \<open>Pool\<close> and a \<open>RedisClient\<close> hold
  the answers they give.
\<close>

section \<open>Records\<close>

record UserRecord =
  ur_ID :: string
  ur_Username :: string
  ur_PasswordHash :: string
  ur_Roles :: "string list"
  ur_Banned :: bool
  ur_CreatedAt :: time

record Device =
  de_ID :: string
  de_ClientID :: string
  de_Username :: string
  de_Description :: string
  de_Metadata :: "(string, json) gomap"
  de_LastSeen :: "time option"
  de_Connected :: bool
  de_CreatedAt :: time

record MsgRecord =
  mr_ID :: int
  mr_Topic :: string
  mr_Payload :: bytes
  mr_QoS :: byte
  mr_Retain :: bool
  mr_Publisher :: string
  mr_PublishedAt :: time

definition zero_user :: UserRecord where
  "zero_user = \<lparr>ur_ID = [], ur_Username = [], ur_PasswordHash = [], ur_Roles = [], ur_Banned = False, ur_CreatedAt = 0\<rparr>"

section \<open>Rows of PostgreSQL\<close>

datatype sqlval =
    SNull
  | SText string
  | SInt int
  | SBool bool
  | SBytes bytes
  | STime time
  | SArr "string list"
  | SJson json

text \<open>
  The pool: \<open>QueryRow\<close> (an error, no row, or a row), \<open>Query\<close> (an error, or the rows and \<open>rows.Err\<close>), \<open>Exec\<close> (the
  error and the number of rows), and the text of the error of \<open>Scan\<close>.
\<close>

record Pool =
  po_QueryRow :: "string \<Rightarrow> sqlval list \<Rightarrow> string + sqlval list option"
  po_Query :: "string \<Rightarrow> sqlval list \<Rightarrow> string + sqlval list list \<times> string option"
  po_Exec :: "string \<Rightarrow> sqlval list \<Rightarrow> string option \<times> int"
  po_ScanErr :: "sqlval list \<Rightarrow> string"

text \<open>\<open>Scan\<close> into a variable of the type; \<^const>\<open>None\<close> is an error. A null fits pointers and slices only.\<close>

definition scan_text :: "sqlval \<Rightarrow> string option" where
  "scan_text v = (case v of SText s \<Rightarrow> Some s | _ \<Rightarrow> None)"

definition scan_bool :: "sqlval \<Rightarrow> bool option" where
  "scan_bool v = (case v of SBool x \<Rightarrow> Some x | _ \<Rightarrow> None)"

definition scan_int :: "sqlval \<Rightarrow> int option" where
  "scan_int v = (case v of SInt i \<Rightarrow> Some i | _ \<Rightarrow> None)"

definition scan_byte :: "sqlval \<Rightarrow> byte option" where
  "scan_byte v = (case v of SInt i \<Rightarrow> if 0 \<le> i \<and> i < 256 then Some (of_int i) else None | _ \<Rightarrow> None)"

definition scan_time :: "sqlval \<Rightarrow> time option" where
  "scan_time v = (case v of STime t \<Rightarrow> Some t | _ \<Rightarrow> None)"

definition scan_time_ptr :: "sqlval \<Rightarrow> time option option" where
  "scan_time_ptr v = (case v of SNull \<Rightarrow> Some None | STime t \<Rightarrow> Some (Some t) | _ \<Rightarrow> None)"

definition scan_bytes :: "sqlval \<Rightarrow> bytes option" where
  "scan_bytes v = (case v of SNull \<Rightarrow> Some [] | SBytes x \<Rightarrow> Some x | _ \<Rightarrow> None)"

definition scan_texts :: "sqlval \<Rightarrow> string list option" where
  "scan_texts v = (case v of SNull \<Rightarrow> Some [] | SArr xs \<Rightarrow> Some xs | _ \<Rightarrow> None)"

definition scan_json :: "sqlval \<Rightarrow> json option option" where
  "scan_json v = (case v of SNull \<Rightarrow> Some None | SJson j \<Rightarrow> Some (Some j) | _ \<Rightarrow> None)"

section \<open>Users\<close>

text \<open>The fields that were scanned before an error are set.\<close>

definition scan_user :: "Pool \<Rightarrow> sqlval list \<Rightarrow> UserRecord \<times> string option" where
  "scan_user p row =
     (let err = Some (po_ScanErr p row) in
      case row of
        [c1, c2, c3, c4, c5, c6] \<Rightarrow>
          (case scan_text c1 of None \<Rightarrow> (zero_user, err) | Some x1 \<Rightarrow> let u = zero_user\<lparr>ur_ID := x1\<rparr> in
           case scan_text c2 of None \<Rightarrow> (u, err) | Some x2 \<Rightarrow> let u = u\<lparr>ur_Username := x2\<rparr> in
           case scan_text c3 of None \<Rightarrow> (u, err) | Some x3 \<Rightarrow> let u = u\<lparr>ur_PasswordHash := x3\<rparr> in
           case scan_texts c4 of None \<Rightarrow> (u, err) | Some x4 \<Rightarrow> let u = u\<lparr>ur_Roles := x4\<rparr> in
           case scan_bool c5 of None \<Rightarrow> (u, err) | Some x5 \<Rightarrow> let u = u\<lparr>ur_Banned := x5\<rparr> in
           case scan_time c6 of None \<Rightarrow> (u, err) | Some x6 \<Rightarrow> (u\<lparr>ur_CreatedAt := x6\<rparr>, None))
      | _ \<Rightarrow> (zero_user, err))"

definition sql_CreateUser :: string where
  "sql_CreateUser = ''INSERT INTO users(username,password_hash,roles) VALUES($1,$2,$3) RETURNING id,username,password_hash,roles,banned,created_at''"

definition CreateUser :: "Pool \<Rightarrow> string \<Rightarrow> string \<Rightarrow> string list \<Rightarrow> UserRecord \<times> string option" where
  "CreateUser p username passwordHash roles =
     (case po_QueryRow p sql_CreateUser [SText username, SText passwordHash, SArr roles] of
        Inl e \<Rightarrow> (zero_user, Some e)
      | Inr None \<Rightarrow> (zero_user, Some ''no rows in result set'')
      | Inr (Some row) \<Rightarrow> scan_user p row)"

definition sql_GetUser :: string where
  "sql_GetUser = ''SELECT id,username,password_hash,roles,banned,created_at FROM users WHERE username=$1''"

definition GetUser :: "Pool \<Rightarrow> string \<Rightarrow> UserRecord option \<times> string option" where
  "GetUser p username =
     (case po_QueryRow p sql_GetUser [SText username] of
        Inl e \<Rightarrow> (Some zero_user, Some e)
      | Inr None \<Rightarrow> (None, None)
      | Inr (Some row) \<Rightarrow> (case scan_user p row of (u, err) \<Rightarrow> (Some u, err)))"

section \<open>Devices\<close>

text \<open>The metadata column is unmarshalled into a map; what is not an object leaves the map nil.\<close>

definition scan_device :: "sqlval list \<Rightarrow> Device option" where
  "scan_device row =
     (case row of
        [c1, c2, c3, c4, c5, c6, c7, c8] \<Rightarrow>
          (case (scan_text c1, scan_text c2, scan_text c3, scan_text c4, scan_json c5, scan_time_ptr c6, scan_bool c7, scan_time c8) of
             (Some x1, Some x2, Some x3, Some x4, Some meta, Some x6, Some x7, Some x8) \<Rightarrow>
               Some \<lparr>de_ID = x1, de_ClientID = x2, de_Username = x3, de_Description = x4,
                     de_Metadata = (case meta of Some (JObj ms) \<Rightarrow> fold (\<lambda>(k, v). AList.update k v) ms [] | _ \<Rightarrow> []),
                     de_LastSeen = x6, de_Connected = x7, de_CreatedAt = x8\<rparr>
           | _ \<Rightarrow> None)
      | _ \<Rightarrow> None)"

definition sql_UpsertDevice :: string where
  "sql_UpsertDevice = ''INSERT INTO devices(client_id, username, description, metadata) VALUES ($1,$2,$3,$4::jsonb) ON CONFLICT(client_id) DO UPDATE SET username=EXCLUDED.username, description=EXCLUDED.description, metadata=EXCLUDED.metadata, updated_at=NOW()''"

definition UpsertDevice :: "Pool \<Rightarrow> Device \<Rightarrow> string option" where
  "UpsertDevice p d =
     (let meta = SJson (JObj (de_Metadata d))
      in fst (po_Exec p sql_UpsertDevice [SText (de_ClientID d), SText (de_Username d), SText (de_Description d), meta]))"

definition sql_GetDevices :: string where
  "sql_GetDevices = ''SELECT id,client_id,username,description,metadata,last_seen,connected,created_at FROM devices ORDER BY created_at DESC LIMIT $1 OFFSET $2''"

text \<open>The loop over the rows, which ends at the first row that cannot be scanned.\<close>

fun scan_rows :: "(sqlval list \<Rightarrow> 'a option) \<Rightarrow> Pool \<Rightarrow> sqlval list list \<Rightarrow> string + 'a list" where
  "scan_rows f p [] = Inr []"
| "scan_rows f p (row # rows) =
     (case f row of
        None \<Rightarrow> Inl (po_ScanErr p row)
      | Some x \<Rightarrow> (case scan_rows f p rows of Inl e \<Rightarrow> Inl e | Inr xs \<Rightarrow> Inr (x # xs)))"

definition query_count :: "Pool \<Rightarrow> string \<Rightarrow> sqlval list \<Rightarrow> int" where
  "query_count p sql args =
     (case po_QueryRow p sql args of
        Inr (Some [c]) \<Rightarrow> (case scan_int c of Some n \<Rightarrow> n | None \<Rightarrow> 0)
      | _ \<Rightarrow> 0)"

definition GetDevices :: "Pool \<Rightarrow> int \<Rightarrow> int \<Rightarrow> Device list \<times> int \<times> string option" where
  "GetDevices p limit offset =
     (case po_Query p sql_GetDevices [SInt limit, SInt offset] of
        Inl e \<Rightarrow> ([], 0, Some e)
      | Inr (rows, rowsErr) \<Rightarrow>
          (case scan_rows scan_device p rows of
             Inl e \<Rightarrow> ([], 0, Some e)
           | Inr devices \<Rightarrow> (devices, query_count p ''SELECT COUNT(*) FROM devices'' [], rowsErr)))"

definition sql_GetDevice :: string where
  "sql_GetDevice = ''SELECT id,client_id,username,description,metadata,last_seen,connected,created_at FROM devices WHERE client_id=$1''"

definition GetDevice :: "Pool \<Rightarrow> string \<Rightarrow> Device option \<times> string option" where
  "GetDevice p clientID =
     (case po_QueryRow p sql_GetDevice [SText clientID] of
        Inl e \<Rightarrow> (None, Some e)
      | Inr None \<Rightarrow> (None, None)
      | Inr (Some row) \<Rightarrow> (case scan_device row of None \<Rightarrow> (None, Some (po_ScanErr p row)) | Some d \<Rightarrow> (Some d, None)))"

definition DeleteDevice :: "Pool \<Rightarrow> string \<Rightarrow> bool \<times> string option" where
  "DeleteDevice p clientID =
     (case po_Exec p ''DELETE FROM devices WHERE client_id=$1'' [SText clientID] of (err, n) \<Rightarrow> (n > 0, err))"

section \<open>Subscriptions and messages\<close>

definition scan_sub :: "sqlval list \<Rightarrow> SubRecord option" where
  "scan_sub row =
     (case row of
        [c1, c2] \<Rightarrow> (case (scan_text c1, scan_byte c2) of
           (Some f, Some q) \<Rightarrow> Some \<lparr>sr_Filter = f, sr_QoS = q\<rparr>
         | _ \<Rightarrow> None)
      | _ \<Rightarrow> None)"

text \<open>Rows that cannot be scanned are skipped.\<close>

definition GetSubs :: "Pool \<Rightarrow> string \<Rightarrow> SubRecord list \<times> string option" where
  "GetSubs p clientID =
     (case po_Query p ''SELECT topic_filter,qos FROM subscriptions WHERE client_id=$1'' [SText clientID] of
        Inl e \<Rightarrow> ([], Some e)
      | Inr (rows, rowsErr) \<Rightarrow> (List.map_filter scan_sub rows, rowsErr))"

definition scan_msg :: "sqlval list \<Rightarrow> MsgRecord option" where
  "scan_msg row =
     (case row of
        [c1, c2, c3, c4, c5, c6, c7] \<Rightarrow>
          (case (scan_int c1, scan_text c2, scan_bytes c3, scan_byte c4, scan_bool c5, scan_text c6, scan_time c7) of
             (Some x1, Some x2, Some x3, Some x4, Some x5, Some x6, Some x7) \<Rightarrow>
               Some \<lparr>mr_ID = x1, mr_Topic = x2, mr_Payload = x3, mr_QoS = x4, mr_Retain = x5, mr_Publisher = x6,
                     mr_PublishedAt = x7\<rparr>
           | _ \<Rightarrow> None)
      | _ \<Rightarrow> None)"

definition sql_GetMsgs_topic :: string where
  "sql_GetMsgs_topic = ''SELECT id,topic,payload,qos,retain,COALESCE(publisher,'' @ [CHR 0x27, CHR 0x27] @ ''),published_at FROM message_log WHERE topic=$1 ORDER BY published_at DESC LIMIT $2 OFFSET $3''"

definition sql_GetMsgs_all :: string where
  "sql_GetMsgs_all = ''SELECT id,topic,payload,qos,retain,COALESCE(publisher,'' @ [CHR 0x27, CHR 0x27] @ ''),published_at FROM message_log ORDER BY published_at DESC LIMIT $1 OFFSET $2''"

definition GetMsgs :: "Pool \<Rightarrow> string \<Rightarrow> int \<Rightarrow> int \<Rightarrow> MsgRecord list \<times> int \<times> string option" where
  "GetMsgs p topic limit offset =
     (case (if topic \<noteq> [] then po_Query p sql_GetMsgs_topic [SText topic, SInt limit, SInt offset]
            else po_Query p sql_GetMsgs_all [SInt limit, SInt offset]) of
        Inl e \<Rightarrow> ([], 0, Some e)
      | Inr (rows, rowsErr) \<Rightarrow>
          (case scan_rows scan_msg p rows of
             Inl e \<Rightarrow> ([], 0, Some e)
           | Inr msgs \<Rightarrow>
               (msgs, if topic \<noteq> [] then query_count p ''SELECT COUNT(*) FROM message_log WHERE topic=$1'' [SText topic]
                      else query_count p ''SELECT COUNT(*) FROM message_log'' [], rowsErr)))"

section \<open>Redis\<close>

text \<open>
  The answers of the Redis client: \<open>PING\<close>, the values of the client and of the retained hash (\<^const>\<open>None\<close> for one that
  does not unmarshal), the number of clients, a counter (0 on any error), and the sorted set of heartbeats.
\<close>

record RedisClient =
  rd_Ping :: "string option"
  rd_clients :: "string + ClientInfo option list"
  rd_retained :: "string + RetainedRecord option list"
  rd_HLen :: "string \<Rightarrow> int"
  rd_GetInt64 :: "string \<Rightarrow> int"
  rd_ZRemRangeByScore :: "string \<Rightarrow> string \<Rightarrow> string \<Rightarrow> string option"
  rd_ZRange :: "string \<Rightarrow> string + string list"

text \<open>The commands; a value that is stored or published is the record that \<open>json.Marshal\<close> encodes.\<close>

datatype stored = SClient ClientInfo | SRetained RetainedRecord | SCluster ClusterMsg | SPublish APIPublishMsg

datatype redis_cmd =
    HSet string string stored
  | HDel string string
  | RPublish string stored
  | Incr string
  | Expire string time
  | ZAdd string int string
  | ZRem string string

definition keyClients :: string where "keyClients = ''luma:clients''"
definition keyRetained :: string where "keyRetained = ''luma:retained''"
definition keyBrokerMeta :: string where "keyBrokerMeta = ''luma:broker''"
definition keyBrokerPulse :: string where "keyBrokerPulse = ''luma:broker:pulse''"
definition chanBroker :: string where "chanBroker = ''luma:cluster:messages''"
definition chanAPIPublish :: string where "chanAPIPublish = ''luma:api:publish''"

definition SetClient_cmds :: "ClientInfo \<Rightarrow> redis_cmd list" where
  "SetClient_cmds info = [HSet keyClients (ci_ClientID info) (SClient info)]"

definition DelClient_cmds :: "string \<Rightarrow> redis_cmd list" where
  "DelClient_cmds clientID = [HDel keyClients clientID]"

definition GetAllClients :: "RedisClient \<Rightarrow> string + ClientInfo list" where
  "GetAllClients r = (case rd_clients r of Inl e \<Rightarrow> Inl e | Inr raw \<Rightarrow> Inr (List.map_filter id raw))"

definition ClientCount :: "RedisClient \<Rightarrow> int" where
  "ClientCount r = rd_HLen r keyClients"

definition SetRetained_cmds :: "time \<Rightarrow> string \<Rightarrow> bytes \<Rightarrow> byte \<Rightarrow> redis_cmd list" where
  "SetRetained_cmds now topic payload qos =
     (if length payload = 0 then [HDel keyRetained topic]
      else [HSet keyRetained topic (SRetained \<lparr>rr_Topic = topic, rr_Payload = payload, rr_QoS = qos, rr_Timestamp = now\<rparr>)])"

definition GetAllRetained :: "RedisClient \<Rightarrow> string + RetainedRecord list" where
  "GetAllRetained r = (case rd_retained r of Inl e \<Rightarrow> Inl e | Inr raw \<Rightarrow> Inr (List.map_filter id raw))"

definition rate_key :: "int \<Rightarrow> string" where
  "rate_key second = ''luma:rate:'' @ Itoa second"

definition IncrMsgRate_cmds :: "time \<Rightarrow> redis_cmd list" where
  "IncrMsgRate_cmds now = (let key = rate_key (now div time_Second) in [Incr key, Expire key (3 * time_Second)])"

definition GetMsgRate :: "RedisClient \<Rightarrow> time \<Rightarrow> int" where
  "GetMsgRate r now = rd_GetInt64 r (rate_key (now div time_Second - 1))"

definition PublishCluster_cmds :: "ClusterMsg \<Rightarrow> redis_cmd list" where
  "PublishCluster_cmds msg = [RPublish chanBroker (SCluster msg)]"

definition PublishAPI_cmds :: "APIPublishMsg \<Rightarrow> redis_cmd list" where
  "PublishAPI_cmds msg = [RPublish chanAPIPublish (SPublish msg)]"

text \<open>
  The goroutines that forward what they receive into a buffered channel: a message that does not unmarshal
  is skipped, and one that finds the channel full is dropped.
\<close>

definition forward :: "nat \<Rightarrow> 'm option \<Rightarrow> 'm list \<Rightarrow> 'm list" where
  "forward cap msg ch = (case msg of Some m \<Rightarrow> if length ch < cap then ch @ [m] else ch | None \<Rightarrow> ch)"

definition SubscribeCluster_recv :: "ClusterMsg option \<Rightarrow> ClusterMsg list \<Rightarrow> ClusterMsg list" where
  "SubscribeCluster_recv = forward 512"

definition SubscribeAPIPublish_recv :: "APIPublishMsg option \<Rightarrow> APIPublishMsg list \<Rightarrow> APIPublishMsg list" where
  "SubscribeAPIPublish_recv = forward 256"

definition BrokerPulse_cmds :: "time \<Rightarrow> string \<Rightarrow> redis_cmd list" where
  "BrokerPulse_cmds now brokerID = [ZAdd keyBrokerPulse (now div 1000000) brokerID]"

definition AliveBrokerIDsAfterPrune :: "RedisClient \<Rightarrow> time \<Rightarrow> time \<Rightarrow> string + string list" where
  "AliveBrokerIDsAfterPrune r now stale =
     (case rd_ZRemRangeByScore r keyBrokerPulse ''-inf'' (Itoa ((now - stale) div 1000000)) of
        Some e \<Rightarrow> Inl e
      | None \<Rightarrow> rd_ZRange r keyBrokerPulse)"

definition BrokerLeave_cmds :: "string \<Rightarrow> redis_cmd list" where
  "BrokerLeave_cmds brokerID = [ZRem keyBrokerPulse brokerID, HDel keyBrokerMeta brokerID]"

section \<open>The connection string in the log\<close>

function indexStr_loop :: "string \<Rightarrow> string \<Rightarrow> nat \<Rightarrow> int" where
  "indexStr_loop s sub i =
     (if int i \<le> int (length s) - int (length sub)
      then if take (length sub) (drop i s) = sub then int i else indexStr_loop s sub (i + 1)
      else -1)"
  by pat_completeness auto
termination
  by (relation "measure (\<lambda>(s, _, i). length s + 1 - i)") auto

declare indexStr_loop.simps [simp del]

definition indexStr :: "string \<Rightarrow> string \<Rightarrow> int" where
  "indexStr s sub = indexStr_loop s sub 0"

definition maskDSN :: "string \<Rightarrow> string" where
  "maskDSN dsn =
     (let i = indexStr dsn ''@''
      in if i \<ge> 0 then ''postgres://***@'' @ drop (nat (i + 1)) dsn else dsn)"

section \<open>Facts\<close>

lemma indexStr_loop_at:
  "i \<le> length s \<Longrightarrow> indexStr_loop s [c] i =
     (if c \<in> set (drop i s) then int (i + length (takeWhile (\<lambda>x. x \<noteq> c) (drop i s))) else -1)"
proof (induction "length s - i" arbitrary: i)
  case 0
  then show ?case
    by (simp add: indexStr_loop.simps)
next
  case (Suc n)
  then obtain x xs where "drop i s = x # xs"
    by (metis Cons_nth_drop_Suc diff_is_0_eq' leI nat.simps(3))
  moreover from this have "drop (Suc i) s = xs"
    by (metis drop_Suc list.sel(3) tl_drop)
  ultimately show ?case
    using Suc.hyps(1) [of "Suc i"] Suc.hyps(2) Suc.prems by (subst indexStr_loop.simps) auto
qed

lemma indexStr_char: "indexStr s [c] = IndexByte s c"
  by (simp add: indexStr_def indexStr_loop_at IndexByte_def)

text \<open>
  A connection string in URL form whose credentials have no at-sign is logged without them. In the
  keyword form, which has no at-sign, it is logged with the password; and of a password with an at-sign
  the part behind it is logged.
\<close>

theorem mask_dsn:
  "CHR ''@'' \<notin> set credentials \<Longrightarrow> maskDSN (credentials @ CHR ''@'' # host) = ''postgres://***@'' @ host"
  "CHR ''@'' \<notin> set dsn \<Longrightarrow> maskDSN dsn = dsn"
proof -
  assume "CHR ''@'' \<notin> set credentials"
  then have "takeWhile (\<lambda>x. x \<noteq> CHR ''@'') (credentials @ CHR ''@'' # host) = credentials"
    by (subst takeWhile_append2) auto
  then show "maskDSN (credentials @ CHR ''@'' # host) = ''postgres://***@'' @ host"
    by (simp add: maskDSN_def indexStr_char IndexByte_def nat_add_distrib Let_def)
qed (simp add: maskDSN_def indexStr_char IndexByte_def)

end
