(* ===== verification/Api.thy ===== *)
theory Api
  imports Server Database
begin

text \<open>
  The HTTP and WebSocket interface (\<open>internal/api/server.go\<close>): the routes, the chain of middlewares, the
  handlers, and the hub of WebSocket clients. A request carries its parsed parts (the path also as its unescaped
  segments, the body as the JSON value it denotes); a response is its status, its headers and the value that
  is written. A handler that panics has no response: \<open>net/http\<close> drops the connection. Maps are lists of
  pairs, and nil and empty slices and maps are not told apart. The locks of the code make each access atomic;
  requests are served one after the other here.
\<close>

section \<open>Requests and responses\<close>

record Request =
  rq_Method :: string
  rq_Path :: string
  rq_Segments :: "string list"
  rq_Query :: "(string, string) gomap"
  rq_Origin :: string
  rq_Authorization :: string
  rq_Body :: "json option"
  rq_RemoteAddr :: string

datatype written = WNone | WJson json | WText string

record Response =
  rs_Status :: int
  rs_Header :: "(string, string) gomap"
  rs_Body :: written

text \<open>
  The libraries: the answers of the database and of Redis, password hashing, tokens, numbers and times in text, the
  error texts of the JSON decoder, the clock, a fresh identifier, the number of goroutines, the
  text \<open>fmt.Sprint\<close> makes of a Redis answer (\<^const>\<open>None\<close> if it is an error), the answer of a failed WebSocket
  handshake (\<^const>\<open>None\<close> if it succeeds), and the conversion of a float that is out of range to a byte.
\<close>

record Env =
  ev_ex :: Externals
  ev_pool :: Pool
  ev_redis :: RedisClient
  ev_hashpw :: "bytes \<Rightarrow> int \<Rightarrow> string + string"
  ev_numericDate :: "time \<Rightarrow> time"
  ev_sign :: "Claims \<Rightarrow> bytes \<Rightarrow> string + string"
  ev_ParseFloat :: "string \<Rightarrow> rat option"
  ev_fmtFloat :: "rat \<Rightarrow> string"
  ev_fmtTime :: "time \<Rightarrow> string"
  ev_jsonErr :: "json option \<Rightarrow> string"
  ev_now :: time
  ev_uuid :: string
  ev_goroutines :: int
  ev_rate :: "string \<Rightarrow> string option"
  ev_upgrade :: "Response option"
  ev_oobByte :: "rat \<Rightarrow> byte"

text \<open>What a handler asks the storage to do; the answers are those of the pool and the client above.\<close>

datatype api_call =
    ApiPublish APIPublishMsg
  | ApiLogMsg string bytes byte bool string
  | ApiSaveSub string string byte
  | ApiCreateUser string string "string list"
  | ApiSetUserBanned string bool
  | ApiUpsertDevice Device
  | ApiDeleteDevice string

record WSHub =
  hb_clients :: "string list"
  hb_send :: "string \<Rightarrow> json list"
  hb_count :: int

record Api =
  api_cfg :: Config
  api_broker :: Broker
  api_authn :: Authenticator
  api_hub :: WSHub
  api_limiter :: RateLimiter
  api_calls :: "api_call list"

type_synonym handler = "Request \<Rightarrow> Api \<Rightarrow> Response option \<times> Api"

definition newWSHub :: WSHub where
  "newWSHub = \<lparr>hb_clients = [], hb_send = (\<lambda>_. []), hb_count = 0\<rparr>"

definition Api_New :: "Config \<Rightarrow> Broker \<Rightarrow> Authenticator \<Rightarrow> Api" where
  "Api_New cfg b authn =
     \<lparr>api_cfg = cfg, api_broker = b, api_authn = authn, api_hub = newWSHub, api_limiter = NewRateLimiter 200 400,
      api_calls = []\<rparr>"

definition api_count :: "metric_call list \<Rightarrow> Api \<Rightarrow> Api" where
  "api_count cs s = s\<lparr>api_broker := bk_count cs (api_broker s)\<rparr>"

definition api_request :: "api_call list \<Rightarrow> Api \<Rightarrow> Api" where
  "api_request cs s = s\<lparr>api_calls := api_calls s @ cs\<rparr>"

section \<open>Helpers\<close>

definition writeJSON :: "int \<Rightarrow> json \<Rightarrow> Response" where
  "writeJSON code v = \<lparr>rs_Status = code, rs_Header = [(''Content-Type'', ''application/json'')], rs_Body = WJson v\<rparr>"

definition write_status :: "int \<Rightarrow> Response" where
  "write_status code = \<lparr>rs_Status = code, rs_Header = [], rs_Body = WNone\<rparr>"

definition errBody :: "string \<Rightarrow> string \<Rightarrow> json" where
  "errBody code msg = JObj [(''error'', JStr code), (''message'', JStr msg)]"

definition decodeJSON ::
    "Env \<Rightarrow> Request \<Rightarrow> string list \<Rightarrow> (string \<Rightarrow> json \<Rightarrow> 'r \<Rightarrow> 'r option) \<Rightarrow> 'r \<Rightarrow> Response + 'r" where
  "decodeJSON ev r names set_field zero =
     (case decode_struct names set_field zero (rq_Body r) of
        None \<Rightarrow> Inl (writeJSON 400 (errBody ''bad_request'' (''invalid JSON: '' @ ev_jsonErr ev (rq_Body r))))
      | Some v \<Rightarrow> Inr v)"

definition query_get :: "Request \<Rightarrow> string \<Rightarrow> string" where
  "query_get r key = (case map_of (rq_Query r) key of Some v \<Rightarrow> v | None \<Rightarrow> [])"

definition queryInt :: "Request \<Rightarrow> string \<Rightarrow> int \<Rightarrow> int" where
  "queryInt r key def =
     (let v = query_get r key
      in if v \<noteq> [] then (let n = Sscanf_d v in if n > 0 then n else def) else def)"

definition protocol_ValidTopic :: "string \<Rightarrow> bool" where
  "protocol_ValidTopic topic =
     (if length topic = 0 then False
      else list_all (\<lambda>c. \<not> (c = CHR ''+'' \<or> c = CHR ''#'' \<or> c = CHR 0x00)) topic)"

definition originAllowed :: "string \<Rightarrow> Api \<Rightarrow> bool" where
  "originAllowed origin s =
     (let allowed = ac_AllowedOrigins (cf_API (api_cfg s))
      in if length allowed = 0 then False
         else if origin = [] then True
         else list_ex (\<lambda>o'. o' = ''*'' \<or> o' = origin) allowed)"

definition resolveOrigin :: "string \<Rightarrow> Api \<Rightarrow> string" where
  "resolveOrigin origin s =
     (if origin = [] then ''*''
      else if originAllowed origin s then origin
      else if originAllowed ''*'' s then ''*''
      else ''null'')"

definition unix :: "Env \<Rightarrow> int" where
  "unix ev = ev_now ev div time_Second"

section \<open>Authentication of requests\<close>

definition autherr_text :: "autherr \<Rightarrow> string" where
  "autherr_text e =
     (case e of
        ErrBadCredentials \<Rightarrow> ''bad credentials''
      | ErrTokenExpired \<Rightarrow> ''token expired''
      | ErrTokenInvalid \<Rightarrow> ''token invalid''
      | ErrBanned \<Rightarrow> ''client banned''
      | ErrDenied \<Rightarrow> ''operation not permitted''
      | BcryptError t \<Rightarrow> t
      | AuthPanic \<Rightarrow> [])"

definition TrimPrefix :: "string \<Rightarrow> string \<Rightarrow> string" where
  "TrimPrefix s p = (if HasPrefix s p then drop (length p) s else s)"

text \<open>The claims reach the handler through the context of the request; here they are an argument.\<close>

definition authed :: "Env \<Rightarrow> (Claims \<Rightarrow> handler) \<Rightarrow> handler" where
  "authed ev h r s =
     (let bearer = TrimPrefix (rq_Authorization r) ''Bearer '' in
      if bearer = [] then (Some (writeJSON 401 (errBody ''unauthorized'' ''Bearer token required'')), s)
      else case AuthJWT (ex_parse (ev_ex ev)) (ex_pick (ev_ex ev)) (ev_now ev) bearer (api_authn s) of
             (Inl AuthPanic, a) \<Rightarrow> (None, s\<lparr>api_authn := a\<rparr>)
           | (Inl err, a) \<Rightarrow> (Some (writeJSON 401 (errBody ''unauthorized'' (autherr_text err))), s\<lparr>api_authn := a\<rparr>)
           | (Inr claims, a) \<Rightarrow> h claims r (s\<lparr>api_authn := a\<rparr>))"

definition admin :: "Env \<Rightarrow> (Claims \<Rightarrow> handler) \<Rightarrow> handler" where
  "admin ev h = authed ev (\<lambda>claims r s.
     if ''admin'' \<in> set (jc_Roles claims) then h claims r s
     else (Some (writeJSON 403 (errBody ''forbidden'' ''Admin role required'')), s))"

section \<open>Root and health\<close>

definition handleRoot :: handler where
  "handleRoot r s = (Some (writeJSON 200 (JObj [(''service'', JStr ''LUMA MQTT Broker API''), (''version'', JStr ''2.0.0''),
     (''status'', JStr ''operational''), (''docs'', JStr ''/health'')])), s)"

definition dependency_checks :: "Env \<Rightarrow> json \<times> bool" where
  "dependency_checks ev =
     (let pg = fst (po_Exec (ev_pool ev) ''SELECT 1'' []);
          rd = rd_Ping (ev_redis ev);
          text = (\<lambda>e. JStr (case e of None \<Rightarrow> ''ok'' | Some t \<Rightarrow> ''error: '' @ t))
      in (JObj [(''postgres'', text pg), (''redis'', text rd)], pg = None \<and> rd = None))"

definition handleHealth :: "Env \<Rightarrow> handler" where
  "handleHealth ev r s =
     (let (checks, ok) = dependency_checks ev;
          code = (if ok then 200 else 503);
          status = (if code \<noteq> 200 then ''degraded'' else ''healthy'')
      in (Some (writeJSON code (JObj [(''status'', JStr status), (''checks'', checks),
            (''ws_connections'', JInt (hb_count (api_hub s))), (''go_routines'', JInt (ev_goroutines ev)),
            (''timestamp'', JInt (unix ev))])), s))"

definition api_Stats :: "Env \<Rightarrow> Api \<Rightarrow> (string, stat) gomap" where
  "api_Stats ev s = Broker_Stats (ClientCount (ev_redis ev)) (GetMsgRate (ev_redis ev) (ev_now ev)) (ev_now ev) (api_broker s)"

text \<open>A float is cut towards zero.\<close>

definition int64FromAny :: "stat option \<Rightarrow> int" where
  "int64FromAny v =
     (case v of
        Some (Count n) \<Rightarrow> n
      | Some (Duration d) \<Rightarrow> (if d < 0 then - (- d div time_Second) else d div time_Second)
      | _ \<Rightarrow> 0)"

definition handleReady :: "Env \<Rightarrow> handler" where
  "handleReady ev r s =
     (let (checks, depsReady) = dependency_checks ev;
          stats = api_Stats ev s;
          currMPS = int64FromAny (map_of stats ''messages_per_second'');
          clusterConns = int64FromAny (map_of stats ''connected_clients'');
          slo = cf_SLO (api_cfg s);
          mpsOK = (currMPS \<le> sc_TargetMessagesPerSecond slo);
          connOK = (sc_TargetConnPerCluster slo \<le> 0 \<or> clusterConns \<le> sc_TargetConnPerCluster slo);
          sloOK = (depsReady \<and> mpsOK \<and> connOK);
          calls = (if depsReady \<and> currMPS > sc_TargetMessagesPerSecond slo
                   then [Inc (SLOViolationTotal ''messages_per_second'')] else [])
                @ (if depsReady \<and> sc_TargetConnPerCluster slo > 0 \<and> clusterConns > sc_TargetConnPerCluster slo
                   then [Inc (SLOViolationTotal ''connections_cluster'')] else []);
          code = (if \<not> depsReady \<or> \<not> sloOK then 503 else 200)
      in (Some (writeJSON code (JObj [(''ready'', JBool sloOK), (''dependencies_ok'', JBool depsReady),
            (''slo_throughput_ok'', JBool mpsOK), (''slo_connections_ok'', JBool connOK), (''checks'', checks),
            (''slo_target_mps'', JInt (sc_TargetMessagesPerSecond slo)),
            (''slo_target_cluster_connections'', JInt (sc_TargetConnPerCluster slo)),
            (''current_mps'', JInt currMPS), (''cluster_connected_clients'', JInt clusterConns)])),
          api_count calls s))"

section \<open>Accounts\<close>

record registerReq =
  rg_Username :: string
  rg_Password :: string
  rg_Roles :: "string list"

definition set_registerReq :: "string \<Rightarrow> json \<Rightarrow> registerReq \<Rightarrow> registerReq option" where
  "set_registerReq n v q =
     (if n = ''username'' then map_option (\<lambda>x. q\<lparr>rg_Username := x\<rparr>) (as_string v (rg_Username q))
      else if n = ''password'' then map_option (\<lambda>x. q\<lparr>rg_Password := x\<rparr>) (as_string v (rg_Password q))
      else map_option (\<lambda>x. q\<lparr>rg_Roles := x\<rparr>) (as_strings v (rg_Roles q)))"

record loginReq =
  lg_Username :: string
  lg_Password :: string

definition set_loginReq :: "string \<Rightarrow> json \<Rightarrow> loginReq \<Rightarrow> loginReq option" where
  "set_loginReq n v q =
     (if n = ''username'' then map_option (\<lambda>x. q\<lparr>lg_Username := x\<rparr>) (as_string v (lg_Username q))
      else map_option (\<lambda>x. q\<lparr>lg_Password := x\<rparr>) (as_string v (lg_Password q)))"

text \<open>A user record is written with all its fields.\<close>

definition user_json :: "Env \<Rightarrow> UserRecord \<Rightarrow> json" where
  "user_json ev u = JObj [(''ID'', JStr (ur_ID u)), (''Username'', JStr (ur_Username u)),
     (''PasswordHash'', JStr (ur_PasswordHash u)), (''Roles'', JArr (map JStr (ur_Roles u))), (''Banned'', JBool (ur_Banned u)),
     (''CreatedAt'', JStr (ev_fmtTime ev (ur_CreatedAt u)))]"

definition handleRegister :: "Env \<Rightarrow> handler" where
  "handleRegister ev r s =
     (case decodeJSON ev r [''username'', ''password'', ''roles''] set_registerReq
             \<lparr>rg_Username = [], rg_Password = [], rg_Roles = []\<rparr> of
        Inl resp \<Rightarrow> (Some resp, s)
      | Inr req \<Rightarrow>
          if length (rg_Username req) < 3 \<or> length (rg_Password req) < 8
          then (Some (writeJSON 400 (errBody ''validation'' (''username'' @ [CHR 0xE2, CHR 0x89, CHR 0xA5] @ ''3, password''
                  @ [CHR 0xE2, CHR 0x89, CHR 0xA5] @ ''8 chars''))), s)
          else case ev_hashpw ev (bytes_of_string (rg_Password req)) (uc_BcryptCost (cf_Auth (api_cfg s))) of
            Inl err \<Rightarrow> (Some (writeJSON 500 (errBody ''server_error'' err)), s)
          | Inr hash \<Rightarrow>
              (case AddUser (ev_hashpw ev) (rg_Username req) (rg_Password req) (rg_Roles req) (api_authn s) of
                 Inl err \<Rightarrow> (Some (writeJSON 500 (errBody ''server_error'' (autherr_text err))), s)
               | Inr a \<Rightarrow>
                   let s = api_request [ApiCreateUser (rg_Username req) hash (rg_Roles req)] (s\<lparr>api_authn := a\<rparr>) in
                   case CreateUser (ev_pool ev) (rg_Username req) hash (rg_Roles req) of
                     (user, Some _) \<Rightarrow> (Some (writeJSON 409 (errBody ''conflict'' ''username already exists'')), s)
                   | (user, None) \<Rightarrow> (Some (writeJSON 201 (user_json ev user)), s)))"

definition issue_token :: "Env \<Rightarrow> string \<Rightarrow> string \<Rightarrow> string list \<Rightarrow> Api \<Rightarrow> string + string" where
  "issue_token ev username clientID roles s =
     IssueToken (ev_numericDate ev) (ev_sign ev) (ev_now ev) username clientID roles (api_authn s)"

definition handleLogin :: "Env \<Rightarrow> handler" where
  "handleLogin ev r s =
     (case decodeJSON ev r [''username'', ''password''] set_loginReq \<lparr>lg_Username = [], lg_Password = []\<rparr> of
        Inl resp \<Rightarrow> (Some resp, s)
      | Inr req \<Rightarrow>
          (case GetUser (ev_pool ev) (lg_Username req) of
             (Some user, None) \<Rightarrow>
               if ur_Banned user then (Some (writeJSON 403 (errBody ''forbidden'' ''account banned'')), s)
               else if \<not> ex_cmp (ev_ex ev) (ur_PasswordHash user) (bytes_of_string (lg_Password req))
               then (Some (writeJSON 401 (errBody ''unauthorized'' ''invalid credentials'')), s)
               else case issue_token ev (ur_Username user) [] (ur_Roles user) s of
                      Inl err \<Rightarrow> (Some (writeJSON 500 (errBody ''server_error'' err)), s)
                    | Inr token \<Rightarrow>
                        (Some (writeJSON 200 (JObj [(''access_token'', JStr token), (''token_type'', JStr ''Bearer''),
                           (''expires_in'', JInt (int64FromAny (Some (Duration (uc_JWTDuration (cf_Auth (api_cfg s))))))),
                           (''username'', JStr (ur_Username user)), (''roles'', JArr (map JStr (ur_Roles user)))])), s)
           | _ \<Rightarrow> (Some (writeJSON 401 (errBody ''unauthorized'' ''invalid credentials'')), s)))"

definition handleMe :: "Env \<Rightarrow> Claims \<Rightarrow> handler" where
  "handleMe ev claims r s =
     (case GetUser (ev_pool ev) (jc_Username claims) of
        (user, _) \<Rightarrow> (Some (writeJSON 200 (case user of Some u \<Rightarrow> user_json ev u | None \<Rightarrow> JNull)), s))"

definition handleRefresh :: "Env \<Rightarrow> Claims \<Rightarrow> handler" where
  "handleRefresh ev claims r s =
     (case issue_token ev (jc_Username claims) (jc_ClientID claims) (jc_Roles claims) s of
        Inl err \<Rightarrow> (Some (writeJSON 500 (errBody ''server_error'' err)), s)
      | Inr token \<Rightarrow> (Some (writeJSON 200 (JObj [(''access_token'', JStr token), (''token_type'', JStr ''Bearer'')])), s))"

section \<open>Devices\<close>

record deviceReq =
  dr_ClientID :: string
  dr_Username :: string
  dr_Description :: string
  dr_Metadata :: "(string, json) gomap"

definition set_deviceReq :: "Env \<Rightarrow> string \<Rightarrow> json \<Rightarrow> deviceReq \<Rightarrow> deviceReq option" where
  "set_deviceReq ev n v q =
     (if n = ''client_id'' then map_option (\<lambda>x. q\<lparr>dr_ClientID := x\<rparr>) (as_string v (dr_ClientID q))
      else if n = ''username'' then map_option (\<lambda>x. q\<lparr>dr_Username := x\<rparr>) (as_string v (dr_Username q))
      else if n = ''description'' then map_option (\<lambda>x. q\<lparr>dr_Description := x\<rparr>) (as_string v (dr_Description q))
      else map_option (\<lambda>x. q\<lparr>dr_Metadata := x\<rparr>) (as_map (ev_ParseFloat ev) v (dr_Metadata q)))"

definition device_json :: "Env \<Rightarrow> Device \<Rightarrow> json" where
  "device_json ev d = JObj [(''ID'', JStr (de_ID d)), (''ClientID'', JStr (de_ClientID d)), (''Username'', JStr (de_Username d)),
     (''Description'', JStr (de_Description d)), (''Metadata'', JObj (de_Metadata d)),
     (''LastSeen'', case de_LastSeen d of None \<Rightarrow> JNull | Some t \<Rightarrow> JStr (ev_fmtTime ev t)),
     (''Connected'', JBool (de_Connected d)), (''CreatedAt'', JStr (ev_fmtTime ev (de_CreatedAt d)))]"

definition db_error :: "string \<Rightarrow> Response" where
  "db_error err = writeJSON 500 (errBody ''db_error'' err)"

definition handleDeviceCreate :: "Env \<Rightarrow> Claims \<Rightarrow> handler" where
  "handleDeviceCreate ev claims r s =
     (case decodeJSON ev r [''client_id'', ''username'', ''description'', ''metadata''] (set_deviceReq ev)
             \<lparr>dr_ClientID = [], dr_Username = [], dr_Description = [], dr_Metadata = []\<rparr> of
        Inl resp \<Rightarrow> (Some resp, s)
      | Inr req \<Rightarrow>
          if dr_ClientID req = [] then (Some (writeJSON 400 (errBody ''validation'' ''client_id required'')), s)
          else
            let d = \<lparr>de_ID = [], de_ClientID = dr_ClientID req, de_Username = dr_Username req,
                     de_Description = dr_Description req, de_Metadata = dr_Metadata req, de_LastSeen = None,
                     de_Connected = False, de_CreatedAt = 0\<rparr>;
                s = api_request [ApiUpsertDevice d] s
            in case UpsertDevice (ev_pool ev) d of
                 Some err \<Rightarrow> (Some (db_error err), s)
               | None \<Rightarrow>
                   (case GetDevice (ev_pool ev) (dr_ClientID req) of
                      (created, _) \<Rightarrow>
                        (Some (writeJSON 201 (case created of Some x \<Rightarrow> device_json ev x | None \<Rightarrow> JNull)), s)))"

definition handleDeviceList :: "Env \<Rightarrow> Claims \<Rightarrow> handler" where
  "handleDeviceList ev claims r s =
     (let limit = queryInt r ''limit'' 50; offset = queryInt r ''offset'' 0 in
      case GetDevices (ev_pool ev) limit offset of
        (_, _, Some err) \<Rightarrow> (Some (db_error err), s)
      | (devices, n, None) \<Rightarrow>
          (Some (writeJSON 200 (JObj [(''devices'', JArr (map (device_json ev) devices)), (''total'', JInt n),
             (''limit'', JInt limit), (''offset'', JInt offset)])), s))"

definition not_found :: Response where
  "not_found = writeJSON 404 (errBody ''not_found'' ''device not found'')"

definition handleDeviceGet :: "Env \<Rightarrow> string \<Rightarrow> Claims \<Rightarrow> handler" where
  "handleDeviceGet ev id' claims r s =
     (case GetDevice (ev_pool ev) id' of
        (_, Some err) \<Rightarrow> (Some (db_error err), s)
      | (None, None) \<Rightarrow> (Some not_found, s)
      | (Some d, None) \<Rightarrow> (Some (writeJSON 200 (device_json ev d)), s))"

definition handleDeviceDelete :: "Env \<Rightarrow> string \<Rightarrow> Claims \<Rightarrow> handler" where
  "handleDeviceDelete ev id' claims r s =
     (let s = api_request [ApiDeleteDevice id'] s in
      case DeleteDevice (ev_pool ev) id' of
        (_, Some err) \<Rightarrow> (Some (db_error err), s)
      | (deleted, None) \<Rightarrow> if \<not> deleted then (Some not_found, s) else (Some (write_status 204), s))"

section \<open>MQTT control\<close>

record publishReq =
  pq_Topic :: string
  pq_Payload :: string
  pq_QoS :: byte
  pq_Retain :: bool

definition set_publishReq :: "string \<Rightarrow> json \<Rightarrow> publishReq \<Rightarrow> publishReq option" where
  "set_publishReq n v q =
     (if n = ''topic'' then map_option (\<lambda>x. q\<lparr>pq_Topic := x\<rparr>) (as_string v (pq_Topic q))
      else if n = ''payload'' then map_option (\<lambda>x. q\<lparr>pq_Payload := x\<rparr>) (as_string v (pq_Payload q))
      else if n = ''qos'' then map_option (\<lambda>x. q\<lparr>pq_QoS := x\<rparr>) (as_byte v (pq_QoS q))
      else map_option (\<lambda>x. q\<lparr>pq_Retain := x\<rparr>) (as_bool v (pq_Retain q)))"

definition handlePublish_api :: "Env \<Rightarrow> Claims \<Rightarrow> handler" where
  "handlePublish_api ev claims r s =
     (case decodeJSON ev r [''topic'', ''payload'', ''qos'', ''retain''] set_publishReq
             \<lparr>pq_Topic = [], pq_Payload = [], pq_QoS = 0, pq_Retain = False\<rparr> of
        Inl resp \<Rightarrow> (Some resp, s)
      | Inr req \<Rightarrow>
          if pq_Topic req = [] \<or> \<not> protocol_ValidTopic (pq_Topic req)
          then (Some (writeJSON 400 (errBody ''validation'' ''invalid topic'')), s)
          else
            (Some (writeJSON 200 (JObj [(''success'', JBool True), (''topic'', JStr (pq_Topic req)), (''timestamp'', JInt (unix ev))])),
             api_request [ApiPublish \<lparr>ap_Topic = pq_Topic req, ap_Payload = pq_Payload req, ap_QoS = pq_QoS req,
                            ap_Retain = pq_Retain req, ap_Publisher = jc_Username claims\<rparr>,
                          ApiLogMsg (pq_Topic req) (bytes_of_string (pq_Payload req)) (pq_QoS req) (pq_Retain req)
                            (jc_Username claims)] s))"

record subscribeReq =
  sq_ClientID :: string
  sq_Filter :: string
  sq_QoS :: byte

definition set_subscribeReq :: "string \<Rightarrow> json \<Rightarrow> subscribeReq \<Rightarrow> subscribeReq option" where
  "set_subscribeReq n v q =
     (if n = ''client_id'' then map_option (\<lambda>x. q\<lparr>sq_ClientID := x\<rparr>) (as_string v (sq_ClientID q))
      else if n = ''topic_filter'' then map_option (\<lambda>x. q\<lparr>sq_Filter := x\<rparr>) (as_string v (sq_Filter q))
      else map_option (\<lambda>x. q\<lparr>sq_QoS := x\<rparr>) (as_byte v (sq_QoS q)))"

definition handleSubscribe_api :: "Env \<Rightarrow> Claims \<Rightarrow> handler" where
  "handleSubscribe_api ev claims r s =
     (case decodeJSON ev r [''client_id'', ''topic_filter'', ''qos''] set_subscribeReq
             \<lparr>sq_ClientID = [], sq_Filter = [], sq_QoS = 0\<rparr> of
        Inl resp \<Rightarrow> (Some resp, s)
      | Inr req \<Rightarrow>
          if sq_ClientID req = [] \<or> sq_Filter req = []
          then (Some (writeJSON 400 (errBody ''validation'' ''client_id and topic_filter required'')), s)
          else
            (Some (writeJSON 201 (JObj [(''success'', JBool True), (''client_id'', JStr (sq_ClientID req)),
               (''topic_filter'', JStr (sq_Filter req)), (''qos'', JByte (sq_QoS req))])),
             api_request [ApiSaveSub (sq_ClientID req) (sq_Filter req) (sq_QoS req)] s))"

definition msg_json :: "Env \<Rightarrow> MsgRecord \<Rightarrow> json" where
  "msg_json ev m = JObj [(''ID'', JInt (mr_ID m)), (''Topic'', JStr (mr_Topic m)), (''Payload'', JStr (base64 (mr_Payload m))),
     (''QoS'', JByte (mr_QoS m)), (''Retain'', JBool (mr_Retain m)), (''Publisher'', JStr (mr_Publisher m)),
     (''PublishedAt'', JStr (ev_fmtTime ev (mr_PublishedAt m)))]"

definition handleMessages :: "Env \<Rightarrow> Claims \<Rightarrow> handler" where
  "handleMessages ev claims r s =
     (case GetMsgs (ev_pool ev) (query_get r ''topic'') (queryInt r ''limit'' 50) (queryInt r ''offset'' 0) of
        (_, _, Some err) \<Rightarrow> (Some (db_error err), s)
      | (msgs, n, None) \<Rightarrow>
          (Some (writeJSON 200 (JObj [(''messages'', JArr (map (msg_json ev) msgs)), (''total'', JInt n)])), s))"

definition RouterAllRetained :: "Broker \<Rightarrow> (string \<times> bytes \<times> byte) list" where
  "RouterAllRetained b = map (\<lambda>m. (rm_Topic m, rm_Payload m, rm_QoS m)) (AllRetained (bk_router b))"

definition handleRetained :: "Claims \<Rightarrow> handler" where
  "handleRetained claims r s =
     (let prefix' = query_get r ''prefix'';
          result = fold (\<lambda>(topic, payload, qos) m.
                     if prefix' = [] \<or> HasPrefix topic prefix'
                     then AList.update topic (JObj [(''qos'', JByte qos), (''size'', JInt (int (length payload)))]) m else m)
                   (RouterAllRetained (api_broker s)) []
      in (Some (writeJSON 200 (JObj [(''retained'', JObj result), (''count'', JInt (int (length result)))])), s))"

definition handleRetainedDelete :: "string \<Rightarrow> Claims \<Rightarrow> handler" where
  "handleRetainedDelete topic claims r s =
     (Some (write_status 204),
      api_request [ApiPublish \<lparr>ap_Topic = topic, ap_Payload = [], ap_QoS = 0, ap_Retain = True, ap_Publisher = []\<rparr>] s)"

section \<open>Administration\<close>

definition stat_json :: "Env \<Rightarrow> stat \<Rightarrow> json" where
  "stat_json ev v =
     (case v of Count n \<Rightarrow> JInt n | Text t \<Rightarrow> JStr t | Duration d \<Rightarrow> JNum (ev_fmtFloat ev (Seconds d)))"

definition stats_json :: "Env \<Rightarrow> Api \<Rightarrow> json" where
  "stats_json ev s = JObj (map (\<lambda>(k, v). (k, stat_json ev v)) (api_Stats ev s))"

definition handleStats :: "Env \<Rightarrow> Claims \<Rightarrow> handler" where
  "handleStats ev claims r s = (Some (writeJSON 200 (stats_json ev s)), s)"

definition handleSLO :: "Env \<Rightarrow> Claims \<Rightarrow> handler" where
  "handleSLO ev claims r s =
     (let slo = cf_SLO (api_cfg s) in
      (Some (writeJSON 200 (JObj [(''targets'', JObj [
          (''messages_per_second'', JInt (sc_TargetMessagesPerSecond slo)), (''p99_latency_ms'', JInt (sc_TargetP99LatencyMs slo)),
          (''connections_cluster'', JInt (sc_TargetConnPerCluster slo)), (''failover_rto_seconds'', JInt (sc_FailoverRTOSeconds slo)),
          (''failover_rpo_seconds'', JInt (sc_FailoverRPOSeconds slo)),
          (''error_budget_percent'', JNum (ev_fmtFloat ev (sc_ErrorBudgetPercent slo)))]),
        (''current'', stats_json ev s)])), s))"

definition handleReadiness :: "Env \<Rightarrow> Claims \<Rightarrow> handler" where
  "handleReadiness ev claims r s = handleReady ev r s"

definition client_json :: "Env \<Rightarrow> ClientInfo \<Rightarrow> json" where
  "client_json ev c = JObj [(''client_id'', JStr (ci_ClientID c)), (''username'', JStr (ci_Username c)),
     (''broker_id'', JStr (ci_BrokerID c)), (''remote_addr'', JStr (ci_RemoteAddr c)),
     (''connected_at'', JStr (ev_fmtTime ev (ci_ConnectedAt c))), (''protocol'', JByte (ci_Protocol c))]"

definition handleClients :: "Env \<Rightarrow> Claims \<Rightarrow> handler" where
  "handleClients ev claims r s =
     (case GetAllClients (ev_redis ev) of
        Inl err \<Rightarrow> (Some (writeJSON 500 (errBody ''redis_error'' err)), s)
      | Inr clients \<Rightarrow>
          (Some (writeJSON 200 (JObj [(''clients'', JArr (map (client_json ev) clients)), (''count'', JInt (int (length clients))),
             (''timestamp'', JInt (unix ev))])), s))"

definition handleLogs :: "Env \<Rightarrow> Claims \<Rightarrow> handler" where
  "handleLogs ev claims r s =
     (case GetMsgs (ev_pool ev) (query_get r ''topic'') (queryInt r ''limit'' 100) 0 of
        (_, _, Some err) \<Rightarrow> (Some (db_error err), s)
      | (msgs, _, None) \<Rightarrow>
          (Some (writeJSON 200 (JObj [(''logs'', JArr (map (msg_json ev) msgs)), (''count'', JInt (int (length msgs)))])), s))"

record aclReq =
  aq_ClientGlob :: string
  aq_TopicFilter :: string
  aq_Permission :: string

definition set_aclReq :: "string \<Rightarrow> json \<Rightarrow> aclReq \<Rightarrow> aclReq option" where
  "set_aclReq n v q =
     (if n = ''client_pattern'' then map_option (\<lambda>x. q\<lparr>aq_ClientGlob := x\<rparr>) (as_string v (aq_ClientGlob q))
      else if n = ''topic_pattern'' then map_option (\<lambda>x. q\<lparr>aq_TopicFilter := x\<rparr>) (as_string v (aq_TopicFilter q))
      else map_option (\<lambda>x. q\<lparr>aq_Permission := x\<rparr>) (as_string v (aq_Permission q)))"

definition permMap :: "(string, Perm) gomap" where
  "permMap = [(''subscribe'', PermSubscribe), (''publish'', PermPublish), (''both'', PermAll), (''none'', PermNone)]"

definition handleACLAdd :: "Env \<Rightarrow> Claims \<Rightarrow> handler" where
  "handleACLAdd ev claims r s =
     (case decodeJSON ev r [''client_pattern'', ''topic_pattern'', ''permission''] set_aclReq
             \<lparr>aq_ClientGlob = [], aq_TopicFilter = [], aq_Permission = []\<rparr> of
        Inl resp \<Rightarrow> (Some resp, s)
      | Inr req \<Rightarrow>
          (case map_of permMap (aq_Permission req) of
             None \<Rightarrow> (Some (writeJSON 400 (errBody ''validation'' ''invalid permission'')), s)
           | Some perm \<Rightarrow>
               (Some (writeJSON 201 (JObj [(''status'', JStr ''added'')])),
                s\<lparr>api_authn := AddACLRule \<lparr>ClientGlob = aq_ClientGlob req, TopicFilter = aq_TopicFilter req, Perm = perm\<rparr>
                     (api_authn s)\<rparr>)))"

text \<open>A call on a client without a session panics.\<close>

definition handleDisconnect_api :: "string \<Rightarrow> Claims \<Rightarrow> handler" where
  "handleDisconnect_api id' claims r s =
     (let resp = Some (writeJSON 200 (JObj [(''status'', JStr ''disconnect_sent''), (''client_id'', JStr id')])) in
      case GetClient id' (api_broker s) of
        None \<Rightarrow> (resp, s)
      | Some c \<Rightarrow>
          (case ForceDisconnect c (api_broker s) of
             (Inl _, b) \<Rightarrow> (None, s\<lparr>api_broker := b\<rparr>)
           | (Inr _, b) \<Rightarrow> (resp, s\<lparr>api_broker := b\<rparr>)))"

definition handleBan :: "Env \<Rightarrow> Claims \<Rightarrow> handler" where
  "handleBan ev claims r s =
     (case decodeJSON ev r [''username''] (\<lambda>n v q. as_string v q) [] of
        Inl resp \<Rightarrow> (Some resp, s)
      | Inr username \<Rightarrow>
          (Some (writeJSON 200 (JObj [(''status'', JStr ''banned''), (''username'', JStr username)])),
           api_request [ApiSetUserBanned username True] (s\<lparr>api_authn := SetBanned username True (api_authn s)\<rparr>)))"

text \<open>
  A slice of more than \<open>2 ^ 45\<close> pointers cannot be made: the handler panics. The value of a second is scanned
  from the text of the whole Redis answer.
\<close>

definition handleTimeseries :: "Env \<Rightarrow> Claims \<Rightarrow> handler" where
  "handleTimeseries ev claims r s =
     (let window = queryInt r ''window'' 60; now = unix ev in
      if window > 2 ^ 45 then (None, s)
      else
        let second = (\<lambda>i. now - window + i);
            val = (\<lambda>i. case ev_rate ev (''luma:rate:'' @ Itoa (second i)) of None \<Rightarrow> 0 | Some t \<Rightarrow> Sscanf_d t);
            series = map (\<lambda>i. JObj [(''timestamp'', JInt (second i)), (''messages'', JInt (val i))]) [0..window - 1]
        in (Some (writeJSON 200 (JObj [(''window_seconds'', JInt window), (''series'', JArr series),
              (''total'', JInt (sum_list (map val [0..window - 1])))])), s))"

section \<open>WebSocket clients\<close>

definition send_capacity :: nat where
  "send_capacity = 256"

text \<open>A send that does not block: the message is dropped if the channel of the client is full.\<close>

definition ws_send :: "string \<Rightarrow> json \<Rightarrow> WSHub \<Rightarrow> WSHub" where
  "ws_send id' data h =
     (if length (hb_send h id') < send_capacity then h\<lparr>hb_send := (hb_send h)(id' := hb_send h id' @ [data])\<rparr> else h)"

definition hub_add :: "string \<Rightarrow> WSHub \<Rightarrow> WSHub" where
  "hub_add id' h = h\<lparr>hb_clients := id' # removeAll id' (hb_clients h), hb_send := (hb_send h)(id' := []), hb_count := hb_count h + 1\<rparr>"

definition hub_remove :: "string \<Rightarrow> WSHub \<Rightarrow> WSHub" where
  "hub_remove id' h = h\<lparr>hb_clients := removeAll id' (hb_clients h), hb_count := hb_count h - 1\<rparr>"

definition Broadcast :: "json \<Rightarrow> WSHub \<Rightarrow> WSHub" where
  "Broadcast msg h = fold (\<lambda>id'. ws_send id' msg) (hb_clients h) h"

definition on_hub :: "(WSHub \<Rightarrow> WSHub) \<Rightarrow> Api \<Rightarrow> Api" where
  "on_hub f s = s\<lparr>api_hub := f (api_hub s)\<rparr>"

definition ws_add :: "string \<Rightarrow> Api \<Rightarrow> Api" where
  "ws_add id' s = api_count [Inc WSConnectionsActive] (on_hub (hub_add id') s)"

definition ws_remove :: "string \<Rightarrow> Api \<Rightarrow> Api" where
  "ws_remove id' s = api_count [Dec WSConnectionsActive] (on_hub (hub_remove id') s)"

text \<open>
  The handshake. The library answers a request that it cannot upgrade; after an upgrade the connection leaves HTTP, which is the
  status 101 here, and the welcome message is written to it.
\<close>

definition handleWebSocket :: "Env \<Rightarrow> handler" where
  "handleWebSocket ev r s =
     (if \<not> originAllowed (rq_Origin r) s
      then (Some \<lparr>rs_Status = 403, rs_Header = [(''Content-Type'', ''text/plain; charset=utf-8''),
              (''X-Content-Type-Options'', ''nosniff'')], rs_Body = WText ''origin not allowed''\<rparr>, s)
      else case ev_upgrade ev of
        Some resp \<Rightarrow> (Some resp, s)
      | None \<Rightarrow> (Some \<lparr>rs_Status = 101, rs_Header = [], rs_Body = WJson (JObj [(''event'', JStr ''connected''), (''id'', JStr (ev_uuid ev)),
              (''timestamp'', JInt (unix ev)), (''message'', JStr ''Connected to LUMA MQTT stream'')])\<rparr>,
            ws_add (ev_uuid ev) s))"

text \<open>\<open>byte(q)\<close> of a float: its integer part if that is a byte.\<close>

definition float_byte :: "Env \<Rightarrow> rat \<Rightarrow> byte" where
  "float_byte ev q =
     (let n = (if q < 0 then - \<lfloor>- q\<rfloor> else \<lfloor>q\<rfloor>) in if 0 \<le> n \<and> n < 256 then of_int n else ev_oobByte ev q)"

definition member_string :: "(string, json) gomap \<Rightarrow> string \<Rightarrow> string" where
  "member_string cmd k = (case map_of cmd k of Some (JStr t) \<Rightarrow> t | _ \<Rightarrow> [])"

definition handleWSCommand :: "Env \<Rightarrow> string \<Rightarrow> (string, json) gomap \<Rightarrow> Api \<Rightarrow> Api" where
  "handleWSCommand ev id' cmd s =
     (let action = member_string cmd ''action'' in
      if action = ''publish'' then
        let topic = member_string cmd ''topic'';
            payload = member_string cmd ''payload'';
            qos = (case map_of cmd ''qos'' of
                     Some (JNum lit) \<Rightarrow> (case ev_ParseFloat ev lit of Some q \<Rightarrow> float_byte ev q | None \<Rightarrow> 0)
                   | _ \<Rightarrow> 0);
            s = (if topic \<noteq> [] then api_request [ApiPublish \<lparr>ap_Topic = topic, ap_Payload = payload, ap_QoS = qos,
                   ap_Retain = False, ap_Publisher = []\<rparr>] s else s)
        in on_hub (ws_send id' (JObj [(''event'', JStr ''published''), (''topic'', JStr topic)])) s
      else if action = ''ping'' then
        on_hub (ws_send id' (JObj [(''event'', JStr ''pong''), (''timestamp'', JInt (unix ev))])) s
      else s)"

text \<open>
  One turn of the read pump: \<open>raw\<close> is the JSON value of the message, \<^const>\<open>None\<close> if it has none. Both pumps
  end by removing the client: the read pump when reading fails, the write pump when writing fails.
\<close>

definition ws_message :: "Env \<Rightarrow> string \<Rightarrow> json option \<Rightarrow> Api \<Rightarrow> Api" where
  "ws_message ev id' raw s =
     (case raw of
        Some JNull \<Rightarrow> handleWSCommand ev id' [] s
      | Some v \<Rightarrow> (case as_map (ev_ParseFloat ev) v [] of None \<Rightarrow> s | Some cmd \<Rightarrow> handleWSCommand ev id' cmd s)
      | None \<Rightarrow> s)"

definition read_pump_end :: "string \<Rightarrow> Api \<Rightarrow> Api" where
  "read_pump_end id' s = ws_remove id' s"

definition write_pump_end :: "string \<Rightarrow> Api \<Rightarrow> Api" where
  "write_pump_end id' s = ws_remove id' s"

definition write_pump_take :: "string \<Rightarrow> Api \<Rightarrow> Api" where
  "write_pump_take id' s = on_hub (\<lambda>h. h\<lparr>hb_send := (hb_send h)(id' := drop 1 (hb_send h id'))\<rparr>) s"

definition ingestRedisMessage :: "Env \<Rightarrow> ClusterMsg \<Rightarrow> Api \<Rightarrow> Api" where
  "ingestRedisMessage ev msg s =
     on_hub (Broadcast (JObj [(''event'', JStr ''mqtt_message''), (''topic'', JStr (cg_Topic msg)),
       (''payload'', JStr (string_of_bytes (cg_Payload msg))), (''qos'', JByte (cg_QoS msg)), (''retain'', JBool (cg_Retain msg)),
       (''timestamp'', JInt (unix ev))])) s"

section \<open>Routes\<close>

datatype route =
    RRoot | RHealth | RReady | RRegister | RLogin | RMe | RRefresh
  | RDeviceCreate | RDeviceList | RDeviceGet string | RDeviceDelete string
  | RPublish_api | RSubscribe_api | RMessages | RRetained | RRetainedDelete string
  | RStats | RSLO | RReadiness | RClients | RLogs | RACLAdd | RDisconnect_api string | RBan | RTimeseries
  | RWebSocket | RMetrics | RMethodNotAllowed

text \<open>
  The patterns with a fixed path, then those with a wildcard; a pattern for GET also serves HEAD, and \<open>GET /\<close>
  serves every path, so that a path with no pattern for another method is answered with 405.
\<close>

definition fixed_routes :: "((string \<times> string list) \<times> route) list" where
  "fixed_routes =
     [((''GET'', [''health'']), RHealth), ((''GET'', [''ready'']), RReady),
      ((''POST'', [''auth'', ''register'']), RRegister), ((''POST'', [''auth'', ''login'']), RLogin),
      ((''GET'', [''auth'', ''me'']), RMe), ((''POST'', [''auth'', ''refresh'']), RRefresh),
      ((''POST'', [''devices'']), RDeviceCreate), ((''GET'', [''devices'']), RDeviceList),
      ((''POST'', [''mqtt'', ''publish'']), RPublish_api), ((''POST'', [''mqtt'', ''subscribe'']), RSubscribe_api),
      ((''GET'', [''mqtt'', ''messages'']), RMessages), ((''GET'', [''mqtt'', ''retained'']), RRetained),
      ((''GET'', [''admin'', ''stats'']), RStats), ((''GET'', [''admin'', ''slo'']), RSLO),
      ((''GET'', [''admin'', ''readiness'']), RReadiness), ((''GET'', [''admin'', ''clients'']), RClients),
      ((''GET'', [''admin'', ''logs'']), RLogs), ((''POST'', [''admin'', ''acl'']), RACLAdd),
      ((''POST'', [''admin'', ''ban'']), RBan), ((''GET'', [''admin'', ''timeseries'']), RTimeseries),
      ((''GET'', [''ws'']), RWebSocket), ((''GET'', [''metrics'']), RMetrics)]"

definition wildcard_route :: "string \<Rightarrow> string list \<Rightarrow> route option" where
  "wildcard_route m segs =
     (case segs of
        [a, b] \<Rightarrow> if a = ''devices'' \<and> b \<noteq> [] \<and> m = ''GET'' then Some (RDeviceGet b)
                   else if a = ''devices'' \<and> b \<noteq> [] \<and> m = ''DELETE'' then Some (RDeviceDelete b) else None
      | a # b # c # segs' \<Rightarrow>
          if a = ''mqtt'' \<and> b = ''retained'' \<and> m = ''DELETE'' then Some (RRetainedDelete (strings_Join (c # segs') slash))
          else if a = ''admin'' \<and> b = ''disconnect'' \<and> c \<noteq> [] \<and> segs' = [] \<and> m = ''POST'' then Some (RDisconnect_api c)
          else None
      | _ \<Rightarrow> None)"

definition route_of :: "string \<Rightarrow> string list \<Rightarrow> route" where
  "route_of method segs =
     (let m = (if method = ''HEAD'' then ''GET'' else method) in
      case map_of fixed_routes (m, segs) of
        Some x \<Rightarrow> x
      | None \<Rightarrow> (case wildcard_route m segs of
                   Some x \<Rightarrow> x
                 | None \<Rightarrow> if m = ''GET'' then RRoot else RMethodNotAllowed))"

definition mux :: "Env \<Rightarrow> handler" where
  "mux ev r s =
     (case route_of (rq_Method r) (rq_Segments r) of
        RRoot \<Rightarrow> handleRoot r s
      | RHealth \<Rightarrow> handleHealth ev r s
      | RReady \<Rightarrow> handleReady ev r s
      | RRegister \<Rightarrow> handleRegister ev r s
      | RLogin \<Rightarrow> handleLogin ev r s
      | RMe \<Rightarrow> authed ev (handleMe ev) r s
      | RRefresh \<Rightarrow> authed ev (handleRefresh ev) r s
      | RDeviceCreate \<Rightarrow> authed ev (handleDeviceCreate ev) r s
      | RDeviceList \<Rightarrow> authed ev (handleDeviceList ev) r s
      | RDeviceGet id' \<Rightarrow> authed ev (handleDeviceGet ev id') r s
      | RDeviceDelete id' \<Rightarrow> authed ev (handleDeviceDelete ev id') r s
      | RPublish_api \<Rightarrow> authed ev (handlePublish_api ev) r s
      | RSubscribe_api \<Rightarrow> authed ev (handleSubscribe_api ev) r s
      | RMessages \<Rightarrow> authed ev (handleMessages ev) r s
      | RRetained \<Rightarrow> authed ev handleRetained r s
      | RRetainedDelete topic \<Rightarrow> authed ev (handleRetainedDelete topic) r s
      | RStats \<Rightarrow> authed ev (handleStats ev) r s
      | RSLO \<Rightarrow> admin ev (handleSLO ev) r s
      | RReadiness \<Rightarrow> admin ev (handleReadiness ev) r s
      | RClients \<Rightarrow> authed ev (handleClients ev) r s
      | RLogs \<Rightarrow> admin ev (handleLogs ev) r s
      | RACLAdd \<Rightarrow> admin ev (handleACLAdd ev) r s
      | RDisconnect_api id' \<Rightarrow> admin ev (handleDisconnect_api id') r s
      | RBan \<Rightarrow> admin ev (handleBan ev) r s
      | RTimeseries \<Rightarrow> authed ev (handleTimeseries ev) r s
      | RWebSocket \<Rightarrow> handleWebSocket ev r s
      | RMetrics \<Rightarrow> (Some (write_status 200), s)
      | RMethodNotAllowed \<Rightarrow> (Some (write_status 405), s))"

section \<open>Middlewares\<close>

definition rateLimitMiddleware :: "Env \<Rightarrow> handler \<Rightarrow> handler" where
  "rateLimitMiddleware ev next r s =
     (if rq_Path r \<in> {''/health'', ''/ready'', ''/metrics'', ''/''} then next r s
      else
        let ip = (case SplitHostPort (rq_RemoteAddr r) of Some host \<Rightarrow> host | None \<Rightarrow> rq_RemoteAddr r) in
        case Allow (ev_now ev) ip (api_limiter s) of
          (l, ok) \<Rightarrow>
            if \<not> ok then (Some (writeJSON 429 (errBody ''rate_limit_exceeded'' ''Too many requests'')), s\<lparr>api_limiter := l\<rparr>)
            else next r (s\<lparr>api_limiter := l\<rparr>))"

text \<open>A handler that panics leaves no metrics. The duration of a request is not modelled.\<close>

definition loggingMiddleware :: "handler \<Rightarrow> handler" where
  "loggingMiddleware next r s =
     (case next r s of
        (None, s) \<Rightarrow> (None, s)
      | (Some resp, s) \<Rightarrow>
          (Some resp, api_count [Inc (APIRequestTotal (rq_Method r) (rq_Path r) (Itoa (rs_Status resp))),
             Observe (APIRequestDuration (rq_Method r) (rq_Path r)) 0] s))"

definition corsMiddleware :: "handler \<Rightarrow> handler" where
  "corsMiddleware next r s =
     (let headers = [(''Access-Control-Allow-Origin'', resolveOrigin (rq_Origin r) s),
            (''Access-Control-Allow-Methods'', ''GET,POST,PUT,DELETE,OPTIONS''),
            (''Access-Control-Allow-Headers'', ''Authorization,Content-Type''), (''Vary'', ''Origin'')] in
      if rq_Method r = ''OPTIONS'' then (Some \<lparr>rs_Status = 204, rs_Header = headers, rs_Body = WNone\<rparr>, s)
      else case next r s of
             (None, s) \<Rightarrow> (None, s)
           | (Some resp, s) \<Rightarrow> (Some (resp\<lparr>rs_Header := headers @ rs_Header resp\<rparr>), s))"

definition serve :: "Env \<Rightarrow> handler" where
  "serve ev = corsMiddleware (loggingMiddleware (rateLimitMiddleware ev (mux ev)))"

end
