(* ===== verification/Api_Access.thy ===== *)
theory Api_Access
  imports Api Handlers
begin

text \<open>
  What the HTTP interface guarantees: a request that lacks the token or the role its route asks for changes nothing
  but caches and counters; no request damages the broker or changes the credentials and rules
  the broker itself uses; and the registration of an account takes any role and replaces the account
  in memory even when it is refused. Further theorems show the count of WebSocket clients drift and the time series stay zero.
\<close>

section \<open>Tokens\<close>

lemma AuthJWT_cache:
  "\<exists>cache. snd (AuthJWT parse pick now token a) = a\<lparr>tokenCache := cache\<rparr>"
proof -
  have same: "\<exists>cache. a = a\<lparr>tokenCache := cache\<rparr>"
    by (rule exI [of _ "tokenCache a"]) simp
  then show ?thesis
    by (auto simp: AuthJWT_def AuthJWT_parse_def split: option.split sum.split jwterr.split)
qed

definition bearer :: "Request \<Rightarrow> string" where
  "bearer r = TrimPrefix (rq_Authorization r) ''Bearer ''"

definition token_claims :: "Env \<Rightarrow> Request \<Rightarrow> Api \<Rightarrow> autherr + Claims" where
  "token_claims ev r s = (if bearer r = [] then Inl ErrTokenInvalid
     else fst (AuthJWT (ex_parse (ev_ex ev)) (ex_pick (ev_ex ev)) (ev_now ev) (bearer r) (api_authn s)))"

lemma authed_run:
  obtains cache where "authed ev h r s =
    (case token_claims ev r s of
       Inr claims \<Rightarrow> h claims r (s\<lparr>api_authn := (api_authn s)\<lparr>tokenCache := cache\<rparr>\<rparr>)
     | Inl AuthPanic \<Rightarrow> (None, s\<lparr>api_authn := (api_authn s)\<lparr>tokenCache := cache\<rparr>\<rparr>)
     | Inl err \<Rightarrow> (Some (writeJSON 401 (errBody ''unauthorized''
         (if bearer r = [] then ''Bearer token required'' else autherr_text err))), s\<lparr>api_authn := (api_authn s)\<lparr>tokenCache := cache\<rparr>\<rparr>))"
proof (cases "bearer r = []")
  case True
  then show ?thesis
    by (intro that [of "tokenCache (api_authn s)"]) (simp add: authed_def bearer_def token_claims_def)
next
  case False
  let ?j = "AuthJWT (ex_parse (ev_ex ev)) (ex_pick (ev_ex ev)) (ev_now ev) (bearer r) (api_authn s)"
  obtain cache where "snd ?j = (api_authn s)\<lparr>tokenCache := cache\<rparr>"
    using AuthJWT_cache by blast
  then have "?j = (token_claims ev r s, (api_authn s)\<lparr>tokenCache := cache\<rparr>)"
    using False by (simp add: token_claims_def prod_eq_iff)
  with False show ?thesis
    by (intro that [of cache]) (auto simp: authed_def bearer_def split: sum.split autherr.split)
qed

lemma admin_run: "admin ev h = authed ev (\<lambda>claims r s.
     if ''admin'' \<in> set (jc_Roles claims) then h claims r s
     else (Some (writeJSON 403 (errBody ''forbidden'' ''Admin role required'')), s))"
  by (simp add: admin_def)

section \<open>Access classes\<close>

datatype access = Public | Token | AdminRole

definition access_of :: "route \<Rightarrow> access" where
  "access_of x =
     (case x of
        RRoot \<Rightarrow> Public | RHealth \<Rightarrow> Public | RReady \<Rightarrow> Public | RRegister \<Rightarrow> Public | RLogin \<Rightarrow> Public
      | RWebSocket \<Rightarrow> Public | RMetrics \<Rightarrow> Public | RMethodNotAllowed \<Rightarrow> Public
      | RSLO \<Rightarrow> AdminRole | RReadiness \<Rightarrow> AdminRole | RLogs \<Rightarrow> AdminRole | RACLAdd \<Rightarrow> AdminRole
      | RDisconnect_api _ \<Rightarrow> AdminRole | RBan \<Rightarrow> AdminRole
      | _ \<Rightarrow> Token)"

definition authorised :: "Env \<Rightarrow> Request \<Rightarrow> Api \<Rightarrow> bool" where
  "authorised ev r s =
     (case access_of (route_of (rq_Method r) (rq_Segments r)) of
        Public \<Rightarrow> True
      | Token \<Rightarrow> (case token_claims ev r s of Inr _ \<Rightarrow> True | Inl _ \<Rightarrow> False)
      | AdminRole \<Rightarrow> (case token_claims ev r s of Inr claims \<Rightarrow> ''admin'' \<in> set (jc_Roles claims) | Inl _ \<Rightarrow> False))"

text \<open>The state without the rate limiter, the token cache and the metrics.\<close>

definition protected :: "Api \<Rightarrow> Api" where
  "protected s = s\<lparr>api_limiter := NewRateLimiter 0 0, api_authn := (api_authn s)\<lparr>tokenCache := []\<rparr>,
     api_broker := (api_broker s)\<lparr>bk_metrics := []\<rparr>\<rparr>"

lemma protected_simps [simp]:
  "protected (s\<lparr>api_limiter := l\<rparr>) = protected s"
  "protected (s\<lparr>api_authn := (api_authn s)\<lparr>tokenCache := cache\<rparr>\<rparr>) = protected s"
  "protected (api_count cs s) = protected s"
  by (simp_all add: protected_def api_count_def bk_count_def)

definition refused :: "Response option \<Rightarrow> bool" where
  "refused resp \<longleftrightarrow> (case resp of None \<Rightarrow> True | Some x \<Rightarrow> rs_Status x \<in> {401, 403, 429})"

lemma refused_status: "code \<in> {401, 403, 429} \<Longrightarrow> refused (Some (writeJSON code v))"
  by (simp add: refused_def writeJSON_def)

lemma authed_refused:
  assumes "token_claims ev r s = Inl e"
  shows "refused (fst (authed ev h r s)) \<and> protected (snd (authed ev h r s)) = protected s"
proof -
  obtain cache where "authed ev h r s =
    (case token_claims ev r s of
       Inr claims \<Rightarrow> h claims r (s\<lparr>api_authn := (api_authn s)\<lparr>tokenCache := cache\<rparr>\<rparr>)
     | Inl AuthPanic \<Rightarrow> (None, s\<lparr>api_authn := (api_authn s)\<lparr>tokenCache := cache\<rparr>\<rparr>)
     | Inl err \<Rightarrow> (Some (writeJSON 401 (errBody ''unauthorized''
         (if bearer r = [] then ''Bearer token required'' else autherr_text err))), s\<lparr>api_authn := (api_authn s)\<lparr>tokenCache := cache\<rparr>\<rparr>))"
    by (rule authed_run)
  with assms show ?thesis
    by (simp add: refused_def writeJSON_def split: autherr.split)
qed

lemma admin_refused:
  assumes "case token_claims ev r s of Inr claims \<Rightarrow> ''admin'' \<notin> set (jc_Roles claims) | Inl _ \<Rightarrow> True"
  shows "refused (fst (admin ev h r s)) \<and> protected (snd (admin ev h r s)) = protected s"
proof (cases "token_claims ev r s")
  case (Inl e)
  then show ?thesis
    unfolding admin_run by (rule authed_refused)
next
  case (Inr claims)
  obtain cache where "admin ev h r s =
    (if ''admin'' \<in> set (jc_Roles claims) then h claims r (s\<lparr>api_authn := (api_authn s)\<lparr>tokenCache := cache\<rparr>\<rparr>)
     else (Some (writeJSON 403 (errBody ''forbidden'' ''Admin role required'')), s\<lparr>api_authn := (api_authn s)\<lparr>tokenCache := cache\<rparr>\<rparr>))"
    unfolding admin_run by (rule authed_run [of ev _ r s]) (simp add: Inr)
  with assms Inr show ?thesis
    by (simp add: refused_def writeJSON_def)
qed

lemma mux_refused:
  assumes "\<not> authorised ev r s"
  shows "refused (fst (mux ev r s)) \<and> protected (snd (mux ev r s)) = protected s"
proof (cases "access_of (route_of (rq_Method r) (rq_Segments r))")
  case Public
  with assms show ?thesis
    by (simp add: authorised_def)
next
  case Token
  with assms obtain e where "token_claims ev r s = Inl e"
    by (auto simp: authorised_def split: sum.splits)
  then have "refused (fst (authed ev h r s)) \<and> protected (snd (authed ev h r s)) = protected s" for h
    by (rule authed_refused)
  with Token show ?thesis
    by (auto simp: mux_def access_of_def split: route.splits)
next
  case AdminRole
  with assms have "case token_claims ev r s of Inr claims \<Rightarrow> ''admin'' \<notin> set (jc_Roles claims) | Inl _ \<Rightarrow> True"
    by (auto simp: authorised_def split: sum.splits)
  then have "refused (fst (admin ev h r s)) \<and> protected (snd (admin ev h r s)) = protected s" for h
    by (rule admin_refused)
  with AdminRole show ?thesis
    by (auto simp: mux_def access_of_def split: route.splits)
qed

section \<open>The chain of middlewares\<close>

lemma serve_cases:
  assumes "serve ev r s = (resp, s')"
  obtains (options) "rq_Method r = ''OPTIONS''" "map_option rs_Status resp = Some 204" "s' = s"
    | (limited) l cs where "map_option rs_Status resp = Some 429" "s' = api_count cs (s\<lparr>api_limiter := l\<rparr>)"
    | (served) l resp0 s0 cs where "rq_Method r \<noteq> ''OPTIONS''" "mux ev r (s\<lparr>api_limiter := l\<rparr>) = (resp0, s0)"
        "map_option rs_Status resp = map_option rs_Status resp0" "map_option rs_Body resp = map_option rs_Body resp0"
        "s' = api_count cs s0"
proof (cases "rq_Method r = ''OPTIONS''")
  case True
  with assms show ?thesis
    by (intro options) (auto simp: serve_def corsMiddleware_def Let_def)
next
  case False
  have none: "api_count [] x = x" for x
    by (simp add: api_count_def bk_count_def)
  obtain l where l: "rateLimitMiddleware ev (mux ev) r s = mux ev r (s\<lparr>api_limiter := l\<rparr>)
      \<or> rateLimitMiddleware ev (mux ev) r s
        = (Some (writeJSON 429 (errBody ''rate_limit_exceeded'' ''Too many requests'')), s\<lparr>api_limiter := l\<rparr>)"
  proof (cases "rq_Path r \<in> {''/health'', ''/ready'', ''/metrics'', ''/''}")
    case True
    then show ?thesis
      by (intro that [of "api_limiter s"]) (simp add: rateLimitMiddleware_def)
  next
    case False
    then show ?thesis
      by (intro that [of "fst (Allow (ev_now ev) (case SplitHostPort (rq_RemoteAddr r) of Some host \<Rightarrow> host
          | None \<Rightarrow> rq_RemoteAddr r) (api_limiter s))"]) (simp add: rateLimitMiddleware_def Let_def split_beta)
  qed
  obtain resp0 s0 where nx: "rateLimitMiddleware ev (mux ev) r s = (resp0, s0)"
    by fastforce
  have "\<exists>cs. s' = api_count cs s0 \<and> map_option rs_Status resp = map_option rs_Status resp0
      \<and> map_option rs_Body resp = map_option rs_Body resp0"
  proof (cases resp0)
    case None
    with assms False nx show ?thesis
      by (intro exI [of _ "[]"]) (simp add: serve_def corsMiddleware_def loggingMiddleware_def Let_def none)
  next
    case (Some x)
    with assms False nx show ?thesis
      by (auto simp: serve_def corsMiddleware_def loggingMiddleware_def Let_def)
  qed
  then obtain cs where s': "s' = api_count cs s0" and r: "map_option rs_Status resp = map_option rs_Status resp0"
      "map_option rs_Body resp = map_option rs_Body resp0"
    by blast
  from l nx s' r False show ?thesis
    using limited [of cs l] served [of l resp0 s0 cs] by (auto simp: writeJSON_def)
qed

lemma token_claims_limiter [simp]: "token_claims ev r (s\<lparr>api_limiter := l\<rparr>) = token_claims ev r s"
  by (simp add: token_claims_def)

lemma authorised_limiter [simp]: "authorised ev r (s\<lparr>api_limiter := l\<rparr>) = authorised ev r s"
  by (simp add: authorised_def split: access.split)

section \<open>The broker behind the interface\<close>

definition bare_broker :: "Api \<Rightarrow> Broker" where
  "bare_broker s = (api_broker s)\<lparr>bk_metrics := []\<rparr>"

lemma bare_broker_simps [simp]:
  "bare_broker (s\<lparr>api_limiter := l\<rparr>) = bare_broker s" "bare_broker (s\<lparr>api_authn := a\<rparr>) = bare_broker s"
  "bare_broker (api_count cs s) = bare_broker s" "bare_broker (api_request calls s) = bare_broker s"
  "bare_broker (on_hub f s) = bare_broker s"
  by (simp_all add: bare_broker_def api_count_def bk_count_def api_request_def on_hub_def)

text \<open>A handler that always answers and leaves the broker alone.\<close>

definition calm :: "handler \<Rightarrow> bool" where
  "calm h \<longleftrightarrow> (\<forall>r s. fst (h r s) \<noteq> None \<and> bare_broker (snd (h r s)) = bare_broker s)"

lemma calm_accounts: "calm (handleRegister ev)" "calm (handleLogin ev)" "calm (handleMe ev claims)" "calm (handleRefresh ev claims)"
  by (auto simp: calm_def handleRegister_def handleLogin_def handleMe_def handleRefresh_def Let_def
      split: sum.split option.split prod.split)

lemma calm_devices: "calm (handleDeviceCreate ev claims)" "calm (handleDeviceList ev claims)" "calm (handleDeviceGet ev i claims)"
    "calm (handleDeviceDelete ev i claims)"
  by (auto simp: calm_def handleDeviceCreate_def handleDeviceList_def handleDeviceGet_def handleDeviceDelete_def Let_def
      split: sum.split option.split prod.split)

lemma calm_mqtt: "calm (handlePublish_api ev claims)" "calm (handleSubscribe_api ev claims)" "calm (handleMessages ev claims)"
    "calm (handleRetained claims)" "calm (handleRetainedDelete topic claims)"
  by (auto simp: calm_def handlePublish_api_def handleSubscribe_api_def handleMessages_def handleRetained_def
      handleRetainedDelete_def Let_def split: sum.split option.split prod.split)

lemma calm_status: "calm handleRoot" "calm (handleHealth ev)" "calm (handleReady ev)" "calm (handleStats ev claims)"
    "calm (handleSLO ev claims)" "calm (handleReadiness ev claims)" "calm (handleClients ev claims)" "calm (handleLogs ev claims)"
  by (auto simp: calm_def handleRoot_def handleHealth_def handleReady_def handleStats_def handleSLO_def handleReadiness_def
      handleClients_def handleLogs_def Let_def split_beta split: sum.split option.split prod.split)

lemma calm_admin: "calm (handleACLAdd ev claims)" "calm (handleBan ev claims)" "calm (handleWebSocket ev)"
    "calm (\<lambda>r s. (Some x, s))"
  by (auto simp: calm_def handleACLAdd_def handleBan_def handleWebSocket_def ws_add_def Let_def split: sum.split option.split prod.split)

lemmas calm_handlers = calm_accounts calm_devices calm_mqtt calm_status calm_admin

text \<open>The only handlers that are not calm: the time series, which may ask for too long a slice, and the forced disconnect.\<close>

lemma timeseries_run:
  "snd (handleTimeseries ev claims r s) = s"
  "fst (handleTimeseries ev claims r s) = None \<Longrightarrow> queryInt r ''window'' 60 > 2 ^ 45"
  by (auto simp: handleTimeseries_def Let_def split: if_splits)

text \<open>What the interface may do to the broker: nothing, or close the connection of a registered client.\<close>

definition broker_kept :: "Api \<Rightarrow> Api \<Rightarrow> bool" where
  "broker_kept s s' \<longleftrightarrow> wf_broker (api_broker s') \<and> bk_authn (api_broker s') = bk_authn (api_broker s)
     \<and> bk_router (api_broker s') = bk_router (api_broker s) \<and> bk_clients (api_broker s') = bk_clients (api_broker s)"

lemma wf_broker_metrics: "wf_broker (b\<lparr>bk_metrics := m\<rparr>) = wf_broker b"
  by (simp add: wf_broker_def wf_conn_def wf_slots_def queue_ok_def)

lemma bare_kept:
  assumes "wf_broker (api_broker s)" "bare_broker s' = bare_broker s"
  shows "broker_kept s s'"
proof -
  have "wf_broker (bare_broker s')"
    unfolding assms(2) using assms(1) by (simp add: bare_broker_def wf_broker_metrics)
  moreover have "bk_authn (bare_broker s') = bk_authn (bare_broker s)" "bk_router (bare_broker s') = bk_router (bare_broker s)"
      "bk_clients (bare_broker s') = bk_clients (bare_broker s)"
    by (simp_all add: assms(2))
  ultimately show ?thesis
    by (simp add: broker_kept_def bare_broker_def wf_broker_metrics)
qed

lemma disconnect_kept:
  assumes "wf_broker (api_broker s)"
  shows "fst (handleDisconnect_api i claims r s) \<noteq> None \<and> broker_kept s (snd (handleDisconnect_api i claims r s))"
proof (cases "GetClient i (api_broker s)")
  case None
  with assms show ?thesis
    by (simp add: handleDisconnect_api_def broker_kept_def Let_def)
next
  case (Some c)
  let ?b = "api_broker s"
  have b: "binv (fixed ?b) {c} ?b"
    using assms Some by (auto simp: inv_empty GetClient_def intro: inv_registered)
  obtain st where st: "session_of c ?b = Some st"
    using b by (rule inv_session) simp_all
  have run: "ForceDisconnect c ?b = (Inr (), upd_client c (\<lambda>cl. cl\<lparr>cl_connClosed := True\<rparr>) (put_session c (st\<lparr>ss_WillSet := False\<rparr>) ?b))"
    by (simp add: ForceDisconnect_def then_run upd_session_def on_session_run st)
  have "wf_broker (snd (ForceDisconnect c ?b))"
    using inv_ForceDisconnect [OF assms Some] by (simp add: good_step_def)
  with Some run show ?thesis
    by (simp add: handleDisconnect_api_def broker_kept_def Let_def)
qed

lemma authed_kept:
  assumes wf: "wf_broker (api_broker s)"
    and h: "\<And>claims s. wf_broker (api_broker s) \<Longrightarrow> broker_kept s (snd (h claims r s)) \<and> (fst (h claims r s) = None \<longrightarrow> X)"
  shows "broker_kept s (snd (authed ev h r s)) \<and> (fst (authed ev h r s) = None \<longrightarrow> token_claims ev r s = Inl AuthPanic \<or> X)"
proof -
  obtain cache where run: "authed ev h r s =
    (case token_claims ev r s of
       Inr claims \<Rightarrow> h claims r (s\<lparr>api_authn := (api_authn s)\<lparr>tokenCache := cache\<rparr>\<rparr>)
     | Inl AuthPanic \<Rightarrow> (None, s\<lparr>api_authn := (api_authn s)\<lparr>tokenCache := cache\<rparr>\<rparr>)
     | Inl err \<Rightarrow> (Some (writeJSON 401 (errBody ''unauthorized''
         (if bearer r = [] then ''Bearer token required'' else autherr_text err))), s\<lparr>api_authn := (api_authn s)\<lparr>tokenCache := cache\<rparr>\<rparr>))"
    by (rule authed_run)
  let ?s = "s\<lparr>api_authn := (api_authn s)\<lparr>tokenCache := cache\<rparr>\<rparr>"
  have s: "wf_broker (api_broker ?s)" "broker_kept s ?s" "\<And>s'. broker_kept ?s s' \<Longrightarrow> broker_kept s s'"
    using wf by (simp_all add: broker_kept_def)
  show ?thesis
  proof (cases "token_claims ev r s")
    case (Inl e)
    with run s(2) show ?thesis
      by (cases e) simp_all
  next
    case (Inr claims)
    with run have "authed ev h r s = h claims r ?s"
      by simp
    with s(3) h [OF s(1), of claims] show ?thesis
      by simp
  qed
qed

text \<open>The two ways in which a request makes its handler panic.\<close>

definition panics :: "Env \<Rightarrow> Request \<Rightarrow> Api \<Rightarrow> bool" where
  "panics ev r s \<longleftrightarrow> token_claims ev r s = Inl AuthPanic
     \<or> route_of (rq_Method r) (rq_Segments r) = RTimeseries \<and> queryInt r ''window'' 60 > 2 ^ 45"

definition fine :: "Env \<Rightarrow> Request \<Rightarrow> Api \<Rightarrow> Response option \<times> Api \<Rightarrow> bool" where
  "fine ev r s p \<longleftrightarrow> broker_kept s (snd p) \<and> (fst p = None \<longrightarrow> panics ev r s)"

lemma calm_fine: "wf_broker (api_broker s) \<Longrightarrow> calm h \<Longrightarrow> fine ev r s (h r s)"
  unfolding fine_def calm_def using bare_kept by blast

lemma calm_kept: "wf_broker (api_broker s) \<Longrightarrow> calm h \<Longrightarrow> broker_kept s (snd (h r s)) \<and> (fst (h r s) = None \<longrightarrow> False)"
  unfolding calm_def using bare_kept by blast

lemma authed_calm: "wf_broker (api_broker s) \<Longrightarrow> (\<And>claims. calm (h claims)) \<Longrightarrow> fine ev r s (authed ev h r s)"
  using authed_kept [of s h r False ev] calm_kept by (auto simp: fine_def panics_def)

lemma calm_guard: "calm h \<Longrightarrow> calm (\<lambda>r s. if P then h r s else (Some x, s))"
  by (simp add: calm_def)

lemma admin_calm: "wf_broker (api_broker s) \<Longrightarrow> (\<And>claims. calm (h claims)) \<Longrightarrow> fine ev r s (admin ev h r s)"
  unfolding admin_run by (intro authed_calm calm_guard)

lemma admin_disconnect:
  assumes "wf_broker (api_broker s)"
  shows "fine ev r s (admin ev (handleDisconnect_api i) r s)"
proof -
  have "broker_kept s (snd (authed ev (\<lambda>claims r s. if ''admin'' \<in> set (jc_Roles claims) then handleDisconnect_api i claims r s
      else (Some (writeJSON 403 (errBody ''forbidden'' ''Admin role required'')), s)) r s))
    \<and> (fst (authed ev (\<lambda>claims r s. if ''admin'' \<in> set (jc_Roles claims) then handleDisconnect_api i claims r s
      else (Some (writeJSON 403 (errBody ''forbidden'' ''Admin role required'')), s)) r s) = None
      \<longrightarrow> token_claims ev r s = Inl AuthPanic \<or> False)"
    using disconnect_kept by (intro authed_kept assms) (auto simp: broker_kept_def)
  then show ?thesis
    unfolding admin_run by (simp add: fine_def panics_def)
qed

lemma authed_timeseries:
  assumes "wf_broker (api_broker s)" "route_of (rq_Method r) (rq_Segments r) = RTimeseries"
  shows "fine ev r s (authed ev (handleTimeseries ev) r s)"
proof -
  have "broker_kept s (snd (authed ev (handleTimeseries ev) r s))
    \<and> (fst (authed ev (handleTimeseries ev) r s) = None \<longrightarrow> token_claims ev r s = Inl AuthPanic \<or> queryInt r ''window'' 60 > 2 ^ 45)"
    using timeseries_run by (intro authed_kept assms) (auto simp: broker_kept_def)
  with assms(2) show ?thesis
    by (auto simp: fine_def panics_def)
qed

lemma mux_fine: "wf_broker (api_broker s) \<Longrightarrow> fine ev r s (mux ev r s)"
  by (cases "route_of (rq_Method r) (rq_Segments r)")
    (simp_all add: mux_def authed_calm admin_calm calm_fine calm_handlers admin_disconnect authed_timeseries
      calm_fine [where h = "\<lambda>r s. (Some x, s)" for x])

lemma serve_kept:
  assumes "wf_broker (api_broker s)" "serve ev r s = (resp, s')"
  shows "broker_kept s s' \<and> (resp = None \<longrightarrow> panics ev r s)"
  using assms(2)
proof (cases rule: serve_cases)
  case options
  with assms(1) show ?thesis
    by (auto simp: broker_kept_def)
next
  case (limited l cs)
  with assms(1) bare_kept [of s s'] show ?thesis
    by (auto simp: broker_kept_def)
next
  case (served l resp0 s0 cs)
  let ?s = "s\<lparr>api_limiter := l\<rparr>"
  have f: "fine ev r ?s (resp0, s0)"
    using mux_fine [of ?s ev r] assms(1) served(2) by simp
  then have "broker_kept s s0"
    by (simp add: fine_def broker_kept_def)
  moreover have "broker_kept s0 s'"
    using bare_kept [of s0 s'] served(5) \<open>broker_kept s s0\<close> by (simp add: broker_kept_def)
  moreover have "resp = None \<longrightarrow> panics ev r s"
    using f served(3) by (cases resp0) (auto simp: fine_def panics_def)
  ultimately show ?thesis
    by (simp add: broker_kept_def)
qed

section \<open>Sample environment\<close>

text \<open>Libraries that accept no token and hash a password to itself, and a database in which every insertion fails.\<close>

definition sample_pool :: Pool where
  "sample_pool = \<lparr>po_QueryRow = (\<lambda>_ _. Inl ''duplicate key''), po_Query = (\<lambda>_ _. Inr ([], None)), po_Exec = (\<lambda>_ _. (None, 0)),
     po_ScanErr = (\<lambda>_. [])\<rparr>"

definition sample_redis :: RedisClient where
  "sample_redis = \<lparr>rd_Ping = None, rd_clients = Inr [], rd_retained = Inr [], rd_HLen = (\<lambda>_. 0), rd_GetInt64 = (\<lambda>_. 0),
     rd_ZRemRangeByScore = (\<lambda>_ _ _. None), rd_ZRange = (\<lambda>_. Inr [])\<rparr>"

definition sample_env :: Env where
  "sample_env = \<lparr>ev_ex = \<lparr>ex_cmp = (\<lambda>h p. h = string_of_bytes p), ex_parse = (\<lambda>_ _ _ _. Inl JwtOther), ex_pick = (\<lambda>_. [])\<rparr>,
     ev_pool = sample_pool, ev_redis = sample_redis, ev_hashpw = (\<lambda>p _. Inr (string_of_bytes p)), ev_numericDate = id,
     ev_sign = (\<lambda>_ _. Inr []), ev_ParseFloat = (\<lambda>_. None), ev_fmtFloat = (\<lambda>_. []), ev_fmtTime = (\<lambda>_. []),
     ev_jsonErr = (\<lambda>_. []), ev_now = 0, ev_uuid = ''u'', ev_goroutines = 1, ev_rate = (\<lambda>_. None), ev_upgrade = None,
     ev_oobByte = (\<lambda>_. 0)\<rparr>"

definition sample_api :: Api where
  "sample_api = Api_New default_config default_broker (Authenticator_New ''0123456789abcdef'' ''luma'' 60 4)"

definition sample_request :: "string \<Rightarrow> string list \<Rightarrow> json option \<Rightarrow> Request" where
  "sample_request method segs body =
     \<lparr>rq_Method = method, rq_Path = concat (map (Cons slash) segs), rq_Segments = segs, rq_Query = [], rq_Origin = [],
      rq_Authorization = [], rq_Body = body, rq_RemoteAddr = ''10.0.0.1:5000''\<rparr>"

section \<open>Properties\<close>

text \<open>
  C14: access control of the HTTP interface. A request whose route asks for a token is refused unless it carries a token
  that is valid now, and one whose route asks for an administrator unless the token also has that role; a
  refused request has the status 401, 403 or 429, or none if the token made the check panic, and changes nothing but the rate limiter, the token cache and the metrics.
\<close>

theorem api_access:
  assumes "serve ev r s = (resp, s')" "\<not> authorised ev r s"
  shows "refused resp \<and> protected s' = protected s"
  using assms(1)
proof (cases rule: serve_cases)
  case options
  then have "route_of (rq_Method r) (rq_Segments r) = RMethodNotAllowed"
    by (simp add: route_of_def fixed_routes_def wildcard_route_def Let_def split: list.split)
  with assms(2) show ?thesis
    by (simp add: authorised_def access_of_def)
next
  case (limited l cs)
  then show ?thesis
    by (auto simp: refused_def)
next
  case (served l resp0 s0 cs)
  have "refused (fst (mux ev r (s\<lparr>api_limiter := l\<rparr>))) \<and> protected (snd (mux ev r (s\<lparr>api_limiter := l\<rparr>))) = protected s"
    using mux_refused [of ev r "s\<lparr>api_limiter := l\<rparr>"] assms(2) by simp
  with served show ?thesis
    by (cases resp0; cases resp) (auto simp: refused_def)
qed

theorem api_access_witness:
  "let r = sample_request ''POST'' [''admin'', ''ban''] (Some (JObj [(''username'', JStr ''admin'')]));
       (resp, s') = serve sample_env r sample_api
   in refused resp \<and> protected s' = protected sample_api"
proof -
  let ?r = "sample_request ''POST'' [''admin'', ''ban''] (Some (JObj [(''username'', JStr ''admin'')]))"
  have "route_of ''POST'' [''admin'', ''ban''] = RBan"
    by code_simp
  then have "\<not> authorised sample_env ?r sample_api"
    by (simp add: authorised_def sample_request_def access_of_def token_claims_def bearer_def TrimPrefix_def HasPrefix_def)
  then show ?thesis
    using api_access [of sample_env ?r sample_api] by (cases "serve sample_env ?r sample_api") simp
qed



text \<open>
  C16: registration. A well-formed request to register is served without a token. Whatever roles it asks for, and whether or not
  an account of that name exists, the account in the interface's memory is replaced by one with the new password, exactly these
  roles and no ban; only the status tells them apart, 201 if the database accepted the name and 409 if not.
\<close>

theorem register_replaces_account:
  assumes "route_of (rq_Method r) (rq_Segments r) = RRegister"
    and "decodeJSON ev r [''username'', ''password'', ''roles''] set_registerReq \<lparr>rg_Username = [], rg_Password = [], rg_Roles = []\<rparr> = Inr req"
    and "length (rg_Username req) \<ge> 3" "length (rg_Password req) \<ge> 8"
    and "ev_hashpw ev (bytes_of_string (rg_Password req)) (uc_BcryptCost (cf_Auth (api_cfg s))) = Inr hash"
    and "ev_hashpw ev (bytes_of_string (rg_Password req)) (au_cost (api_authn s)) = Inr hash'"
  shows "\<exists>resp s'. mux ev r s = (Some resp, s')
    \<and> rs_Status resp = (if snd (CreateUser (ev_pool ev) (rg_Username req) hash (rg_Roles req)) = None then 201 else 409)
    \<and> map_of (users (api_authn s')) (rg_Username req) =
        Some \<lparr>us_Username = rg_Username req, us_PasswordHash = hash', us_Roles = rg_Roles req, us_Banned = False\<rparr>
    \<and> (\<forall>u. u \<noteq> rg_Username req \<longrightarrow> map_of (users (api_authn s')) u = map_of (users (api_authn s)) u)"
proof -
  obtain user err where c: "CreateUser (ev_pool ev) (rg_Username req) hash (rg_Roles req) = (user, err)"
    by fastforce
  show ?thesis
    using assms(2-) c
    by (cases err) (simp_all add: mux_def assms(1) handleRegister_def AddUser_def api_request_def writeJSON_def Let_def update_conv')
qed

theorem register_replaces_account_witness:
  "\<exists>resp s'. mux sample_env (sample_request ''POST'' [''auth'', ''register'']
        (Some (JObj [(''username'', JStr ''bob''), (''password'', JStr ''12345678''), (''roles'', JArr [JStr ''admin''])])))
      (sample_api\<lparr>api_authn := (api_authn sample_api)\<lparr>users := [(''bob'', \<lparr>us_Username = ''bob'', us_PasswordHash = ''x'', us_Roles = [],
         us_Banned = True\<rparr>)]\<rparr>\<rparr>) = (Some resp, s')
    \<and> rs_Status resp = 409
    \<and> map_of (users (api_authn s')) ''bob'' =
        Some \<lparr>us_Username = ''bob'', us_PasswordHash = ''12345678'', us_Roles = [''admin''], us_Banned = False\<rparr>"
proof -
  let ?r = "sample_request ''POST'' [''auth'', ''register'']
        (Some (JObj [(''username'', JStr ''bob''), (''password'', JStr ''12345678''), (''roles'', JArr [JStr ''admin''])]))"
  let ?s = "sample_api\<lparr>api_authn := (api_authn sample_api)\<lparr>users := [(''bob'', \<lparr>us_Username = ''bob'', us_PasswordHash = ''x'',
     us_Roles = [], us_Banned = True\<rparr>)]\<rparr>\<rparr>"
  let ?req = "\<lparr>rg_Username = ''bob'', rg_Password = ''12345678'', rg_Roles = [''admin'']\<rparr>"
  have 1: "route_of (rq_Method ?r) (rq_Segments ?r) = RRegister"
    unfolding sample_request_def Request.select_convs by code_simp
  have 2: "decodeJSON sample_env ?r [''username'', ''password'', ''roles''] set_registerReq
      \<lparr>rg_Username = [], rg_Password = [], rg_Roles = []\<rparr> = Inr ?req"
    by (simp add: decodeJSON_def sample_request_def decode_struct_def set_registerReq_def as_string_def as_strings_def)
  have 3: "snd (CreateUser (ev_pool sample_env) ''bob'' ''12345678'' [''admin'']) \<noteq> None"
    by (simp add: CreateUser_def sample_env_def sample_pool_def)
  show ?thesis
    using register_replaces_account [OF 1 2, of ?s "''12345678''" "''12345678''"] 3
    by (auto simp: sample_env_def)
qed

section \<open>Counts and series\<close>

text \<open>
  A WebSocket connection is counted once when it opens and discounted twice when it ends, by its two pumps: the count of connections
  and the gauge lose one for every connection that has come and gone.
\<close>

theorem ws_count_drifts:
  "hb_count (api_hub (write_pump_end i (read_pump_end i (ws_add i s)))) = hb_count (api_hub s) - 1"
  by (simp add: write_pump_end_def read_pump_end_def ws_add_def ws_remove_def api_count_def on_hub_def hub_add_def hub_remove_def)

text \<open>
  The text of a Redis answer starts with the name of the command; no number is scanned from such a text, and the time series is 0 for every second.
\<close>

lemma Sscanf_d_command: "Sscanf_d (''get '' @ t) = 0"
  by (simp add: Sscanf_d_def is_space_def is_digit_def Atoi_def Let_def)

theorem timeseries_zero:
  assumes "\<And>key t. ev_rate ev key = Some t \<Longrightarrow> \<exists>u. t = ''get '' @ u" "fst (handleTimeseries ev claims r s) = Some resp"
  obtains window series where "rs_Body resp = WJson (JObj [(''window_seconds'', JInt window), (''series'', JArr series), (''total'', JInt 0)])"
proof -
  have "(case ev_rate ev key of None \<Rightarrow> 0 | Some t \<Rightarrow> Sscanf_d t) = 0" for key
    using assms(1) [of key] Sscanf_d_command by (auto split: option.split)
  with assms(2) that show thesis
    by (auto simp: handleTimeseries_def Let_def writeJSON_def split: if_splits)
qed

text \<open>The answer to a registration and the record of the own account contain the password hash.\<close>

theorem user_json_has_hash: "\<exists>ms. user_json ev u = JObj ms \<and> map_of ms ''PasswordHash'' = Some (JStr (ur_PasswordHash u))"
  by (simp add: user_json_def)

end
