(* ===== verification/Transport.thy ===== *)
theory Transport
  imports Lifecycle Api_Access
begin

text \<open>
  Listeners, transports and the start of the process: MQTT over WebSocket and its byte stream
  (\<open>internal/broker/transports.go\<close>), the accept loop, the TLS configuration, \<open>Start\<close> and \<open>Stop\<close>
  (\<open>internal/broker/server.go\<close>), the logger (\<open>pkg/logger\<close>) and the wiring of the process (\<open>cmd/broker/main.go\<close>).
  Sockets, certificates and the WebSocket and logging libraries are arguments.
\<close>

section \<open>MQTT over WebSocket\<close>

definition mqttWSCheckOrigin :: "string list \<Rightarrow> string \<Rightarrow> bool" where
  "mqttWSCheckOrigin allowed origin =
     (if length allowed = 0 then False
      else if list_ex (\<lambda>o'. o' = ''*'') allowed then True
      else if origin = [] then True
      else list_ex (\<lambda>o'. o' = origin) allowed)"

record Upgrader =
  ug_ReadBufferSize :: int
  ug_WriteBufferSize :: int
  ug_Subprotocols :: "string list"
  ug_CheckOrigin :: "string \<Rightarrow> bool"

definition newMQTTWSUpgrader :: "string list \<Rightarrow> Upgrader" where
  "newMQTTWSUpgrader allowedOrigins =
     \<lparr>ug_ReadBufferSize = 4096, ug_WriteBufferSize = 4096, ug_Subprotocols = [''mqttv5'', ''mqtt'', ''mqttv3.1'', ''mqtt-v3.1''],
      ug_CheckOrigin = mqttWSCheckOrigin allowedOrigins\<rparr>"

text \<open>
  The handler of \<open>/mqtt\<close>. \<open>Upgrade\<close> stands for the handshake of the library with this configuration; it rejects an origin that the check
  rejects.
\<close>

definition ws_handler :: "(Upgrader \<Rightarrow> string \<Rightarrow> bool) \<Rightarrow> string \<Rightarrow> string \<Rightarrow> Broker \<Rightarrow> Broker" where
  "ws_handler Upgrade origin remoteAddr b =
     (if \<not> Upgrade (newMQTTWSUpgrader (bc_MQTTWSAllowedOrigins (cf_Broker (bk_cfg b)))) origin then b
      else ws_acceptConn remoteAddr b)"

section \<open>The byte stream of a WebSocket connection\<close>

record wsConn =
  readBuf :: bytes
  readCursor :: nat

definition newWSConn :: wsConn where
  "newWSConn = \<lparr>readBuf = [], readCursor = 0\<rparr>"

text \<open>
  \<open>Read\<close> into a slice of length \<open>n\<close>; \<open>msgs\<close> are the messages that \<open>ReadMessage\<close> has yet to return, after which it fails. The
  result is \<^const>\<open>None\<close> for an error, and the bytes otherwise.
\<close>

definition wsConn_Read :: "nat \<Rightarrow> wsConn \<times> bytes list \<Rightarrow> bytes option \<times> wsConn \<times> bytes list" where
  "wsConn_Read n st =
     (case st of (c, msgs) \<Rightarrow>
        let copy = (\<lambda>c msgs. let p = take n (drop (readCursor c) (readBuf c))
                             in (Some p, c\<lparr>readCursor := readCursor c + length p\<rparr>, msgs))
        in if readCursor c \<ge> length (readBuf c)
           then (case msgs of [] \<Rightarrow> (None, c, []) | msg # msgs \<Rightarrow> copy (c\<lparr>readBuf := msg, readCursor := 0\<rparr>) msgs)
           else copy c msgs)"

text \<open>\<open>Write\<close> sends one binary message; \<open>WriteMessage\<close> is the library, which returns an error or \<^const>\<open>None\<close>.\<close>

definition wsConn_Write :: "(bytes \<Rightarrow> string option) \<Rightarrow> bytes \<Rightarrow> string + nat" where
  "wsConn_Write WriteMessage p = (case WriteMessage p of Some e \<Rightarrow> Inl e | None \<Rightarrow> Inr (length p))"

fun wsConn_reads :: "nat list \<Rightarrow> wsConn \<times> bytes list \<Rightarrow> bytes list \<times> wsConn \<times> bytes list" where
  "wsConn_reads [] st = ([], st)"
| "wsConn_reads (n # ns) st =
     (case wsConn_Read n st of
        (None, st) \<Rightarrow> ([], st)
      | (Some p, st) \<Rightarrow> (case wsConn_reads ns st of (ps, st) \<Rightarrow> (p # ps, st)))"

section \<open>The accept loop\<close>

text \<open>
  What \<open>Accept\<close> returns: a connection, a timeout or another error; the loop returns when the broker is stopping or on an error
  that is no timeout, and waits longer after each timeout. The result is the new state and delay, or \<^const>\<open>None\<close> when it returns.
\<close>

datatype accepted = Conn string "Certificate option" | Timeout | AcceptError

definition next_delay :: "time \<Rightarrow> time" where
  "next_delay delay =
     (if delay = 0 then 5 * 1000000
      else let delay = delay * 2 in if delay > time_Second then time_Second else delay)"

definition acceptLoop_turn :: "bool \<Rightarrow> accepted \<Rightarrow> time \<times> Broker \<Rightarrow> (time \<times> Broker) option" where
  "acceptLoop_turn stopping r st =
     (case st of (delay, b) \<Rightarrow>
        (case r of
           Conn remoteAddr cert \<Rightarrow> Some (0, acceptConn remoteAddr cert b)
         | Timeout \<Rightarrow> if stopping then None else Some (next_delay delay, b)
         | AcceptError \<Rightarrow> None))"

section \<open>TLS\<close>

datatype ClientAuth = NoClientCert | RequestClientCert | RequireAnyClientCert | RequireAndVerifyClientCert

record 'cert TLS =
  tl_Certificate :: 'cert
  tl_MinVersion :: uint16
  tl_CipherSuites :: "string list"
  tl_ClientAuth :: ClientAuth
  tl_ClientCAs :: "bytes option"

text \<open>What the host does for the broker: the certificate files, and the listeners, each of which opens or fails.\<close>

record 'cert Host =
  ho_LoadX509KeyPair :: "string \<Rightarrow> string \<Rightarrow> string + 'cert"
  ho_ReadFile :: "string \<Rightarrow> string + bytes"
  ho_AppendCertsFromPEM :: "bytes \<Rightarrow> bool"
  ho_Listen :: "string \<Rightarrow> string option"
  ho_ListenTLS :: "string \<Rightarrow> 'cert TLS \<Rightarrow> string option"

definition buildTLSConfig :: "'cert Host \<Rightarrow> TLSConfig \<Rightarrow> string + 'cert TLS" where
  "buildTLSConfig h cfg =
     (case ho_LoadX509KeyPair h (tc_CertFile cfg) (tc_KeyFile cfg) of
        Inl err \<Rightarrow> Inl err
      | Inr cert \<Rightarrow>
          let minVer = (if tc_MinTLS cfg = ''1.3'' then 0x0304 else 0x0303);
              auth = (if tc_ClientAuthMode cfg = ''request'' then RequestClientCert
                      else if tc_ClientAuthMode cfg = ''require'' then RequireAnyClientCert
                      else if tc_ClientAuthMode cfg = ''require_and_verify'' then RequireAndVerifyClientCert
                      else NoClientCert);
              tlsCfg = \<lparr>tl_Certificate = cert, tl_MinVersion = minVer,
                        tl_CipherSuites = [''TLS_ECDHE_RSA_WITH_AES_256_GCM_SHA384'', ''TLS_ECDHE_ECDSA_WITH_AES_256_GCM_SHA384'',
                          ''TLS_ECDHE_RSA_WITH_AES_128_GCM_SHA256''],
                        tl_ClientAuth = auth, tl_ClientCAs = None\<rparr>
          in if tc_ClientCAFile cfg \<noteq> [] then
               (case ho_ReadFile h (tc_ClientCAFile cfg) of
                  Inl err \<Rightarrow> Inl (''read client ca: '' @ err)
                | Inr caPEM \<Rightarrow>
                    if \<not> ho_AppendCertsFromPEM h caPEM then Inl ''invalid client ca bundle''
                    else Inr (tlsCfg\<lparr>tl_ClientCAs := Some caPEM\<rparr>))
             else Inr tlsCfg)"

section \<open>Start and stop\<close>

datatype goroutine =
    AcceptTCP | AcceptTLS | WSAccept | QuicLoop | HeartbeatLoop | PartitionSyncLoop | ClusterLoop | APIPublishLoop
  | MaintenanceLoop | SysLoop | SessionSweepLoop | SetBrokerMeta

text \<open>
  \<open>Start\<close>: the retained messages are loaded, then the listeners and loops are launched; only a failure of the TCP listener is an
  error. The result has the goroutines and the commands to Redis.
\<close>

definition Broker_Start :: "'cert Host \<Rightarrow> RedisClient \<Rightarrow> time \<Rightarrow> Broker \<Rightarrow> (string + goroutine list \<times> redis_cmd list) \<times> Broker" where
  "Broker_Start h r now b =
     (let b = loadRetained (case GetAllRetained r of Inl _ \<Rightarrow> None | Inr rs \<Rightarrow> Some rs) b; cfg = bk_cfg b in
      case ho_Listen h (bc_TCPAddr (cf_Broker cfg)) of
        Some err \<Rightarrow> (Inl (''tcp listen '' @ bc_TCPAddr (cf_Broker cfg) @ '': '' @ err), b)
      | None \<Rightarrow>
          (Inr ([AcceptTCP]
             @ (if tc_CertFile (cf_TLS cfg) \<noteq> [] \<and> tc_KeyFile (cf_TLS cfg) \<noteq> []
                then (case buildTLSConfig h (cf_TLS cfg) of
                        Inl _ \<Rightarrow> []
                      | Inr tlsCfg \<Rightarrow> (case ho_ListenTLS h (bc_TLSAddr (cf_Broker cfg)) tlsCfg of Some _ \<Rightarrow> [] | None \<Rightarrow> [AcceptTLS]))
                else [])
             @ (if bc_EnableWS (cf_Broker cfg) then [WSAccept] else [])
             @ (if bc_EnableQUIC (cf_Broker cfg) then [QuicLoop] else [])
             @ (if cc_Enabled (cf_Cluster cfg) then [HeartbeatLoop, PartitionSyncLoop, ClusterLoop] else [])
             @ [APIPublishLoop, MaintenanceLoop, SysLoop, SessionSweepLoop, SetBrokerMeta],
           if cc_Enabled (cf_Cluster cfg) then BrokerPulse_cmds now (bk_id b) else []), b))"

definition Broker_Stop :: "Broker \<Rightarrow> redis_cmd list" where
  "Broker_Stop b = BrokerLeave_cmds (bk_id b)"

text \<open>One turn of the heartbeat loop.\<close>

definition clusterHeartbeat :: "time \<Rightarrow> Broker \<Rightarrow> redis_cmd list" where
  "clusterHeartbeat now b = BrokerPulse_cmds now (bk_id b)"

section \<open>Logging and the process\<close>

record 'lvl ZapConfig =
  zc_Level :: 'lvl
  zc_Encoding :: string
  zc_ISOTime :: bool
  zc_ColorLevel :: bool
  zc_OutputPaths :: "string list"
  zc_ErrorOutputPaths :: "string list"
  zc_DisableStacktrace :: bool

text \<open>
  \<open>production\<close> is the configuration of \<open>zap.NewProductionConfig\<close>, \<open>UnmarshalText\<close> the parser of levels.
\<close>

definition logger_New :: "(string \<Rightarrow> 'lvl option) \<Rightarrow> 'lvl \<Rightarrow> 'lvl ZapConfig \<Rightarrow> string \<Rightarrow> string \<Rightarrow> 'lvl ZapConfig" where
  "logger_New UnmarshalText InfoLevel production level format =
     (let cfg = production\<lparr>zc_Level := (case UnmarshalText level of Some l \<Rightarrow> l | None \<Rightarrow> InfoLevel)\<rparr>;
          cfg = (if format = ''console'' then cfg\<lparr>zc_Encoding := ''console'', zc_ISOTime := True, zc_ColorLevel := True\<rparr> else cfg)
      in cfg\<lparr>zc_OutputPaths := [''stdout''], zc_ErrorOutputPaths := [''stderr''], zc_DisableStacktrace := True\<rparr>)"

text \<open>
  The state \<open>main\<close> sets up from the loaded configuration: the broker makes an authenticator of its own, and the
  interface gets another one. A failure ends the process; \<open>NewRedis\<close> and \<open>NewPostgres\<close> tell whether storage is reachable.
\<close>

definition main_init ::
    "'cert Host \<Rightarrow> (RedisConfig \<Rightarrow> RedisClient option) \<Rightarrow> (PostgresConfig \<Rightarrow> bool) \<Rightarrow> (bytes \<Rightarrow> int \<Rightarrow> string + string) \<Rightarrow> string
      \<Rightarrow> time \<Rightarrow> Config \<Rightarrow> string + Api" where
  "main_init h NewRedis NewPostgres hashpw uuid now cfg =
     (case Validate cfg of
        Some err \<Rightarrow> Inl (''config error: '' @ err)
      | None \<Rightarrow>
          (case NewRedis (cf_Redis cfg) of
             None \<Rightarrow> Inl ''Redis failed''
           | Some red \<Rightarrow>
               if \<not> NewPostgres (cf_Postgres cfg) then Inl ''PostgreSQL failed''
               else
                 let auth = cf_Auth cfg;
                     authn = Authenticator_New (uc_JWTSecret auth) (uc_JWTIssuer auth) (uc_JWTDuration auth) (uc_BcryptCost auth);
                     authn = (case AddUser hashpw ''admin'' (uc_DefaultPassword auth) [''admin''] authn of Inl _ \<Rightarrow> authn | Inr a \<Rightarrow> a);
                     b = Broker_New hashpw uuid now cfg
                 in case Broker_Start h red now b of
                      (Inl err, b) \<Rightarrow> Inl ''broker start failed''
                    | (Inr _, b) \<Rightarrow> Inr (Api_New cfg b authn)))"

section \<open>Facts\<close>

text \<open>The bytes of a WebSocket connection that were received or will be, and have not been read.\<close>

definition pending :: "wsConn \<times> bytes list \<Rightarrow> bytes" where
  "pending st = (case st of (c, msgs) \<Rightarrow> drop (readCursor c) (readBuf c) @ concat msgs)"

lemma wsConn_Read_pending:
  assumes "wsConn_Read n st = (r, st')"
  shows "case r of Some p \<Rightarrow> length p \<le> n \<and> p @ pending st' = pending st | None \<Rightarrow> pending st = [] \<and> pending st' = []"
proof -
  obtain c msgs where "st = (c, msgs)"
    by fastforce
  moreover have *: "take n (drop k y) @ drop (k + min (length y - k) n) y = drop k y" for k and y :: bytes
    using append_take_drop_id [of n "drop k y"] by (cases "length y - k \<le> n") (simp_all add: add.commute)
  moreover have "take n y @ drop (min (length y) n) y = y" for y :: bytes
    using * [of 0 y] by simp
  ultimately show ?thesis
    using assms by (auto simp: wsConn_Read_def pending_def Let_def split: if_splits list.splits)
qed

lemma next_delay_bounds: "0 \<le> d \<Longrightarrow> d \<le> time_Second \<Longrightarrow> 0 < next_delay d \<and> next_delay d \<le> time_Second"
  by (auto simp: next_delay_def time_Second_def Let_def)

text \<open>A TLS configuration demands verified client certificates only in one mode, and no mode but that one looks at the certificate authorities.\<close>

lemma buildTLSConfig_verifies:
  assumes "buildTLSConfig h cfg = Inr t"
  shows "tl_ClientAuth t = RequireAndVerifyClientCert \<longleftrightarrow> tc_ClientAuthMode cfg = ''require_and_verify''"
  using assms by (auto simp: buildTLSConfig_def Let_def split: sum.splits if_splits)

lemma wf_loadRetained: "wf_broker b \<Longrightarrow> wf_broker (loadRetained records b)"
  using inv_loadRetained inv_empty inv_wf by blast

lemma loadRetained_authn [simp]: "bk_authn (loadRetained records b) = bk_authn b"
  by (simp add: loadRetained_def split: option.split)

text \<open>
  Accounts that are made through the interface are unknown to the broker: from the state \<open>main\<close> sets up, after any requests, the
  broker refuses the password of every user but \<open>admin\<close>.
\<close>

theorem api_accounts_stay_in_api:
  assumes "main_init h NewRedis NewPostgres hashpw uuid now cfg = Inr s" "fold (\<lambda>(ev, r) s. snd (serve ev r s)) rs s = s'" "user \<noteq> ''admin''"
  shows "AuthPassword cmp user password (bk_authn (api_broker s')) = Inl ErrBadCredentials"
proof -
  have "wf_broker (api_broker s) \<Longrightarrow> fold (\<lambda>(ev, r) s. snd (serve ev r s)) rs s = s' \<Longrightarrow> bk_authn (api_broker s') = bk_authn (api_broker s)"
    for s
  proof (induction rs arbitrary: s)
    case (Cons x rs)
    obtain ev r where x: "x = (ev, r)"
      by fastforce
    have "broker_kept s (snd (serve ev r s))"
      using serve_kept [OF Cons.prems(1), of ev r "fst (serve ev r s)"] by simp
    then have "bk_authn (api_broker s') = bk_authn (api_broker (snd (serve ev r s)))"
      and "bk_authn (api_broker (snd (serve ev r s))) = bk_authn (api_broker s)"
      using Cons.IH [of "snd (serve ev r s)"] Cons.prems(2) x by (simp_all add: broker_kept_def)
    then show ?case
      by simp
  qed simp
  moreover have "wf_broker (api_broker s)" "bk_authn (api_broker s) = bk_authn (Broker_New hashpw uuid now cfg)"
    using assms(1) wf_loadRetained [OF wf_Broker_New]
    by (auto simp: main_init_def Api_New_def Broker_Start_def Let_def split: option.splits prod.splits if_splits)
  ultimately have "bk_authn (api_broker s') = bk_authn (Broker_New hashpw uuid now cfg)"
    using assms(2) by metis
  moreover have "map_of (users (bk_authn (Broker_New hashpw uuid now cfg))) user = None"
    using assms(3) by (simp add: Broker_New_def Let_def AddUser_def SetRevokedSerials_def Authenticator_New_def split: sum.split)
  ultimately show ?thesis
    by (simp add: AuthPassword_def)
qed

section \<open>Properties\<close>

text \<open>
  C18: MQTT over WebSocket is a byte stream. Whatever the boundaries of the messages and the sizes of the reads, the bytes that are read
  are, in order and without loss or repetition, a prefix of the bytes of the messages; a read returns at most as many
  bytes as were asked for, and it fails only when everything has been read.
\<close>

theorem ws_byte_stream:
  assumes "wsConn_reads ns (newWSConn, msgs) = (ps, st)"
  shows "concat ps @ pending st = concat msgs
    \<and> list_all2 (\<lambda>p n. length p \<le> n) ps (take (length ps) ns)
    \<and> (length ps < length ns \<longrightarrow> concat ps = concat msgs)"
proof -
  have "concat ps @ pending st' = pending st \<and> list_all2 (\<lambda>p n. length p \<le> n) ps (take (length ps) ns)
      \<and> (length ps < length ns \<longrightarrow> pending st' = [])" if "wsConn_reads ns st = (ps, st')" for st st'
    using that
  proof (induction ns arbitrary: st ps)
    case (Cons n ns)
    obtain r st1 where read: "wsConn_Read n st = (r, st1)"
      by (meson surj_pair)
    show ?case
    proof (cases r)
      case None
      with Cons.prems read wsConn_Read_pending [OF read] show ?thesis
        by simp
    next
      case (Some p)
      obtain ps1 where ps: "wsConn_reads ns st1 = (ps1, st')" "ps = p # ps1"
        using Cons.prems read Some by (auto split: prod.splits)
      have "length p \<le> n" "p @ pending st1 = pending st"
        using Some wsConn_Read_pending [OF read] by simp_all
      with Cons.IH [OF ps(1)] show ?thesis
        by (simp add: ps(2))
    qed
  qed simp
  from this [OF assms] show ?thesis
    by (auto simp: pending_def newWSConn_def)
qed

theorem ws_byte_stream_witness:
  "let (ps, st) = wsConn_reads [2, 2, 5, 1] (newWSConn, [[1, 2, 3], [], [4]])
   in concat ps @ pending st = [1, 2, 3, 4] \<and> ps = [[1, 2], [3], [], [4]]"
proof -
  have r: "wsConn_reads [2, 2, 5, 1] (newWSConn, [[1, 2, 3], [], [4]]) = ([[1, 2], [3], [], [4]], \<lparr>readBuf = [4], readCursor = 1\<rparr>, [])"
    by code_simp
  show ?thesis
    using ws_byte_stream [OF r] r by simp
qed

end
