(* ===== verification/GoClient.thy ===== *)
theory GoClient
  imports Lifecycle Json
begin

unbundle bit_operations_syntax

text \<open>
  The Go client in \<open>clients/go/client.go\<close>: the packets it writes, its read loop and the calls that wait for packets, and the selection of
  the tests by its main function. The connection is the bytes written so far and the bytes that arrive before the deadlines; a
  client and the broker meet in the theorems, which decode with one side what the other has encoded.
\<close>

section \<open>State\<close>

type_synonym int64 = "64 word"

record Packet =
  pk_Type :: byte
  pk_Flags :: byte
  pk_Payload :: bytes

text \<open>
  \<open>written\<close> and \<open>unread\<close> stand for the connection, \<open>recvCh\<close> for the buffered channel, \<open>done\<close> tells whether the second channel is closed.
\<close>

record MQTTClient =
  mc_written :: bytes
  mc_unread :: bytes
  mc_closed :: bool
  mc_clientID :: string
  mc_recvCh :: "Packet list"
  mc_done :: bool

datatype clienterr = ClientErr string | ClientPanic

definition envOr :: "(string \<Rightarrow> string) \<Rightarrow> string \<Rightarrow> string \<Rightarrow> string" where
  "envOr Getenv key def = (if Getenv key \<noteq> [] then Getenv key else def)"

section \<open>Writing\<close>

definition writeUTF8 :: "bytes \<Rightarrow> string \<Rightarrow> bytes" where
  "writeUTF8 w s = w @ put_uint16 (of_nat (length s)) @ bytes_of_string s"

fun writePacket_loop :: "bytes \<Rightarrow> nat \<Rightarrow> bytes" where
  "writePacket_loop buf remaining =
     (let digit = remaining mod 128;
          remaining = remaining div 128;
          digit = (if remaining > 0 then digit OR 0x80 else digit);
          buf = buf @ [of_nat digit]
      in if remaining = 0 then buf else writePacket_loop buf remaining)"

declare writePacket_loop.simps [simp del]

definition client_encodeVarInt :: "nat \<Rightarrow> bytes" where
  "client_encodeVarInt n = writePacket_loop [] n"

text \<open>\<open>err\<close> is the error that writing to the connection returns, if any.\<close>

definition writePacket :: "string option \<Rightarrow> byte \<Rightarrow> bytes \<Rightarrow> MQTTClient \<Rightarrow> string option \<times> MQTTClient" where
  "writePacket err typeFlags payload c =
     (let buf = writePacket_loop [typeFlags] (length payload) @ payload
      in case err of Some e \<Rightarrow> (Some e, c) | None \<Rightarrow> (None, c\<lparr>mc_written := mc_written c @ buf\<rparr>))"

section \<open>Reading\<close>

fun readLoop_len :: "int64 \<Rightarrow> int64 \<Rightarrow> bytes \<Rightarrow> (int64 \<times> bytes) option" where
  "readLoop_len mult remaining [] = None"
| "readLoop_len mult remaining (b # bs) =
     (let remaining = remaining + ucast (b AND 0x7F) * mult;
          mult = mult * 128
      in if b AND 0x80 = 0 then Some (remaining, bs) else readLoop_len mult remaining bs)"

text \<open>
  One turn of the read loop. \<open>make\<close> panics when the length is negative or above the limit of the allocator. With the channel full the loop is
  blocked; when it could send and the client is done as well, \<open>stop\<close> is the choice of the select statement.
\<close>

definition maxAlloc :: int where
  "maxAlloc = 2 ^ 48"

datatype turn = Turn MQTTClient | Blocked | Return | TurnPanic

definition readLoop_turn :: "bool \<Rightarrow> MQTTClient \<Rightarrow> turn" where
  "readLoop_turn stop c =
     (case mc_unread c of
        [] \<Rightarrow> Return
      | typeFlags # bs \<Rightarrow>
          (case readLoop_len 1 0 bs of
             None \<Rightarrow> Return
           | Some (remaining, bs) \<Rightarrow>
               if sint remaining < 0 \<or> sint remaining > maxAlloc then TurnPanic
               else if length bs < unat remaining then Return
               else if mc_done c \<and> (stop \<or> length (mc_recvCh c) \<ge> 64) then Return
               else if length (mc_recvCh c) \<ge> 64 then Blocked
               else
                 let pkt = \<lparr>pk_Type = typeFlags AND 0xF0, pk_Flags = typeFlags AND 0x0F, pk_Payload = take (unat remaining) bs\<rparr>
                 in Turn (c\<lparr>mc_unread := drop (unat remaining) bs, mc_recvCh := mc_recvCh c @ [pkt]\<rparr>)))"

lemma readLoop_len_shrinks: "readLoop_len mult remaining bs = Some (n, bs') \<Longrightarrow> length bs' < length bs"
  by (induction mult remaining bs rule: readLoop_len.induct) (fastforce simp: Let_def split: if_splits)+

lemma readLoop_turn_shrinks: "readLoop_turn stop c = Turn c' \<Longrightarrow> length (mc_unread c') < length (mc_unread c)"
  by (fastforce simp: readLoop_turn_def Let_def dest: readLoop_len_shrinks split: list.splits option.splits if_splits prod.splits)

text \<open>The turns until the loop returns or blocks; \<^const>\<open>None\<close> is a panic.\<close>

function readLoop :: "MQTTClient \<Rightarrow> MQTTClient option" where
  "readLoop c =
     (case readLoop_turn False c of Turn c \<Rightarrow> readLoop c | Blocked \<Rightarrow> Some c | Return \<Rightarrow> Some c | TurnPanic \<Rightarrow> None)"
  by pat_completeness auto
termination
  by (relation "measure (\<lambda>c. length (mc_unread c))") (auto dest: readLoop_turn_shrinks)

declare readLoop.simps [simp del]

section \<open>Waiting\<close>

definition hex_digit :: "nat \<Rightarrow> char" where
  "hex_digit n = (if n < 10 then char_of (48 + n) else char_of (55 + n))"

text \<open>The packets in the channel are those that arrive before the timer.\<close>

definition waitFor :: "byte \<Rightarrow> MQTTClient \<Rightarrow> (string + Packet) \<times> MQTTClient" where
  "waitFor pktype c =
     (case dropWhile (\<lambda>pkt. pk_Type pkt \<noteq> pktype) (mc_recvCh c) of
        pkt # ps \<Rightarrow> (Inr pkt, c\<lparr>mc_recvCh := ps\<rparr>)
      | [] \<Rightarrow> (Inl (''timeout waiting for packet type 0x'' @ [hex_digit (unat pktype div 16), hex_digit (unat pktype mod 16)]),
               c\<lparr>mc_recvCh := []\<rparr>))"

definition WaitMessage :: "MQTTClient \<Rightarrow> Packet option \<times> MQTTClient" where
  "WaitMessage c =
     (case dropWhile (\<lambda>pkt. pk_Type pkt \<noteq> 0x30) (mc_recvCh c) of
        pkt # ps \<Rightarrow> (Some pkt, c\<lparr>mc_recvCh := ps\<rparr>)
      | [] \<Rightarrow> (None, c\<lparr>mc_recvCh := []\<rparr>))"

fun WaitMessages :: "nat \<Rightarrow> MQTTClient \<Rightarrow> Packet list \<times> MQTTClient" where
  "WaitMessages 0 c = ([], c)"
| "WaitMessages (Suc count) c =
     (case WaitMessage c of
        (None, c) \<Rightarrow> ([], c)
      | (Some pkt, c) \<Rightarrow> (case WaitMessages count c of (pkts, c) \<Rightarrow> (pkt # pkts, c)))"

section \<open>Operations\<close>

definition connect_payload :: "string \<Rightarrow> string \<Rightarrow> string \<Rightarrow> bytes" where
  "connect_payload clientID username password =
     (let payload = writeUTF8 [] ''MQTT'';
          payload = payload @ [4];
          flags = 0x02 :: byte;
          flags = (if username \<noteq> [] then flags OR 0x80 else flags);
          flags = (if password \<noteq> [] then flags OR 0x40 else flags);
          payload = payload @ [flags];
          payload = payload @ put_uint16 60;
          payload = writeUTF8 payload clientID;
          payload = (if username \<noteq> [] then writeUTF8 payload username else payload);
          payload = (if password \<noteq> [] then writeUTF8 payload password else payload)
      in payload)"

definition new_client :: "string \<Rightarrow> MQTTClient" where
  "new_client clientID =
     \<lparr>mc_written = [], mc_unread = [], mc_closed = False, mc_clientID = clientID, mc_recvCh = [], mc_done = False\<rparr>"

definition connect_send :: "string option \<Rightarrow> string \<Rightarrow> string \<Rightarrow> string \<Rightarrow> string option \<times> MQTTClient" where
  "connect_send err clientID username password =
     writePacket err 0x10 (connect_payload clientID username password) (new_client clientID)"

text \<open>
  \<open>arrive\<close> stands for the turns of the read loop until the awaited packet is there or the timer fires. The message for a refused connection indexes the payload
  also when it is too short, which panics.
\<close>

definition client_Connect ::
    "string option \<Rightarrow> string option \<Rightarrow> (MQTTClient \<Rightarrow> MQTTClient) \<Rightarrow> string \<Rightarrow> string \<Rightarrow> string \<Rightarrow> bool \<Rightarrow> clienterr + MQTTClient" where
  "client_Connect dialErr err arrive clientID username password cleanSession =
     (case dialErr of
        Some e \<Rightarrow> Inl (ClientErr e)
      | None \<Rightarrow>
          (case connect_send err clientID username password of
             (Some e, c) \<Rightarrow> Inl (ClientErr e)
           | (None, c) \<Rightarrow>
               (case waitFor 0x20 (arrive c) of
                  (Inl e, c) \<Rightarrow> Inl (ClientErr (''connack: '' @ e))
                | (Inr pkt, c) \<Rightarrow>
                    if length (pk_Payload pkt) < 2 then Inl ClientPanic
                    else if pk_Payload pkt ! 1 \<noteq> 0
                    then Inl (ClientErr (''connection refused (code '' @ Itoa (uint (pk_Payload pkt ! 1)) @ '')''))
                    else Inr c)))"

text \<open>Closing a closed channel panics.\<close>

definition client_Disconnect :: "string option \<Rightarrow> MQTTClient \<Rightarrow> clienterr + MQTTClient" where
  "client_Disconnect err c =
     (let c = (case err of Some _ \<Rightarrow> c | None \<Rightarrow> c\<lparr>mc_written := mc_written c @ [0xE0, 0]\<rparr>)
      in if mc_done c then Inl ClientPanic else Inr (c\<lparr>mc_done := True, mc_closed := True\<rparr>))"

text \<open>\<open>rand\<close> is the result of \<open>rand.Intn(65535)\<close>.\<close>

definition client_Publish ::
    "string option \<Rightarrow> nat \<Rightarrow> string \<Rightarrow> bytes \<Rightarrow> byte \<Rightarrow> bool \<Rightarrow> MQTTClient \<Rightarrow> string option \<times> MQTTClient" where
  "client_Publish err rand topic payload qos retain c =
     (let flags = push_bit 1 qos;
          flags = (if retain then flags OR 0x01 else flags);
          buf = writeUTF8 [] topic;
          buf = (if qos > 0 then buf @ put_uint16 (of_nat (rand + 1)) else buf);
          buf = buf @ payload
      in writePacket err (0x30 OR flags) buf c)"

definition subscribe_send :: "string option \<Rightarrow> nat \<Rightarrow> string \<Rightarrow> byte \<Rightarrow> MQTTClient \<Rightarrow> string option \<times> MQTTClient" where
  "subscribe_send err rand flt qos c =
     (let packetID = of_nat (rand + 1);
          buf = put_uint16 packetID;
          buf = writeUTF8 buf flt;
          buf = buf @ [qos]
      in writePacket err 0x82 buf c)"

definition client_Subscribe ::
    "string option \<Rightarrow> (MQTTClient \<Rightarrow> MQTTClient) \<Rightarrow> nat \<Rightarrow> string \<Rightarrow> byte \<Rightarrow> MQTTClient \<Rightarrow> string option \<times> MQTTClient" where
  "client_Subscribe err arrive rand flt qos c =
     (case subscribe_send err rand flt qos c of
        (Some e, c) \<Rightarrow> (Some e, c)
      | (None, c) \<Rightarrow> (case waitFor 0x90 (arrive c) of (Inl e, c) \<Rightarrow> (Some e, c) | (Inr _, c) \<Rightarrow> (None, c)))"

section \<open>Helpers\<close>

text \<open>\<open>%06x\<close> of a number below \<open>2 ^ 24\<close>, in lower case.\<close>

definition rid :: "nat \<Rightarrow> string" where
  "rid rand = map (\<lambda>i. let d = rand div 16 ^ i mod 16 in if d < 10 then char_of (48 + d) else char_of (87 + d)) [5, 4, 3, 2, 1, 0]"

definition extractPayload :: "Packet option \<Rightarrow> string" where
  "extractPayload p =
     (case p of
        None \<Rightarrow> []
      | Some p \<Rightarrow>
          if length (pk_Payload p) < 2 then []
          else
            let l = unat (BigEndian_Uint16 (take 2 (pk_Payload p)))
            in if 2 + l > length (pk_Payload p) then [] else string_of_bytes (drop (2 + l) (pk_Payload p)))"

definition max64 :: "int \<Rightarrow> int \<Rightarrow> int" where
  "max64 a b = (if a > b then a else b)"

text \<open>The ellipsis is three bytes of UTF-8.\<close>

definition truncate_str :: "string \<Rightarrow> nat \<Rightarrow> string" where
  "truncate_str s n = (if length s > n then take n s @ [CHR 0xE2, CHR 0x80, CHR 0xA6] else s)"

text \<open>
  What the monitor prints for a message. The end of the topic is computed in 16 bits; a slice expression with bounds that are out of order or
  beyond the payload panics.
\<close>

definition monitor_message :: "Packet \<Rightarrow> clienterr + string \<times> string" where
  "monitor_message msg =
     (if length (pk_Payload msg) < 2 then Inl ClientPanic
      else
        let topicLen = BigEndian_Uint16 (take 2 (pk_Payload msg));
            e = unat (2 + topicLen)
        in if e < 2 \<or> e > length (pk_Payload msg) then Inl ClientPanic
           else Inr (string_of_bytes (drop 2 (take e (pk_Payload msg))), truncate_str (string_of_bytes (drop e (pk_Payload msg))) 120))"

text \<open>\<open>Post\<close> is the exchange with the interface: the decoded body of the response, if there is one.\<close>

definition apiLogin :: "(string \<Rightarrow> json \<Rightarrow> json option) \<Rightarrow> string \<Rightarrow> string \<Rightarrow> string \<Rightarrow> string" where
  "apiLogin Post user pass base =
     (case Post (base @ ''/auth/login'') (JObj [(''password'', JStr pass), (''username'', JStr user)]) of
        Some (JObj result) \<Rightarrow> (case map_of result ''access_token'' of Some (JStr token) \<Rightarrow> token | _ \<Rightarrow> [])
      | _ \<Rightarrow> [])"

section \<open>The tests\<close>

text \<open>
  The surroundings of a test: the flags, the error of dialling for an identifier, the random numbers by their position in the test, what
  arrives at a client that waits for a packet, and what arrives at a client after others have written the given bytes.
\<close>

record world =
  wo_user :: string
  wo_pass :: string
  wo_dialErr :: "string \<Rightarrow> string option"
  wo_rand :: "nat \<Rightarrow> nat"
  wo_arrive :: "MQTTClient \<Rightarrow> MQTTClient"
  wo_deliver :: "bytes \<Rightarrow> MQTTClient \<Rightarrow> MQTTClient"

definition dial :: "world \<Rightarrow> string \<Rightarrow> clienterr + MQTTClient" where
  "dial w ident = client_Connect (wo_dialErr w ident) None (wo_arrive w) ident (wo_user w) (wo_pass w) True"

abbreviation wo_rid :: "world \<Rightarrow> nat \<Rightarrow> string" where
  "wo_rid w i \<equiv> rid (wo_rand w i)"

abbreviation wo_subscribe :: "world \<Rightarrow> nat \<Rightarrow> string \<Rightarrow> byte \<Rightarrow> MQTTClient \<Rightarrow> string option \<times> MQTTClient" where
  "wo_subscribe w i flt qos c \<equiv> client_Subscribe None (wo_arrive w) (wo_rand w i) flt qos c"

abbreviation wo_publish :: "world \<Rightarrow> nat \<Rightarrow> string \<Rightarrow> string \<Rightarrow> byte \<Rightarrow> bool \<Rightarrow> MQTTClient \<Rightarrow> MQTTClient" where
  "wo_publish w i topic payload qos retain c \<equiv> snd (client_Publish None (wo_rand w i) topic (bytes_of_string payload) qos retain c)"

text \<open>
  The result of a test, before its deferred disconnects. A panic that a call raises is passed on; dialling is the only
  call that can raise one, and an error of it fails the test.
\<close>

abbreviation dialled :: "clienterr + MQTTClient \<Rightarrow> (MQTTClient \<Rightarrow> clienterr + bool) \<Rightarrow> clienterr + bool" where
  "dialled d k \<equiv> (case d of Inl ClientPanic \<Rightarrow> Inl ClientPanic | Inl (ClientErr _) \<Rightarrow> Inr False | Inr c \<Rightarrow> k c)"

definition testConnect :: "world \<Rightarrow> clienterr + bool" where
  "testConnect w =
     dialled (dial w (''test-connect-'' @ wo_rid w 0)) (\<lambda>c.
       case client_Disconnect None c of Inl e \<Rightarrow> Inl e | Inr c \<Rightarrow> Inr True)"

definition testQoS0 :: "world \<Rightarrow> clienterr + bool" where
  "testQoS0 w =
     (let topic = ''test/qos0/'' @ wo_rid w 0 in
      dialled (dial w (''test-sub-qos0-'' @ wo_rid w 1)) (\<lambda>sub.
        case wo_subscribe w 2 topic 0 sub of
          (Some err, sub) \<Rightarrow> Inr False
        | (None, sub) \<Rightarrow>
            dialled (dial w (''test-pub-qos0-'' @ wo_rid w 3)) (\<lambda>pub.
              let pub = wo_publish w 4 topic ''{\"test\":\"qos0\"}'' 0 False pub;
                  sub = wo_deliver w (mc_written pub) sub
              in Inr (fst (WaitMessage sub) \<noteq> None))))"

definition seq_json :: "nat \<Rightarrow> string" where
  "seq_json i = ''{\"seq\":'' @ Itoa (int i) @ ''}''"

definition testQoS1 :: "world \<Rightarrow> clienterr + bool" where
  "testQoS1 w =
     (let topic = ''test/qos1/'' @ wo_rid w 0 in
      dialled (dial w (''test-sub-qos1-'' @ wo_rid w 1)) (\<lambda>sub.
        let sub = snd (wo_subscribe w 2 topic 1 sub) in
        dialled (dial w (''test-pub-qos1-'' @ wo_rid w 3)) (\<lambda>pub.
          let pub = fold (\<lambda>i. wo_publish w (4 + i) topic (seq_json i) 1 False) [0..<5] pub;
              sub = wo_deliver w (mc_written pub) sub
          in Inr (length (fst (WaitMessages 5 sub)) = 5))))"

definition testQoS2 :: "world \<Rightarrow> clienterr + bool" where
  "testQoS2 w =
     (let topic = ''test/qos2/'' @ wo_rid w 0 in
      dialled (dial w (''test-sub-qos2-'' @ wo_rid w 1)) (\<lambda>sub.
        let sub = snd (wo_subscribe w 2 topic 2 sub) in
        dialled (dial w (''test-pub-qos2-'' @ wo_rid w 3)) (\<lambda>pub.
          let pub = fold (\<lambda>i. wo_publish w (4 + i) topic (seq_json i) 2 False) [0..<3] pub;
              sub = wo_deliver w (mc_written pub) sub
          in Inr (length (fst (WaitMessages 3 sub)) = 3))))"

definition testWildcards :: "world \<Rightarrow> clienterr + bool" where
  "testWildcards w =
     (let base = ''test/wc/'' @ wo_rid w 0 in
      dialled (dial w (''test-sub-wc-'' @ wo_rid w 1)) (\<lambda>sub.
        let sub = snd (wo_subscribe w 2 (base @ ''/+/data'') 0 sub);
            sub = snd (wo_subscribe w 3 (base @ ''/deep/#'') 0 sub) in
        dialled (dial w (''test-pub-wc-'' @ wo_rid w 4)) (\<lambda>pub.
          let pub = wo_publish w 5 (base @ ''/sensor1/data'') ''1'' 0 False pub;
              pub = wo_publish w 5 (base @ ''/sensor2/data'') ''2'' 0 False pub;
              pub = wo_publish w 5 (base @ ''/sensor1/status'') ''x'' 0 False pub;
              pub = wo_publish w 5 (base @ ''/deep/a/b/c'') ''3'' 0 False pub;
              sub = wo_deliver w (mc_written pub) sub
          in Inr (length (fst (WaitMessages 3 sub)) = 3))))"

text \<open>
  The errors of dialling are ignored here, and using the missing client panics. The result has the publisher, which clears the
  retained message at the end.
\<close>

definition testRetained :: "world \<Rightarrow> clienterr + bool \<times> MQTTClient" where
  "testRetained w =
     (let topic = ''test/retain/'' @ wo_rid w 0 in
      case dial w (''test-pub-retain-'' @ wo_rid w 1) of
        Inl _ \<Rightarrow> Inl ClientPanic
      | Inr pub \<Rightarrow>
          let pub = wo_publish w 2 topic ''{\"retained\":true,\"value\":99}'' 1 True pub in
          (case dial w (''test-sub-retain-'' @ wo_rid w 3) of
             Inl _ \<Rightarrow> Inl ClientPanic
           | Inr sub \<Rightarrow>
               let sub = wo_deliver w (mc_written pub) (snd (wo_subscribe w 4 topic 1 sub)) in
               if fst (WaitMessage sub) \<noteq> None then Inr (True, wo_publish w 5 topic [] 1 True pub) else Inr (False, pub)))"

text \<open>The CONNECT packet with a will that the test of the will writes to a connection of its own.\<close>

definition lwt_packet :: "string \<Rightarrow> string \<Rightarrow> bytes" where
  "lwt_packet ident lwtTopic =
     (let buf = writeUTF8 [] ''MQTT'';
          buf = buf @ [4];
          buf = buf @ [0x06];
          buf = buf @ put_uint16 3;
          buf = writeUTF8 buf (''lwt-test-'' @ ident);
          buf = writeUTF8 buf lwtTopic;
          willMsg = bytes_of_string ''{\"status\":\"offline\"}'';
          buf = buf @ put_uint16 (of_nat (length willMsg));
          raw = buf @ willMsg
      in [0x10] @ client_encodeVarInt (length raw) @ raw)"

definition testLWT :: "world \<Rightarrow> string option \<Rightarrow> clienterr + bool" where
  "testLWT w netErr =
     (let lwtTopic = ''test/lwt/'' @ wo_rid w 0 @ ''/status'' in
      case dial w (''test-lwt-obs-'' @ wo_rid w 1) of
        Inl _ \<Rightarrow> Inl ClientPanic
      | Inr obs \<Rightarrow>
          let obs = snd (wo_subscribe w 2 lwtTopic 1 obs) in
          (case netErr of
             Some _ \<Rightarrow> Inr False
           | None \<Rightarrow>
               let obs = wo_deliver w (lwt_packet (wo_rid w 3) lwtTopic) obs; (msg, obs) = WaitMessage obs
               in Inr True))"

text \<open>The end of the throughput benchmark: the channel of the subscriber is closed, and the deferred disconnect closes it again.\<close>

definition benchmark_end :: "string option \<Rightarrow> MQTTClient \<Rightarrow> clienterr + MQTTClient" where
  "benchmark_end err sub = (if mc_done sub then Inl ClientPanic else client_Disconnect err (sub\<lparr>mc_done := True\<rparr>))"

section \<open>The main function\<close>

text \<open>The names of the tests to run, their results by name, and whether the process exits with an error.\<close>

definition test_order :: "string list" where
  "test_order = [''connect'', ''qos0'', ''qos1'', ''qos2'', ''wildcard'', ''retain'', ''lwt'']"

definition client_main :: "(string \<Rightarrow> bool) \<Rightarrow> string \<Rightarrow> (string, bool) gomap \<times> bool" where
  "client_main fn testName =
     (let run = (if testName \<noteq> ''all'' then [testName] else test_order);
          results = fold (\<lambda>name results. if name \<in> set test_order then AList.update name (fn name) results else results) run [];
          passed = length (filter snd results)
      in (results, passed < length results))"

section \<open>Facts\<close>

lemma writeUTF8_eq [wire]: "fits16 s \<Longrightarrow> writeUTF8 w s = w @ enc_string s"
proof -
  assume "fits16 s"
  moreover have "put_uint16 (of_nat n) = [of_nat (n div 256), of_nat n]" for n
  proof -
    have "n div 256 = drop_bit 8 n"
      by (simp add: drop_bit_eq_div)
    then show ?thesis
      by (auto simp: put_uint16_def bit_simps intro!: bit_word_eqI)
  qed
  ultimately show ?thesis
    by (simp add: writeUTF8_def enc_string_eq)
qed

lemma enc_string_prefix: "fits16 s \<Longrightarrow> enc_string s = put_uint16 (of_nat (length s)) @ bytes_of_string s"
  using writeUTF8_eq [of s "[]"] by (simp add: writeUTF8_def)

lemma writePacket_loop_eq [wire]: "writePacket_loop buf n = buf @ varint_bytes n"
proof (induction buf n rule: writePacket_loop.induct)
  case (1 buf n)
  show ?case
  proof (cases "n < 128")
    case True
    then show ?thesis
      by (simp add: writePacket_loop.simps [of buf n] varint_bytes.simps [of n])
  next
    case False
    then have pos: "n div 128 > 0"
      by (simp add: div_greater_zero_iff)
    have "writePacket_loop (buf @ [of_nat (n mod 128 + 128)]) (n div 128) = buf @ [of_nat (n mod 128 + 128)] @ varint_bytes (n div 128)"
      using 1 pos by (simp add: or_0x80)
    then show ?thesis
      using False pos by (simp add: writePacket_loop.simps [of buf n] varint_bytes.simps [of n] or_0x80 Let_def)
  qed
qed

lemma writePacket_frame:
  "writePacket None (push_bit 4 t OR flags) body c = (None, c\<lparr>mc_written := mc_written c @ enc_frame (mk_frame t flags body)\<rparr>)"
  by (simp add: writePacket_def writePacket_loop_eq enc_frame_mk_frame)

lemma readLoop_len_varint: "readLoop_len mult remaining (varint_bytes n @ bs) = Some (remaining + of_nat n * mult, bs)"
proof (induction n arbitrary: mult remaining rule: varint_bytes.induct)
  case (1 n)
  let ?r = "newSliceReader (varint_bytes n @ bs)"
  obtain b ds where b: "varint_bytes n = b # ds"
    by (meson list.exhaust varint_bytes_not_Nil)
  note d = varint_first_digit [of ?r n bs]
  have "unat (b AND 0x7F) = n mod 128" "b AND 0x80 = 0 \<longleftrightarrow> n < 128"
    using d(2,3) b by (simp_all add: unsigned_and_eq word_unat_eq_iff)
  then have digit: "(ucast (b AND 0x7F) :: int64) = of_nat (n mod 128)"
    by (metis of_nat_unat)
  show ?case
  proof (cases "n < 128")
    case True
    then have "ds = []"
      using b by (simp add: varint_bytes.simps [of n])
    with True b digit \<open>b AND 0x80 = 0 \<longleftrightarrow> n < 128\<close> show ?thesis
      by simp
  next
    case False
    then have "ds = varint_bytes (n div 128)"
      using b by (simp add: varint_bytes.simps [of n])
    moreover have "(of_nat n :: int64) = of_nat (n mod 128) + of_nat (n div 128) * 128"
      by (metis mod_mult_div_eq mult.commute of_nat_add of_nat_mult of_nat_numeral)
    ultimately show ?thesis
      using 1 [OF False] False b digit \<open>b AND 0x80 = 0 \<longleftrightarrow> n < 128\<close> by (simp add: algebra_simps)
  qed
qed

text \<open>What the read loop makes of a frame.\<close>

definition packet_of :: "FixedHeader \<times> bytes \<Rightarrow> Packet" where
  "packet_of p = \<lparr>pk_Type = push_bit 4 (fh_Type (fst p)), pk_Flags = fh_Flags (fst p), pk_Payload = snd p\<rparr>"

lemma high_nibble:
  assumes "(t::byte) < 16" "f < 16"
  shows "(push_bit 4 t OR f) AND 0xF0 = push_bit 4 t"
proof -
  have eq: "(0xF0::byte) = push_bit 4 0x0F"
    by (simp add: push_bit_eq_mult)
  have "bit (0xF0::byte) n \<longleftrightarrow> 4 \<le> n \<and> n < 8" for n
    unfolding eq bit_push_bit_iff bit_0x0F by (auto simp: possible_bit_def)
  with nibble_bit [OF assms(2)] show ?thesis
    by (fastforce intro!: bit_word_eqI simp: bit_and_iff bit_or_iff bit_push_bit_iff simp del: bit_numeral_word_iff)
qed

lemma readLoop_turn_frame:
  assumes "frame_ok m p" "mc_unread c = enc_frame p @ bs" "length (mc_recvCh c) < 64" "\<not> mc_done c"
  shows "readLoop_turn stop c = Turn (c\<lparr>mc_unread := bs, mc_recvCh := mc_recvCh c @ [packet_of p]\<rparr>)"
proof -
  let ?fh = "fst p" and ?n = "length (snd p)"
  have p: "fh_Type ?fh < 16" "fh_Flags ?fh < 16" "?n \<le> MaxRemainingLength" "fh_RemainingLength ?fh = ?n"
    using assms(1) by (auto simp: frame_ok_def fixed_ok_def)
  then have "?n < 2 ^ 28"
    by (simp add: MaxRemainingLength_def)
  then have n: "unat (of_nat ?n :: int64) = ?n" "sint (of_nat ?n :: int64) = int ?n"
    by (simp_all add: unsigned_of_nat signed_of_nat take_bit_nat_eq_self signed_take_bit_int_eq_self)
  have unread: "mc_unread c = (push_bit 4 (fh_Type ?fh) OR fh_Flags ?fh) # varint_bytes ?n @ snd p @ bs"
    using assms(2) p(4) by (simp add: enc_frame_def enc_fixed_def)
  show ?thesis
    using assms(3,4) \<open>?n < 2 ^ 28\<close>
    by (simp add: readLoop_turn_def unread readLoop_len_varint n maxAlloc_def packet_of_def high_nibble [OF p(1,2)] nibbles(2) [OF p(1,2)] Let_def)
qed

lemma readLoop_frames:
  assumes "list_all (frame_ok m) ps" "mc_unread c = concat (map enc_frame ps)" "length (mc_recvCh c) + length ps \<le> 64" "\<not> mc_done c"
  shows "readLoop c = Some (c\<lparr>mc_unread := [], mc_recvCh := mc_recvCh c @ map packet_of ps\<rparr>)"
  using assms
proof (induction ps arbitrary: c)
  case Nil
  then show ?case
    by (simp add: readLoop.simps [of c] readLoop_turn_def)
next
  case (Cons p ps)
  let ?c = "c\<lparr>mc_unread := concat (map enc_frame ps), mc_recvCh := mc_recvCh c @ [packet_of p]\<rparr>"
  have "readLoop_turn False c = Turn ?c"
    using Cons.prems by (intro readLoop_turn_frame) auto
  then have "readLoop c = readLoop ?c"
    by (simp add: readLoop.simps [of c])
  with Cons.IH [of ?c] Cons.prems show ?case
    by simp
qed

lemma WaitMessages_eq: "fst (WaitMessages n c) = take n (filter (\<lambda>p. pk_Type p = 0x30) (mc_recvCh c))"
proof (induction n arbitrary: c)
  case (Suc n)
  show ?case
  proof (cases "dropWhile (\<lambda>p. pk_Type p \<noteq> 0x30) (mc_recvCh c)")
    case Nil
    then have "filter (\<lambda>p. pk_Type p = 0x30) (mc_recvCh c) = []"
      by (auto simp: dropWhile_eq_Nil_conv filter_empty_conv)
    moreover have "WaitMessage c = (None, c\<lparr>mc_recvCh := []\<rparr>)"
      unfolding WaitMessage_def Nil by simp
    ultimately show ?thesis
      by simp
  next
    case (Cons p ps)
    have "filter (\<lambda>p. pk_Type p = 0x30) (mc_recvCh c) = filter (\<lambda>p. pk_Type p = 0x30) (dropWhile (\<lambda>p. pk_Type p \<noteq> 0x30) (mc_recvCh c))"
      by (subst takeWhile_dropWhile_id [symmetric, of "mc_recvCh c" "\<lambda>p. pk_Type p \<noteq> 0x30"], subst filter_append)
        (auto simp: filter_empty_conv dest: set_takeWhileD)
    moreover have "pk_Type p = 0x30"
      using hd_dropWhile [of "\<lambda>p. pk_Type p \<noteq> 0x30" "mc_recvCh c"] Cons by simp
    ultimately show ?thesis
      using Cons Suc [of "c\<lparr>mc_recvCh := ps\<rparr>"] by (auto simp: WaitMessage_def case_prod_beta)
  qed
qed simp

section \<open>The broker reads the client's packets\<close>

definition client_flags :: "string \<Rightarrow> string \<Rightarrow> byte" where
  "client_flags username password = 0x02 OR (if username \<noteq> [] then 0x80 else 0) OR (if password \<noteq> [] then 0x40 else 0)"

lemma client_flags_bits:
  "client_flags u p AND 0x01 = 0" "client_flags u p AND 0x02 \<noteq> 0" "client_flags u p AND 0x04 = 0"
  "drop_bit 3 (client_flags u p) AND 0x03 = 0" "client_flags u p AND 0x20 = 0"
  "client_flags u p AND 0x40 \<noteq> 0 \<longleftrightarrow> p \<noteq> []" "client_flags u p AND 0x80 \<noteq> 0 \<longleftrightarrow> u \<noteq> []"
  by (cases "u = []"; cases "p = []"; simp add: client_flags_def; code_simp)+

lemma connect_payload_eq:
  assumes "fits16 cid" "fits16 u" "fits16 p"
  shows "connect_payload cid u p = enc_string ''MQTT'' @ [4, client_flags u p] @ put_uint16 60 @ enc_string cid
    @ (if u \<noteq> [] then enc_string u else []) @ (if p \<noteq> [] then enc_string p else [])"
proof -
  have "fits16 ''MQTT''"
    by (simp add: fits16_def)
  with assms show ?thesis
    by (simp add: connect_payload_def writeUTF8_eq client_flags_def Let_def)
qed

definition connect_base :: "string \<Rightarrow> string \<Rightarrow> ConnectPacket" where
  "connect_base u p = empty_ConnectPacket\<lparr>cp_Version := 4, cp_CleanSession := True, cp_KeepAlive := 60,
     cp_HasPassword := p \<noteq> [], cp_HasUsername := u \<noteq> []\<rparr>"

lemma read_byte: "rest r = b # bs \<Longrightarrow> \<exists>r'. io_ReadFull 1 r = Inr ([b], r') \<and> rest r' = bs"
  by (simp add: io_ReadFull_eq)

lemma read_uint16: "rest r = put_uint16 v @ bs \<Longrightarrow> \<exists>r'. readUint16 r = Inr (v, r') \<and> rest r' = bs"
  using u16.dec_enc [where x = v and r = r and bs = bs] by auto

lemma read_string: "fits16 s \<Longrightarrow> rest r = enc_string s @ bs \<Longrightarrow> \<exists>r'. readString r = Inr (s, r') \<and> rest r' = bs"
  using str.dec_enc [where x = s and r = r and bs = bs] by auto

lemma decodeConnectHeader_client:
  assumes "rest r = enc_string ''MQTT'' @ [4, client_flags u p] @ put_uint16 60 @ bs"
  shows "\<exists>r'. decodeConnectHeader r = Inr (connect_base u p, r') \<and> rest r' = bs"
proof -
  have "fits16 ''MQTT''"
    by (simp add: fits16_def)
  from read_string [OF this assms] obtain r1 where 1: "readString r = Inr (''MQTT'', r1)"
    "rest r1 = 4 # client_flags u p # put_uint16 60 @ bs"
    by auto
  from read_byte [OF 1(2)] obtain r2 where 2: "io_ReadFull 1 r1 = Inr ([4], r2)" "rest r2 = client_flags u p # put_uint16 60 @ bs"
    by auto
  from read_byte [OF 2(2)] obtain r3 where 3: "io_ReadFull 1 r2 = Inr ([client_flags u p], r3)" "rest r3 = put_uint16 60 @ bs"
    by auto
  from read_uint16 [OF 3(2)] obtain r4 where 4: "readUint16 r3 = Inr (60, r4)" "rest r4 = bs"
    by auto
  show ?thesis
    unfolding decodeConnectHeader_def using 1(1) 2(1) 3(1) 4
    by (simp add: client_flags_bits connect_base_def empty_ConnectPacket_def Let_def)
qed

text \<open>The second half of \<^const>\<open>decodeConnectCredentials\<close>.\<close>

definition read_password :: "ConnectPacket \<Rightarrow> sliceReader \<Rightarrow> goerr + ConnectPacket \<times> sliceReader" where
  "read_password pkt r =
     (if cp_HasPassword pkt then
        bindE (readUint16 r) (\<lambda>(pLen, r).
          if pLen > 0 then bindE (io_ReadFull (unat pLen) r) (\<lambda>(pw, r). Inr (pkt\<lparr>cp_Password := pw\<rparr>, r)) else Inr (pkt, r))
      else Inr (pkt, r))"

lemma read_password_client:
  assumes "fits16 p" "rest r = (if p \<noteq> [] then enc_string p else [])" "cp_HasPassword pkt = (p \<noteq> [])" "cp_Password pkt = []"
  shows "\<exists>r'. read_password pkt r = Inr (pkt\<lparr>cp_Password := bytes_of_string p\<rparr>, r')"
proof (cases "p = []")
  case True
  with assms(3,4) show ?thesis
    by (intro exI [of _ r]) (simp add: read_password_def bytes_of_string_def)
next
  case False
  let ?n = "of_nat (length p) :: uint16"
  have n: "unat ?n = length p"
    using assms(1) by (simp add: fits16_def unsigned_of_nat take_bit_nat_eq_self)
  then have "?n > 0"
    using False by (metis length_0_conv unat_0 word_gt_0)
  moreover have "rest r = put_uint16 ?n @ bytes_of_string p"
    using assms(2) False enc_string_prefix [OF assms(1)] by simp
  from read_uint16 [OF this] obtain r1 where "readUint16 r = Inr (?n, r1)" "rest r1 = bytes_of_string p"
    by auto
  ultimately show ?thesis
    using False assms(3) n by (simp add: read_password_def io_ReadFull_eq)
qed

lemma decodeConnectCredentials_client:
  assumes "fits16 u" "fits16 p" "rest r = (if u \<noteq> [] then enc_string u else []) @ (if p \<noteq> [] then enc_string p else [])"
    and pkt: "cp_HasUsername pkt = (u \<noteq> [])" "cp_HasPassword pkt = (p \<noteq> [])" "cp_Username pkt = []" "cp_Password pkt = []"
  shows "\<exists>r'. decodeConnectCredentials pkt r = Inr (pkt\<lparr>cp_Username := u, cp_Password := bytes_of_string p\<rparr>, r')"
proof -
  have eq: "decodeConnectCredentials pkt r = bindE (if cp_HasUsername pkt then
              bindE (wrapE ''username'' (readString r)) (\<lambda>(u, r). Inr (pkt\<lparr>cp_Username := u\<rparr>, r))
            else Inr (pkt, r)) (\<lambda>(pkt, r). read_password pkt r)"
    by (simp add: decodeConnectCredentials_def read_password_def)
  obtain r1 where r1: "(if cp_HasUsername pkt then bindE (wrapE ''username'' (readString r)) (\<lambda>(u, r). Inr (pkt\<lparr>cp_Username := u\<rparr>, r))
      else Inr (pkt, r)) = Inr (pkt\<lparr>cp_Username := u\<rparr>, r1)" and rest: "rest r1 = (if p \<noteq> [] then enc_string p else [])"
  proof (cases "u = []")
    case True
    with pkt(1,3) assms(3) that [of r] show ?thesis
      by simp
  next
    case False
    with read_string [OF assms(1), of r] assms(3) pkt(1) that show ?thesis
      by auto
  qed
  from read_password_client [OF assms(2) rest, of "pkt\<lparr>cp_Username := u\<rparr>"] pkt(2,4) show ?thesis
    unfolding eq r1 by simp
qed

lemma DecodeConnect_client:
  assumes "fits16 cid" "fits16 u" "fits16 p"
  shows "DecodeConnect (connect_payload cid u p)
    = Inr ((connect_base u p)\<lparr>cp_ClientID := cid, cp_Username := u, cp_Password := bytes_of_string p\<rparr>)"
proof -
  let ?creds = "(if u \<noteq> [] then enc_string u else []) @ (if p \<noteq> [] then enc_string p else [])"
  obtain r1 where r1: "decodeConnectHeader (newSliceReader (connect_payload cid u p)) = Inr (connect_base u p, r1)"
    "rest r1 = enc_string cid @ ?creds"
    using decodeConnectHeader_client [of "newSliceReader (connect_payload cid u p)" u p "enc_string cid @ ?creds"]
      connect_payload_eq [OF assms] by auto
  let ?r2 = "advance (length (enc_string cid)) r1" and ?pkt = "(connect_base u p)\<lparr>cp_ClientID := cid\<rparr>"
  have "readString r1 = Inr (cid, ?r2)"
    using assms(1) r1(2) by (rule str.dec_enc)
  moreover have "decodeConnectProps (connect_base u p) r1 = Inr (connect_base u p, r1)"
    by (simp add: decodeConnectProps_def connect_base_def)
  moreover have "decodeConnectWill ?pkt ?r2 = Inr (?pkt, ?r2)"
    by (simp add: decodeConnectWill_def connect_base_def empty_ConnectPacket_def)
  moreover obtain r3 where "decodeConnectCredentials ?pkt ?r2
      = Inr (?pkt\<lparr>cp_Username := u, cp_Password := bytes_of_string p\<rparr>, r3)"
    using decodeConnectCredentials_client [OF assms(2,3), of ?r2 ?pkt] r1(2)
    by (auto simp: connect_base_def empty_ConnectPacket_def)
  ultimately show ?thesis
    using r1(1) by (simp add: DecodeConnect_def)
qed

text \<open>The broker reads what a client has written as one frame, with the given meaning, and stands right after it.\<close>

definition reads_as :: "nat \<Rightarrow> MQTTClient \<Rightarrow> PacketType \<Rightarrow> (FixedHeader \<Rightarrow> bytes \<Rightarrow> bool) \<Rightarrow> bool" where
  "reads_as m c t P \<longleftrightarrow> (\<forall>suff. \<exists>fh body r'. readFrame m (newSliceReader (mc_written c @ suff)) = Inr ((fh, body), r')
     \<and> rest r' = suff \<and> fh_Type fh = t \<and> P fh body)"

lemma reads_as_mono: "reads_as m c t P \<Longrightarrow> (\<And>fh body. P fh body \<Longrightarrow> Q fh body) \<Longrightarrow> reads_as m c t Q"
  unfolding reads_as_def by blast

lemma writePacket_reads_as:
  assumes "mc_written c = []" "tf = push_bit 4 t OR flags" "t < 16" "flags < 16"
    and "length (mc_written (snd (writePacket None tf body c))) \<le> m" "m \<le> MaxRemainingLength"
    and "P (fst (mk_frame t flags body)) body"
  shows "reads_as m (snd (writePacket None tf body c)) t P"
  unfolding reads_as_def
proof
  fix suff
  have w: "mc_written (snd (writePacket None tf body c)) = enc_frame (mk_frame t flags body)"
    using assms(1) writePacket_frame [of t flags body c] by (simp add: assms(2))
  have "length body \<le> m"
    using assms(5) by (simp add: w enc_frame_mk_frame)
  with readFrame_mk_frame [of "newSliceReader (enc_frame (mk_frame t flags body) @ suff)" t flags body suff m] assms(3,4,6)
  obtain r' where "readFrame m (newSliceReader (enc_frame (mk_frame t flags body) @ suff)) = Inr (mk_frame t flags body, r')" "rest r' = suff"
    by auto
  with assms(7) show "\<exists>fh body' r'. readFrame m (newSliceReader (mc_written (snd (writePacket None tf body c)) @ suff)) = Inr ((fh, body'), r')
      \<and> rest r' = suff \<and> fh_Type fh = t \<and> P fh body'"
    by (auto simp: w mk_frame_def)
qed

lemma publish_type_flags:
  assumes "qos \<le> QoS2"
  shows "0x30 OR (if retain then push_bit 1 qos OR 0x01 else push_bit 1 qos) = push_bit 4 PUBLISH OR low_publish_flags qos retain False"
  using assms by (cases rule: qos_cases; cases retain; simp add: low_publish_flags_def; code_simp)

lemma drawn_id_nonzero:
  assumes "rand < 65535"
  shows "(of_nat (rand + 1) :: uint16) \<noteq> 0"
proof -
  have "unat (of_nat (rand + 1) :: uint16) = rand + 1"
    using assms by (simp only: unsigned_of_nat) (simp add: take_bit_nat_eq_self)
  then show ?thesis
    by (metis add_is_0 one_neq_zero unat_0)
qed

lemma connect_understood:
  assumes "fits16 clientID" "fits16 username" "fits16 password"
    and "length (mc_written (snd (connect_send None clientID username password))) \<le> m" "m \<le> MaxRemainingLength"
  shows "reads_as m (snd (connect_send None clientID username password)) CONNECT
      (\<lambda>fh body. DecodeConnect body = Inr (empty_ConnectPacket\<lparr>cp_Version := V311, cp_CleanSession := True, cp_KeepAlive := 60,
         cp_HasUsername := username \<noteq> [], cp_HasPassword := password \<noteq> [], cp_ClientID := clientID, cp_Username := username,
         cp_Password := bytes_of_string password\<rparr>))"
  using assms(4,5) unfolding connect_send_def
  by (intro writePacket_reads_as [where flags = 0])
    (simp_all add: new_client_def DecodeConnect_client [OF assms(1-3)] connect_base_def push_bit_eq_mult)

lemma client_Publish_eq:
  assumes "ValidTopicName topic" "qos \<le> QoS2"
  shows "client_Publish None rand topic payload qos retain c
    = writePacket None (push_bit 4 PUBLISH OR low_publish_flags qos retain False) (publish_body V311 topic payload qos (of_nat (rand + 1))) c"
proof -
  have "fits16 topic"
    using assms(1) by (auto simp: ValidTopicName_def fits16_def MaxTopicLen_def split: if_splits)
  with publish_type_flags [OF assms(2), of retain] show ?thesis
    by (simp only: client_Publish_def Let_def publish_body_def) (auto simp: writeUTF8_eq)
qed

lemma publish_understood:
  assumes "ValidTopicName topic" "qos \<le> QoS2" "rand < 65535" "mc_written c = []"
    and "length (mc_written (snd (client_Publish None rand topic payload qos retain c))) \<le> m" "m \<le> MaxRemainingLength"
  shows "reads_as m (snd (client_Publish None rand topic payload qos retain c)) PUBLISH
      (\<lambda>fh body. \<forall>now. DecodePublish now V311 fh body = Inr \<lparr>pp_Dup = False, pp_QoS = qos, pp_Retain = retain, pp_Topic = topic,
         pp_PacketID = (if qos > 0 then of_nat (rand + 1) else 0), pp_Payload = payload,
         pp_MessageExpiryInterval = 0, pp_TopicAlias = 0, pp_ReceivedAt = now\<rparr>)"
proof -
  define flags where "flags = low_publish_flags qos retain False"
  define body where "body = publish_body V311 topic payload qos (of_nat (rand + 1))"
  have pub: "client_Publish None rand topic payload qos retain c = writePacket None (push_bit 4 PUBLISH OR flags) body c"
    unfolding flags_def body_def by (rule client_Publish_eq [OF assms(1,2)])
  have flags: "flags < 16"
    unfolding flags_def using low_publish_flags_decode(1) [OF assms(2)] .
  have "DecodePublish now V311 (fst (mk_frame PUBLISH flags body)) body = Inr \<lparr>pp_Dup = False, pp_QoS = qos, pp_Retain = retain,
      pp_Topic = topic, pp_PacketID = (if qos > 0 then of_nat (rand + 1) else 0), pp_Payload = payload,
      pp_MessageExpiryInterval = 0, pp_TopicAlias = 0, pp_ReceivedAt = now\<rparr>" for now
    unfolding body_def using assms(1,2) drawn_id_nonzero [OF assms(3)]
    by (intro DecodePublish_publish_body) (simp_all add: mk_frame_def flags_def)
  then show ?thesis
    using assms(5) unfolding pub by (intro writePacket_reads_as [OF assms(4) refl _ flags _ assms(6)]) simp_all
qed

lemma subscribe_understood:
  assumes "fits16 flt" "qos \<le> QoS2" "mc_written c = []"
    and "length (mc_written (snd (subscribe_send None rand flt qos c))) \<le> m" "m \<le> MaxRemainingLength"
  shows "reads_as m (snd (subscribe_send None rand flt qos c)) SUBSCRIBE
      (\<lambda>fh body. fh_Flags fh = 2 \<and> DecodeSubscribe V311 body = Inr (of_nat (rand + 1), [\<lparr>sb_Filter = flt, sb_QoS = qos\<rparr>]))"
proof -
  have "subscription_ok \<lparr>sb_Filter = flt, sb_QoS = qos\<rparr>"
    using assms(2,1) by (cases rule: qos_cases) (simp_all add: subscription_ok_def)
  then have "DecodeSubscribe V311 (put_uint16 (of_nat (rand + 1)) @ enc_string flt @ [qos])
      = Inr (of_nat (rand + 1), [\<lparr>sb_Filter = flt, sb_QoS = qos\<rparr>])"
    using subscribe_roundtrip [of "[\<lparr>sb_Filter = flt, sb_QoS = qos\<rparr>]" V311 "of_nat (rand + 1)"]
    by (simp add: props_prefix_def enc_subscription_def)
  with assms(1,3,4,5) show ?thesis
    unfolding subscribe_send_def Let_def
    by (intro writePacket_reads_as [where flags = 2]) (simp_all add: writeUTF8_eq mk_frame_def push_bit_eq_mult)
qed

text \<open>
  The client never answers the acknowledgement of a QoS 2 message, and the broker does not route it before that: whatever the state of the
  broker, a QoS 2 message of the client leaves the router as it was.
\<close>

theorem go_client_qos2_not_routed:
  assumes "ValidTopicName topic" "rand < 65535" "cl_version (bk_conn b c) = V311"
    and "length (mc_written (snd (client_Publish None rand topic payload QoS2 retain (new_client clientID)))) \<le> m" "m \<le> MaxRemainingLength"
  shows "reads_as m (snd (client_Publish None rand topic payload QoS2 retain (new_client clientID))) PUBLISH
    (\<lambda>fh body. bk_router (snd (handlePublish t0 now c fh body b)) = bk_router b)"
proof -
  have "bk_router (snd (handlePublish t0 now c fh body b)) = bk_router b"
    if "DecodePublish t0 V311 fh body = Inr pkt" "pp_QoS pkt = QoS2" for fh body pkt
  proof (cases "resolvePublishTopic pkt (bk_conn b c)")
    case (Inl e)
    with that assms(3) show ?thesis
      by (simp add: handlePublish_def bind_run liftE_def)
  next
    case (Inr p)
    obtain topic' cl' where p: "p = (topic', cl')"
      by (rule prod.exhaust)
    with Inr that assms(3) have "handlePublish t0 now c fh body b
        = publish_resolved t0 now c (cl_clientID (bk_conn b c)) topic' pkt (upd_client c (\<lambda>_. cl') b)"
      by (intro handlePublish_run) simp_all
    with publish_resolved_effect [of t0 now c "cl_clientID (bk_conn b c)" topic' pkt "upd_client c (\<lambda>_. cl') b"] that(2)
    show ?thesis
      by simp
  qed
  moreover have "mc_written (new_client clientID) = []"
    by (simp add: new_client_def)
  ultimately show ?thesis
    using reads_as_mono [OF publish_understood [OF assms(1) order_refl assms(2) _ assms(4,5)]] by simp
qed

lemma packet_of_publish:
  assumes "frame_ok m p"
  shows "pk_Type (packet_of p) = 0x30 \<longleftrightarrow> fh_Type (fst p) = PUBLISH"
proof -
  have "fh_Type (fst p) < 16"
    using assms by (simp add: frame_ok_def fixed_ok_def)
  then have "drop_bit 4 (push_bit 4 (fh_Type (fst p))) = fh_Type (fst p)"
    using nibbles(1) [of "fh_Type (fst p)" 0] by simp
  then have "push_bit 4 (fh_Type (fst p)) = push_bit 4 PUBLISH \<Longrightarrow> fh_Type (fst p) = drop_bit 4 (push_bit 4 PUBLISH)"
    by simp
  moreover have "push_bit 4 PUBLISH = 0x30" "drop_bit 4 (0x30 :: byte) = PUBLISH"
    by code_simp+
  ultimately show ?thesis
    unfolding packet_of_def by (simp only: Packet.select_convs) metis
qed

text \<open>What the client takes for the payload of a message with an acknowledged QoS begins with the packet identifier.\<close>

lemma extractPayload_publish:
  assumes "fits16 topic"
  shows "extractPayload (Some (packet_of (mk_frame PUBLISH flags (publish_body V311 topic payload qos packetID))))
    = string_of_bytes ((if qos > 0 then put_uint16 packetID else []) @ payload)"
proof -
  have "unat (of_nat (length topic) :: uint16) = length topic"
    using assms by (simp add: fits16_def unsigned_of_nat take_bit_nat_eq_self)
  then show ?thesis
    by (simp add: extractPayload_def packet_of_def mk_frame_def publish_body_def enc_string_prefix [OF assms] Let_def)
qed

text \<open>The benchmark ends with a panic, and an unknown test counts as success.\<close>

lemma benchmark_panics: "benchmark_end err sub = Inl ClientPanic"
  by (simp add: benchmark_end_def client_Disconnect_def split: option.split)

lemma unknown_test_succeeds: "testName \<notin> set test_order \<Longrightarrow> testName \<noteq> ''all'' \<Longrightarrow> client_main fn testName = ([], False)"
  by (simp add: client_main_def)

section \<open>Properties\<close>

text \<open>
  C19: the broker understands the Go client. The packets of \<open>Connect\<close>, \<open>Publish\<close> and \<open>Subscribe\<close> are each read as one frame and
  decoded to the client's arguments, with the identifier that the client drew; only the session flag does not depend
  on the argument of \<open>Connect\<close>: it always asks for a clean session.
\<close>

theorem go_client_understood:
  assumes "fits16 clientID" "fits16 username" "fits16 password" "ValidTopicName topic" "qos \<le> QoS2" "fits16 flt" "rand < 65535"
    and "length (mc_written (snd (connect_send None clientID username password))) \<le> m"
    and "length (mc_written (snd (client_Publish None rand topic payload qos retain (new_client clientID)))) \<le> m"
    and "length (mc_written (snd (subscribe_send None rand flt qos (new_client clientID)))) \<le> m"
    and "m \<le> MaxRemainingLength"
  shows "reads_as m (snd (connect_send None clientID username password)) CONNECT
      (\<lambda>fh body. DecodeConnect body = Inr (empty_ConnectPacket\<lparr>cp_Version := V311, cp_CleanSession := True, cp_KeepAlive := 60,
         cp_HasUsername := username \<noteq> [], cp_HasPassword := password \<noteq> [], cp_ClientID := clientID, cp_Username := username,
         cp_Password := bytes_of_string password\<rparr>))
    \<and> reads_as m (snd (client_Publish None rand topic payload qos retain (new_client clientID))) PUBLISH
      (\<lambda>fh body. \<forall>now. DecodePublish now V311 fh body = Inr \<lparr>pp_Dup = False, pp_QoS = qos, pp_Retain = retain, pp_Topic = topic,
         pp_PacketID = (if qos > 0 then of_nat (rand + 1) else 0), pp_Payload = payload,
         pp_MessageExpiryInterval = 0, pp_TopicAlias = 0, pp_ReceivedAt = now\<rparr>)
    \<and> reads_as m (snd (subscribe_send None rand flt qos (new_client clientID))) SUBSCRIBE
      (\<lambda>fh body. fh_Flags fh = 2 \<and> DecodeSubscribe V311 body = Inr (of_nat (rand + 1), [\<lparr>sb_Filter = flt, sb_QoS = qos\<rparr>]))"
  using connect_understood [OF assms(1-3,8,11)] subscribe_understood [OF assms(6,5) _ assms(10,11)]
    publish_understood [OF assms(4,5,7) _ assms(9,11)]
  by (simp add: new_client_def)

theorem go_client_understood_witness:
  "reads_as 100 (snd (connect_send None ''a'' ''admin'' ''pw'')) CONNECT
      (\<lambda>fh body. DecodeConnect body = Inr (empty_ConnectPacket\<lparr>cp_Version := V311, cp_CleanSession := True, cp_KeepAlive := 60,
         cp_HasUsername := True, cp_HasPassword := True, cp_ClientID := ''a'', cp_Username := ''admin'', cp_Password := [0x70, 0x77]\<rparr>))
    \<and> reads_as 100 (snd (client_Publish None 6 ''t'' [1] QoS1 True (new_client ''a''))) PUBLISH
      (\<lambda>fh body. \<forall>now. DecodePublish now V311 fh body = Inr \<lparr>pp_Dup = False, pp_QoS = QoS1, pp_Retain = True, pp_Topic = ''t'',
         pp_PacketID = 7, pp_Payload = [1], pp_MessageExpiryInterval = 0, pp_TopicAlias = 0, pp_ReceivedAt = now\<rparr>)
    \<and> reads_as 100 (snd (subscribe_send None 6 ''#'' QoS1 (new_client ''a''))) SUBSCRIBE
      (\<lambda>fh body. fh_Flags fh = 2 \<and> DecodeSubscribe V311 body = Inr (7, [\<lparr>sb_Filter = ''#'', sb_QoS = QoS1\<rparr>]))"
proof -
  have 1: "fits16 ''a''" "fits16 ''admin''" "fits16 ''pw''" "ValidTopicName ''t''" "QoS1 \<le> QoS2" "fits16 ''#''" "(6::nat) < 65535"
    by (simp_all add: fits16_def ValidTopicName_def MaxTopicLen_def)
  have 2: "length (mc_written (snd (connect_send None ''a'' ''admin'' ''pw''))) \<le> 100"
    by code_simp
  have 3: "length (mc_written (snd (client_Publish None 6 ''t'' [1] QoS1 True (new_client ''a'')))) \<le> 100"
    by code_simp
  have 4: "length (mc_written (snd (subscribe_send None 6 ''#'' QoS1 (new_client ''a'')))) \<le> 100"
    by code_simp
  have 5: "100 \<le> MaxRemainingLength"
    by (simp add: MaxRemainingLength_def)
  have 6: "bytes_of_string ''pw'' = [0x70, 0x77]"
    by code_simp
  from go_client_understood [OF 1 2 3 4 5] show ?thesis
    unfolding 6 by simp
qed

text \<open>
  C20: the Go client receives what the broker sends. From any frames the broker can send, as many as the channel holds, the read loop ends without
  a panic, having put one packet per frame into the channel, in order; the calls that wait for messages then return exactly the
  PUBLISH packets, in order.
\<close>

theorem go_client_receives:
  assumes "list_all (frame_ok m) ps" "mc_unread c = concat (map enc_frame ps)" "length (mc_recvCh c) + length ps \<le> 64" "\<not> mc_done c"
  shows "\<exists>c'. readLoop c = Some c' \<and> mc_unread c' = [] \<and> mc_recvCh c' = mc_recvCh c @ map packet_of ps
    \<and> fst (WaitMessages n c') = take n (filter (\<lambda>p. pk_Type p = 0x30) (mc_recvCh c)
        @ map packet_of (filter (\<lambda>p. fh_Type (fst p) = PUBLISH) ps))"
proof -
  have "filter (\<lambda>p. pk_Type p = 0x30) (map packet_of ps) = map packet_of (filter (\<lambda>p. fh_Type (fst p) = PUBLISH) ps)"
    using assms(1) by (induction ps) (auto simp: packet_of_publish)
  with readLoop_frames [OF assms] show ?thesis
    by (simp add: WaitMessages_eq)
qed

theorem go_client_receives_witness:
  "\<exists>c'. readLoop ((new_client ''a'')\<lparr>mc_unread := [0x20, 2, 0, 0, 0x30, 4, 0, 1, 0x74, 9]\<rparr>) = Some c'
    \<and> fst (WaitMessages 3 c') = [\<lparr>pk_Type = 0x30, pk_Flags = 0, pk_Payload = [0, 1, 0x74, 9]\<rparr>]"
proof -
  let ?ps = "[mk_frame CONNACK 0 [0, 0], mk_frame PUBLISH 0 [0, 1, 0x74, 9]]"
  let ?c = "(new_client ''a'')\<lparr>mc_unread := [0x20, 2, 0, 0, 0x30, 4, 0, 1, 0x74, 9]\<rparr>"
  have 1: "list_all (frame_ok 100) ?ps"
    by (simp add: MaxRemainingLength_def)
  have 2: "mc_unread ?c = concat (map enc_frame ?ps)"
    by (simp add: enc_frame_mk_frame varint_bytes_small push_bit_eq_mult)
  have 3: "length (mc_recvCh ?c) + length ?ps \<le> 64" "\<not> mc_done ?c"
    by (simp_all add: new_client_def)
  show ?thesis
    using go_client_receives [OF 1 2 3, of 3]
    by (auto simp: new_client_def mk_frame_def packet_of_def push_bit_eq_mult)
qed

end
