(* ===== verification/Spec2Isabelle.thy ===== *)
theory Spec2Isabelle
  imports Packets Router Session Auth Cluster Plugin Config Connection Server Handlers Connect Lifecycle Api Api_Access Transport GoClient
begin

text \<open>
  \<^bold>\<open>A verification development for the LUMA MQTT broker.\<close>

  The program is an MQTT 3.1.1 and 5.0 broker in Go. A connection reads frames and decodes them
  (\<open>internal/protocol\<close>), authenticates the client and checks its access rights and rate
  (\<open>internal/auth\<close>), asks the hooks (\<open>internal/plugin\<close>), keeps its session with the messages in flight
  and the offline queue (\<open>internal/session\<close>), and publishes and subscribes through the router
  (\<open>internal/router\<close>). Brokers of a cluster own partitions of the topics (\<open>internal/cluster\<close>). An HTTP and
  WebSocket interface (\<open>internal/api\<close>) runs in the same process and reaches the broker through Redis
  (\<open>internal/storage\<close>); \<open>cmd/broker\<close> starts both from a configuration (\<open>pkg/config\<close>). A client for tests
  is in \<open>clients/go\<close>.

  \<^bold>\<open>Conventions.\<close> A struct is a record, an enum a datatype, a fixed-width integer a word, an error a
  value of a sum type (\<open>Inl\<close> the error), and a failed bounds check of Go the error value \<open>Panic\<close>. A Go
  map is an association list with distinct keys, so that the order of an iteration is explicit. A
  method that changes its receiver returns the new record. Times are integers of nanoseconds and the
  current time is an argument. Every operation that holds its lock for its whole body is one atomic
  step.

  \<^bold>\<open>Theories.\<close>
  \<^item> \<open>Prelude\<close>: errors and their sequencing, byte strings, big-endian integers, FNV-1a, Go maps.
  \<^item> \<open>Wire\<close> (\<open>packet.go\<close>, the readers): slice reader, fixed header, variable-length integers, strings,
    properties. Every field format is an interpretation of the locale \<open>stream_codec\<close>, whose laws give
    the round trips and the unambiguity of sequences.
  \<^item> \<open>Topics\<close> (\<open>packet.go\<close>, \<open>router.go\<close>, \<open>auth.go\<close>): names, filters, shared filters, splitters and both
    matchers, against the matching relation \<open>mqtt_match\<close> of the standard.
  \<^item> \<open>Packets\<close> (\<open>packet.go\<close>, the control packets): all decoders and encoders; no decoder panics, and what
    is encoded decodes to what was encoded.
  \<^item> \<open>Metrics\<close> (\<open>metrics.go\<close>): the collectors; the calls of the code are kept as a log.
  \<^item> \<open>Trie\<close> and \<open>Router\<close> (\<open>router.go\<close>): the trie of one shard and the router of 256 shards with the shared
    groups. Both interpret \<open>subscription_index\<close>, the specification of a flat table of subscriptions.
    Matching is compared with the subscriptions that are eligible for a topic.
  \<^item> \<open>Session\<close> (\<open>session.go\<close>): flight tables and queue are interpretations of \<open>flight_table\<close> and
    \<open>bounded_queue\<close>; the store maps client identifiers to addresses of sessions.
  \<^item> \<open>Auth\<close> (\<open>auth.go\<close>): passwords, tokens, certificates, access rules and the token bucket. The hash, the
    token library and the choice of the evicted cache entry are parameters with named hypotheses.
  \<^item> \<open>Cluster\<close> (\<open>partition.go\<close>, \<open>reconcilePartitions\<close>) and \<open>Plugin\<close> (\<open>plugin.go\<close>).

  \<^item> \<open>Config\<close> (\<open>config.go\<close>): loading from an environment, validation, and what a valid configuration ensures.
  \<^item> \<open>Effects\<close>: handlers as functions from the state to a result and a state, with the rules that
    carry an invariant through them (\<open>safe\<close>) and that say what they leave alone.
  \<^item> \<open>Storage\<close>: the records the broker exchanges with Redis and PostgreSQL; its requests are kept as a log.
  \<^item> \<open>Connection\<close> (\<open>client.go\<close>): the state of a connection and of the broker, and every handler, the delivery,
    both loops one turn at a time, and the cleanup. A goroutine that a handler starts is a task of
    the broker, to be run at any later time.
  \<^item> \<open>Broker_Safety\<close>: the invariant of the broker and its preservation by every operation of a connection.
  \<^item> \<open>Server\<close> (\<open>server.go\<close>): construction, accepting, the background loops, and the relation \<open>step\<close> of all the
    broker can do, in any interleaving; every reachable state satisfies the invariant.
  \<^item> \<open>Frame\<close>, \<open>Handlers\<close>, \<open>Connect\<close>, \<open>Lifecycle\<close>: the functional behaviour of the handlers: publishing and
    QoS 2, subscribing, the handshake, deliveries and the offline queue, the end of connections and
    sessions, the cluster. \<open>Lifecycle\<close> also shows the takeover of a clean session to go wrong.
  \<^item> \<open>Json\<close>, \<open>Database\<close> (\<open>storage.go\<close>): JSON as Go encodes and decodes it, the commands to Redis, the queries to
    PostgreSQL with their arguments and the scanning of the rows.
  \<^item> \<open>Api\<close>, \<open>Api_Access\<close> (\<open>api/server.go\<close>): routes, middlewares, every handler and the WebSocket hub; access
    control, and that the interface leaves the broker's own credentials alone.
  \<^item> \<open>Transport\<close> (\<open>transports.go\<close>, \<open>server.go\<close>, \<open>logger.go\<close>, \<open>main.go\<close>): MQTT over WebSocket as a byte stream, the
    accept loop with its delays, TLS, start and stop, and the state the process sets up.
  \<^item> \<open>GoClient\<close> (\<open>clients/go/client.go\<close>): the client and its tests; the broker decodes what the client encodes
    and the client reads what the broker encodes.

  \<^bold>\<open>Libraries.\<close> Password hashes, the token library, Prometheus, Redis, PostgreSQL, gorilla/websocket and zap
  are parameters: functions or records of functions that the definitions take as arguments. What a
  theorem needs of them is a hypothesis of the theorem.

  \<^bold>\<open>Bounds and loops.\<close> Loops over input are recursion on the remaining bytes. The search for a free packet
  identifier may run forever and is a \<^theory_text>\<open>partial_function (option)\<close>; it is shown to return exactly
  if an identifier is free. An endless loop of a goroutine is modelled by one turn. No definition uses fuel. The allocation limit \<open>maxAlloc\<close> of
  the client is that of 64-bit Linux.

  \<^bold>\<open>Not modelled.\<close> Opening sockets, connecting to the databases, pooling, migration and the batched logger of
  messages (\<open>storage.go\<close>), the HTTP server itself, read and write deadlines, signals, the loops that only
  sleep or log (\<open>quicLoop\<close>), and the printing and benchmarks of the client are calls of libraries. Token counts of the rate limiter
  are rationals where the code has floating-point numbers. Operations that the code protects with a lock are atomic; races
  inside an operation that takes its locks one after the other (subscribing and pruning in the trie) are outside the model.
\<close>

end
